(* ===== verification/VLS_Prelude.thy ===== *)
theory VLS_Prelude
  imports Main "HOL-Library.Word" "HOL-Library.AList" "HOL-Library.List_Lexorder"
    "HOL-Library.Multiset"
begin

unbundle bit_operations_syntax

text \<open>
  Shared vocabulary of the development: the machine integers of the Rust sources, byte
  strings, the three ways a Rust call can end (\<open>Ok\<close>, \<open>Err\<close>, a panic) with the
  combinators that stand for the \<^verbatim>\<open>?\<close> operator and for sequences of checks, the checked and
  saturating integer operations of the standard library, and association lists standing for
  \<^verbatim>\<open>HashMap\<close> and \<^verbatim>\<open>BTreeMap\<close>.  Plain \<open>+\<close>, \<open>-\<close> and \<open>*\<close> on \<^verbatim>\<open>u64\<close> values are the
  wrapping operations of the release build (no \<^verbatim>\<open>Cargo.toml\<close> of the repository turns
  \<^verbatim>\<open>overflow-checks\<close> on).
\<close>

section \<open>Machine integers and byte strings\<close>

type_synonym u8 = "8 word"
type_synonym u16 = "16 word"
type_synonym u32 = "32 word"
type_synonym u64 = "64 word"
type_synonym bytes = "u8 list"

section \<open>How a call ends\<close>

datatype ('e, 'a) outcome = Ok 'a | Err 'e | Panic

primrec bindo :: "('e, 'a) outcome \<Rightarrow> ('a \<Rightarrow> ('e, 'b) outcome) \<Rightarrow> ('e, 'b) outcome" where
  "bindo (Ok a) f = f a"
| "bindo (Err e) f = Err e"
| "bindo Panic f = Panic"

primrec map_err :: "('e \<Rightarrow> 'f) \<Rightarrow> ('e, 'a) outcome \<Rightarrow> ('f, 'a) outcome" where
  "map_err g (Ok a) = Ok a"
| "map_err g (Err e) = Err (g e)"
| "map_err g Panic = Panic"

primrec is_ok :: "('e, 'a) outcome \<Rightarrow> bool" where
  "is_ok (Ok a) = True"
| "is_ok (Err e) = False"
| "is_ok Panic = False"

text \<open>\<open>ok_or\<close> and \<open>unwrap\<close> of an \<^verbatim>\<open>Option\<close>.\<close>

definition ok_or :: "'e \<Rightarrow> 'a option \<Rightarrow> ('e, 'a) outcome" where
  "ok_or e x = (case x of None \<Rightarrow> Err e | Some a \<Rightarrow> Ok a)"

definition unwrap :: "'a option \<Rightarrow> ('e, 'a) outcome" where
  "unwrap x = (case x of None \<Rightarrow> Panic | Some a \<Rightarrow> Ok a)"

text \<open>\<open>assert!\<close>: a panic when the condition fails.\<close>

definition asserts :: "bool \<Rightarrow> ('e, unit) outcome" where
  "asserts b = (if b then Ok () else Panic)"

text \<open>A guarded statement \<^verbatim>\<open>if b { m }\<close>, and a block of statements run in order.\<close>

definition guarded :: "bool \<Rightarrow> ('e, unit) outcome \<Rightarrow> ('e, unit) outcome" where
  "guarded b m = (if b then m else Ok ())"

primrec checks :: "('e, unit) outcome list \<Rightarrow> ('e, unit) outcome" where
  "checks [] = Ok ()"
| "checks (c # cs) = bindo c (\<lambda>_. checks cs)"

text \<open>A \<^verbatim>\<open>for\<close> loop whose body may return early.\<close>

primrec foldo :: "('a \<Rightarrow> 's \<Rightarrow> ('e, 's) outcome) \<Rightarrow> 'a list \<Rightarrow> 's \<Rightarrow> ('e, 's) outcome" where
  "foldo f [] s = Ok s"
| "foldo f (x # xs) s = bindo (f x s) (foldo f xs)"

named_theorems outcome_simps

lemma bindo_Ok_iff [outcome_simps]:
  "bindo m f = Ok b \<longleftrightarrow> (\<exists>a. m = Ok a \<and> f a = Ok b)"
  by (cases m) auto

lemma bindo_Ok_unit_iff:
  "bindo m f = Ok b \<longleftrightarrow> m = Ok () \<and> f () = Ok b"
  by (cases m) auto

lemma bindo_Err_iff [outcome_simps]:
  "bindo m f = Err e \<longleftrightarrow> m = Err e \<or> (\<exists>a. m = Ok a \<and> f a = Err e)"
  by (cases m) auto

lemma bindo_Panic_iff [outcome_simps]:
  "bindo m f = Panic \<longleftrightarrow> m = Panic \<or> (\<exists>a. m = Ok a \<and> f a = Panic)"
  by (cases m) auto

lemma bindo_assoc: "bindo (bindo m f) g = bindo m (\<lambda>x. bindo (f x) g)"
  by (cases m) auto

lemma bindo_cong [fundef_cong]:
  "m = m' \<Longrightarrow> (\<And>a. m' = Ok a \<Longrightarrow> f a = f' a) \<Longrightarrow> bindo m f = bindo m' f'"
  by (cases m') auto

lemma map_err_Ok_iff [outcome_simps]: "map_err g m = Ok a \<longleftrightarrow> m = Ok a"
  by (cases m) auto

lemma map_err_Err_iff [outcome_simps]: "map_err g m = Err e \<longleftrightarrow> (\<exists>d. m = Err d \<and> e = g d)"
  by (cases m) auto

lemma map_err_Panic_iff [outcome_simps]: "map_err g m = Panic \<longleftrightarrow> m = Panic"
  by (cases m) auto

lemma is_ok_iff [outcome_simps]: "is_ok m \<longleftrightarrow> (\<exists>a. m = Ok a)"
  by (cases m) auto

lemma ok_or_iff [outcome_simps]:
  "ok_or e x = Ok a \<longleftrightarrow> x = Some a"
  "ok_or e x = Err d \<longleftrightarrow> x = None \<and> d = e"
  "ok_or e x \<noteq> Panic"
  by (auto simp: ok_or_def split: option.splits)

lemma unwrap_iff [outcome_simps]:
  "unwrap x = Ok a \<longleftrightarrow> x = Some a"
  "unwrap x \<noteq> Err d"
  "unwrap x = Panic \<longleftrightarrow> x = None"
  by (auto simp: unwrap_def split: option.splits)

lemma asserts_iff [outcome_simps]:
  "asserts b = Ok u \<longleftrightarrow> b"
  "asserts b \<noteq> Err d"
  "asserts b = Panic \<longleftrightarrow> \<not> b"
  by (auto simp: asserts_def)

lemma guarded_iff [outcome_simps]:
  "guarded b m = Ok u \<longleftrightarrow> (b \<longrightarrow> m = Ok u)"
  "guarded b m = Err e \<longleftrightarrow> b \<and> m = Err e"
  "guarded b m = Panic \<longleftrightarrow> b \<and> m = Panic"
  by (auto simp: guarded_def)

lemma checks_Ok_iff: "checks cs = Ok u \<longleftrightarrow> (\<forall>c \<in> set cs. c = Ok ())"
  by (induction cs) (auto simp: bindo_Ok_iff)

text \<open>A block panics exactly when its first statement that does not succeed panics.\<close>

lemma checks_not_Panic: "(\<And>c. c \<in> set cs \<Longrightarrow> c \<noteq> Panic) \<Longrightarrow> checks cs \<noteq> Panic"
  by (induction cs) (auto simp: bindo_Panic_iff)

lemma checks_Err_mem: "checks cs = Err e \<Longrightarrow> Err e \<in> set cs"
  by (induction cs) (auto simp: bindo_Err_iff)

lemma foldo_Ok_Cons [outcome_simps]:
  "foldo f (x # xs) s = Ok t \<longleftrightarrow> (\<exists>r. f x s = Ok r \<and> foldo f xs r = Ok t)"
  by (simp add: bindo_Ok_iff)

lemma foldo_append: "foldo f (xs @ ys) s = bindo (foldo f xs s) (foldo f ys)"
proof (induction xs arbitrary: s)
  case Nil
  then show ?case by simp
next
  case (Cons x xs)
  then have "foldo f (xs @ ys) = (\<lambda>r. bindo (foldo f xs r) (foldo f ys))"
    by blast
  then show ?case by (simp add: bindo_assoc)
qed

text \<open>A loop invariant for \<open>foldo\<close>.\<close>

lemma foldo_invariant:
  assumes "foldo f xs s = Ok t" and "P s"
    and "\<And>x s t. x \<in> set xs \<Longrightarrow> P s \<Longrightarrow> f x s = Ok t \<Longrightarrow> P t"
  shows "P t"
  using assms
proof (induction xs arbitrary: s)
  case Nil
  then show ?case by simp
next
  case (Cons x xs)
  from Cons.prems(1) obtain r where "f x s = Ok r" and r: "foldo f xs r = Ok t"
    by (auto simp: bindo_Ok_iff)
  with Cons.prems have "P r" by auto
  with r show ?case using Cons.IH Cons.prems(3) by (meson list.set_intros(2))
qed

lemma foldo_not_Panic:
  assumes "\<And>x s. x \<in> set xs \<Longrightarrow> f x s \<noteq> Panic"
  shows "foldo f xs s \<noteq> Panic"
  using assms by (induction xs arbitrary: s) (auto simp: bindo_Panic_iff)

section \<open>Checked and saturating arithmetic\<close>

definition checked_add :: "u64 \<Rightarrow> u64 \<Rightarrow> u64 option" where
  "checked_add a b = (if a + b < a then None else Some (a + b))"

definition checked_sub :: "u64 \<Rightarrow> u64 \<Rightarrow> u64 option" where
  "checked_sub a b = (if a < b then None else Some (a - b))"

definition saturating_add :: "u64 \<Rightarrow> u64 \<Rightarrow> u64" where
  "saturating_add a b = (if a + b < a then - 1 else a + b)"

lemma unat_lt_u64: "unat (a :: u64) < 2 ^ 64"
  using unsigned_less [of a] by simp

lemma word_add_overflow_iff:
  fixes a b :: u64
  shows "a + b < a \<longleftrightarrow> 2 ^ 64 \<le> unat a + unat b"
  using unat_lt_u64 [of a] unat_lt_u64 [of b]
  by (simp add: word_less_nat_alt unat_plus_if') linarith

lemma checked_add_Some_iff:
  "checked_add a b = Some c \<longleftrightarrow> unat a + unat b < 2 ^ 64 \<and> c = a + b"
  by (auto simp: checked_add_def word_add_overflow_iff not_less)

lemma checked_add_unat: "checked_add a b = Some c \<Longrightarrow> unat c = unat a + unat b"
  by (auto simp: checked_add_Some_iff unat_word_ariths)

lemma checked_add_None_iff: "checked_add a b = None \<longleftrightarrow> 2 ^ 64 \<le> unat a + unat b"
  by (simp add: checked_add_def word_add_overflow_iff)

lemma checked_sub_Some_iff: "checked_sub a b = Some c \<longleftrightarrow> b \<le> a \<and> c = a - b"
  by (auto simp: checked_sub_def not_less)

lemma checked_sub_unat: "checked_sub a b = Some c \<Longrightarrow> unat a = unat b + unat c"
  by (auto simp: checked_sub_Some_iff unat_sub word_le_nat_alt)

lemma checked_sub_None_iff: "checked_sub a b = None \<longleftrightarrow> a < b"
  by (simp add: checked_sub_def)

lemma unat_max_u64: "unat (- 1 :: u64) = 2 ^ 64 - 1"
  by (simp add: unsigned_minus_1_eq_mask mask_eq_exp_minus_1)

lemma unat_saturating_add:
  "unat (saturating_add a b) = min (unat a + unat b) (2 ^ 64 - 1)"
proof (cases "2 ^ 64 \<le> unat a + unat b")
  case True
  then show ?thesis
    by (simp add: saturating_add_def word_add_overflow_iff unat_max_u64)
next
  case False
  then have "unat (a + b) = unat a + unat b"
    by (simp add: unat_word_ariths)
  with False show ?thesis
    by (simp add: saturating_add_def word_add_overflow_iff)
qed

text \<open>The sum of the iterator \<^verbatim>\<open>sum::<u64>()\<close>, which wraps.\<close>

definition sum_u64 :: "u64 list \<Rightarrow> u64" where
  "sum_u64 xs = sum_list xs"

lemma unat_sum_u64: "unat (sum_u64 xs) = sum_list (map unat xs) mod 2 ^ 64"
proof (induction xs)
  case Nil
  then show ?case by (simp add: sum_u64_def)
next
  case (Cons x xs)
  then show ?case
    by (simp add: sum_u64_def unat_word_ariths mod_simps)
qed

lemma unat_sum_u64_exact:
  "sum_list (map unat xs) < 2 ^ 64 \<Longrightarrow> unat (sum_u64 xs) = sum_list (map unat xs)"
  by (simp add: unat_sum_u64)

section \<open>Maps as association lists\<close>

type_synonym ('k, 'v) amap = "('k \<times> 'v) list"

definition keys_of :: "('k, 'v) amap \<Rightarrow> 'k list" where
  "keys_of m = map fst m"

definition values_of :: "('k, 'v) amap \<Rightarrow> 'v list" where
  "values_of m = map snd m"

definition get_or :: "'v \<Rightarrow> ('k, 'v) amap \<Rightarrow> 'k \<Rightarrow> 'v" where
  "get_or d m k = (case map_of m k of None \<Rightarrow> d | Some v \<Rightarrow> v)"

text \<open>\<^verbatim>\<open>entry(k).or_insert(v)\<close> and \<^verbatim>\<open>entry(k).and_modify(f).or_insert(v)\<close>.\<close>

definition or_insert :: "'k \<Rightarrow> 'v \<Rightarrow> ('k, 'v) amap \<Rightarrow> ('k, 'v) amap" where
  "or_insert k v m = (case map_of m k of None \<Rightarrow> AList.update k v m | Some _ \<Rightarrow> m)"

definition modify_or_insert :: "'k \<Rightarrow> ('v \<Rightarrow> 'v) \<Rightarrow> 'v \<Rightarrow> ('k, 'v) amap \<Rightarrow> ('k, 'v) amap" where
  "modify_or_insert k f v m =
     (case map_of m k of None \<Rightarrow> AList.update k v m | Some x \<Rightarrow> AList.update k (f x) m)"

definition amap_wf :: "('k, 'v) amap \<Rightarrow> bool" where
  "amap_wf m \<longleftrightarrow> distinct (keys_of m)"

named_theorems amap_simps

lemma map_of_update [amap_simps]: "map_of (AList.update k v m) = (map_of m)(k \<mapsto> v)"
  by (rule update_conv')

lemma amap_wf_Nil [simp]: "amap_wf []"
  by (simp add: amap_wf_def keys_of_def)

lemma amap_wf_update [simp, intro]: "amap_wf m \<Longrightarrow> amap_wf (AList.update k v m)"
  by (simp add: amap_wf_def keys_of_def distinct_update)

lemma map_of_or_insert [amap_simps]:
  "map_of (or_insert k v m) = (if k \<in> dom (map_of m) then map_of m else (map_of m)(k \<mapsto> v))"
  by (auto simp: or_insert_def amap_simps split: option.splits)

lemma amap_wf_or_insert [simp, intro]: "amap_wf m \<Longrightarrow> amap_wf (or_insert k v m)"
  by (simp add: or_insert_def split: option.splits)

lemma map_of_modify_or_insert [amap_simps]:
  "map_of (modify_or_insert k f v m) =
     (map_of m)(k \<mapsto> (case map_of m k of None \<Rightarrow> v | Some x \<Rightarrow> f x))"
  by (auto simp: modify_or_insert_def amap_simps split: option.splits)

lemma amap_wf_modify_or_insert [simp, intro]: "amap_wf m \<Longrightarrow> amap_wf (modify_or_insert k f v m)"
  by (simp add: modify_or_insert_def split: option.splits)

lemma keys_of_dom: "set (keys_of m) = dom (map_of m)"
  by (simp add: keys_of_def dom_map_of_conv_image_fst)

lemma get_or_eq [amap_simps]: "map_of m k = Some v \<Longrightarrow> get_or d m k = v"
  "map_of m k = None \<Longrightarrow> get_or d m k = d"
  by (simp_all add: get_or_def)

end
