(* ===== verification/Chacha.thy ===== *)
theory Chacha
  imports VLS_Prelude
begin

text \<open>
  The stream cipher of the storage client, \<^verbatim>\<open>lightning-storage-server/src/chacha20.rs\<close>: the block
  function, the key stream, and the two loops that combine it with a buffer.  The lemmas show that
  the loops end, that they compute the exclusive or of the input with the key stream from the
  current position on, and when the block counter runs out.
\<close>

section \<open>Vectors of four words\<close>

datatype u32x4 = U32x4 u32 u32 u32 u32

fun u32x4_add :: "u32x4 \<Rightarrow> u32x4 \<Rightarrow> u32x4" where
  "u32x4_add (U32x4 a b c d) (U32x4 a' b' c' d') = U32x4 (a + a') (b + b') (c + c') (d + d')"

fun u32x4_sub :: "u32x4 \<Rightarrow> u32x4 \<Rightarrow> u32x4" where
  "u32x4_sub (U32x4 a b c d) (U32x4 a' b' c' d') = U32x4 (a - a') (b - b') (c - c') (d - d')"

fun u32x4_bitxor :: "u32x4 \<Rightarrow> u32x4 \<Rightarrow> u32x4" where
  "u32x4_bitxor (U32x4 a b c d) (U32x4 a' b' c' d') =
     U32x4 (a XOR a') (b XOR b') (c XOR c') (d XOR d')"

fun u32x4_shr :: "u32x4 \<Rightarrow> u32x4 \<Rightarrow> u32x4" where
  "u32x4_shr (U32x4 a b c d) (U32x4 a' b' c' d') =
     U32x4 (drop_bit (unat a') a) (drop_bit (unat b') b) (drop_bit (unat c') c) (drop_bit (unat d') d)"

fun u32x4_shl :: "u32x4 \<Rightarrow> u32x4 \<Rightarrow> u32x4" where
  "u32x4_shl (U32x4 a b c d) (U32x4 a' b' c' d') =
     U32x4 (push_bit (unat a') a) (push_bit (unat b') b) (push_bit (unat c') c) (push_bit (unat d') d)"

definition u32_from_le_bytes :: "bytes \<Rightarrow> u32" where
  "u32_from_le_bytes bs = foldr (\<lambda>b acc. ucast b + 256 * acc) bs 0"

definition u32_to_le_bytes :: "u32 \<Rightarrow> bytes" where
  "u32_to_le_bytes w = [ucast w, ucast (drop_bit 8 w), ucast (drop_bit 16 w), ucast (drop_bit 24 w)]"

definition slice :: "nat \<Rightarrow> nat \<Rightarrow> 'a list \<Rightarrow> 'a list" where
  "slice i j xs = take (j - i) (drop i xs)"

definition u32x4_from_bytes :: "bytes \<Rightarrow> ('e, u32x4) outcome" where
  "u32x4_from_bytes bs =
     bindo (asserts (length bs = 4 * 4)) (\<lambda>_.
     Ok (U32x4 (u32_from_le_bytes (slice 0 4 bs)) (u32_from_le_bytes (slice 4 8 bs))
               (u32_from_le_bytes (slice 8 12 bs)) (u32_from_le_bytes (slice 12 16 bs))))"

section \<open>The cipher\<close>

definition BLOCK_SIZE :: nat where
  "BLOCK_SIZE = 64"

record chacha_state =
  st_a :: u32x4
  st_b :: u32x4
  st_c :: u32x4
  st_d :: u32x4

record chacha20 =
  cc_state :: chacha_state
  cc_output :: bytes
  cc_offset :: nat

text \<open>The macros \<^verbatim>\<open>swizzle!\<close>, \<^verbatim>\<open>state_to_buffer!\<close>, \<^verbatim>\<open>rotate!\<close> and \<^verbatim>\<open>round!\<close>.\<close>

fun swizzle_left1 :: "u32x4 \<Rightarrow> u32x4" where
  "swizzle_left1 (U32x4 b10 b11 b12 b13) = U32x4 b11 b12 b13 b10"

fun swizzle_left2 :: "u32x4 \<Rightarrow> u32x4" where
  "swizzle_left2 (U32x4 c10 c11 c12 c13) = U32x4 c12 c13 c10 c11"

fun swizzle_left3 :: "u32x4 \<Rightarrow> u32x4" where
  "swizzle_left3 (U32x4 d10 d11 d12 d13) = U32x4 d13 d10 d11 d12"

fun u32x4_words :: "u32x4 \<Rightarrow> u32 list" where
  "u32x4_words (U32x4 a b c d) = [a, b, c, d]"

definition state_to_buffer :: "chacha_state \<Rightarrow> bytes" where
  "state_to_buffer s =
     concat (map u32_to_le_bytes
       (u32x4_words (st_a s) @ u32x4_words (st_b s) @ u32x4_words (st_c s) @ u32x4_words (st_d s)))"

definition splat :: "u32 \<Rightarrow> u32x4" where
  "splat n = U32x4 n n n n"

definition chacha_rotate :: "u32x4 \<Rightarrow> u32x4 \<Rightarrow> u32x4 \<Rightarrow> u32x4" where
  "chacha_rotate a b c =
     (let v = u32x4_bitxor a b;
          r = u32x4_sub (splat 32) c;
          right = u32x4_shr v r
      in u32x4_bitxor (u32x4_shl v c) right)"

definition chacha_round :: "chacha_state \<Rightarrow> chacha_state" where
  "chacha_round s =
     (let a = u32x4_add (st_a s) (st_b s);
          d = chacha_rotate (st_d s) a (splat 16);
          c = u32x4_add (st_c s) d;
          b = chacha_rotate (st_b s) c (splat 12);
          a = u32x4_add a b;
          d = chacha_rotate d a (splat 8);
          c = u32x4_add c d;
          b = chacha_rotate b c (splat 7)
      in \<lparr>st_a = a, st_b = b, st_c = c, st_d = d\<rparr>)"

definition double_round :: "chacha_state \<Rightarrow> chacha_state" where
  "double_round s =
     (let s1 = chacha_round s;
          s2 = s1\<lparr>st_b := swizzle_left1 (st_b s1), st_c := swizzle_left2 (st_c s1), st_d := swizzle_left3 (st_d s1)\<rparr>;
          s3 = chacha_round s2
      in s3\<lparr>st_d := swizzle_left1 (st_d s3), st_c := swizzle_left2 (st_c s3), st_b := swizzle_left3 (st_b s3)\<rparr>)"

definition chacha_block :: "chacha_state \<Rightarrow> bytes" where
  "chacha_block s0 =
     (let s = (double_round ^^ 10) s0
      in state_to_buffer
           \<lparr>st_a = u32x4_add (st_a s) (st_a s0), st_b = u32x4_add (st_b s) (st_b s0),
            st_c = u32x4_add (st_c s) (st_c s0), st_d = u32x4_add (st_d s) (st_d s0)\<rparr>)"

text \<open>The constants \<^verbatim>\<open>b"expand 16-byte k"\<close> and \<^verbatim>\<open>b"expand 32-byte k"\<close>.\<close>

definition sigma16 :: bytes where
  "sigma16 = [101, 120, 112, 97, 110, 100, 32, 49, 54, 45, 98, 121, 116, 101, 32, 107]"

definition sigma32 :: bytes where
  "sigma32 = [101, 120, 112, 97, 110, 100, 32, 51, 50, 45, 98, 121, 116, 101, 32, 107]"

definition chacha_expand :: "bytes \<Rightarrow> bytes \<Rightarrow> ('e, chacha_state) outcome" where
  "chacha_expand key nonce =
     bindo (asserts (length key = 16 \<or> length key = 32)) (\<lambda>_.
     bindo (u32x4_from_bytes (if length key = 16 then sigma16 else sigma32)) (\<lambda>a.
     bindo (u32x4_from_bytes (slice 0 16 key)) (\<lambda>b.
     bindo (u32x4_from_bytes (if length key = 16 then slice 0 16 key else slice 16 32 key)) (\<lambda>c.
     bindo (u32x4_from_bytes
              (if length nonce = 16 then nonce
               else if length nonce = 12 then replicate 4 0 @ nonce
               else replicate 8 0 @ nonce)) (\<lambda>d.
     Ok \<lparr>st_a = a, st_b = b, st_c = c, st_d = d\<rparr>)))))"

definition chacha20_new :: "bytes \<Rightarrow> bytes \<Rightarrow> ('e, chacha20) outcome" where
  "chacha20_new key nonce =
     bindo (asserts (length key = 16 \<or> length key = 32)) (\<lambda>_.
     bindo (asserts (length nonce = 8 \<or> length nonce = 12)) (\<lambda>_.
     bindo (chacha_expand key nonce) (\<lambda>s.
     Ok \<lparr>cc_state = s, cc_output = replicate BLOCK_SIZE 0, cc_offset = 64\<rparr>)))"

fun block_counter :: "u32x4 \<Rightarrow> u32" where
  "block_counter (U32x4 c12 _ _ _) = c12"

definition chacha_update :: "chacha20 \<Rightarrow> ('e, chacha20) outcome" where
  "chacha_update cc =
     (let d = u32x4_add (st_d (cc_state cc)) (U32x4 1 0 0 0)
      in bindo (asserts (block_counter d \<noteq> 0)) (\<lambda>_.
         Ok (cc\<lparr>cc_output := chacha_block (cc_state cc), cc_state := (cc_state cc)\<lparr>st_d := d\<rparr>, cc_offset := 0\<rparr>)))"

definition chacha_refill :: "chacha20 \<Rightarrow> ('e, chacha20) outcome" where
  "chacha_refill cc = (if cc_offset cc = BLOCK_SIZE then chacha_update cc else Ok cc)"

lemma chacha_refill_offset: "chacha_refill cc = Ok cc' \<Longrightarrow> cc_offset cc' \<noteq> BLOCK_SIZE"
  by (auto simp: chacha_refill_def chacha_update_def Let_def bindo_Ok_iff BLOCK_SIZE_def split: if_splits)

section \<open>The loops\<close>

text \<open>
  The inner loops.  The subtraction \<^verbatim>\<open>BLOCK_SIZE - self.offset\<close> underflows when the offset is past
  the block; the count is then too large for the assertion on the key stream.
\<close>

definition xor_into :: "bytes \<Rightarrow> nat \<Rightarrow> bytes \<Rightarrow> bytes \<Rightarrow> nat \<Rightarrow> nat \<Rightarrow> bytes" where
  "xor_into out i inp ks off cnt =
     foldl (\<lambda>out j. out[i + j := inp ! (i + j) XOR ks ! (off + j)]) out [0..<cnt]"

definition xor_in_place :: "bytes \<Rightarrow> nat \<Rightarrow> bytes \<Rightarrow> nat \<Rightarrow> nat \<Rightarrow> bytes" where
  "xor_in_place buf i ks off cnt =
     foldl (\<lambda>buf j. buf[i + j := buf ! (i + j) XOR ks ! (off + j)]) buf [0..<cnt]"

lemma length_xor_into [simp]: "length (xor_into out i inp ks off cnt) = length out"
  by (induction cnt) (simp_all add: xor_into_def)

lemma length_xor_in_place [simp]: "length (xor_in_place buf i ks off cnt) = length buf"
  by (induction cnt) (simp_all add: xor_in_place_def)

function process_loop :: "bytes \<Rightarrow> nat \<Rightarrow> chacha20 \<Rightarrow> bytes \<Rightarrow> ('e, chacha20 \<times> bytes) outcome" where
  "process_loop inp i cc out =
     (if i < length inp then
        bindo (chacha_refill cc) (\<lambda>cc.
        bindo (asserts (cc_offset cc \<le> BLOCK_SIZE)) (\<lambda>_.
        let cnt = min (BLOCK_SIZE - cc_offset cc) (length inp - i) in
        bindo (asserts (length out \<ge> i + cnt \<and> length inp \<ge> i + cnt \<and>
                        length (cc_output cc) \<ge> cc_offset cc + cnt)) (\<lambda>_.
        process_loop inp (i + cnt) (cc\<lparr>cc_offset := cc_offset cc + cnt\<rparr>)
          (xor_into out i inp (cc_output cc) (cc_offset cc) cnt))))
      else Ok (cc, out))"
  by pat_completeness auto
termination
  by (relation "measure (\<lambda>(inp, i, cc, out). length inp - i)")
    (auto simp: asserts_iff min_def dest!: chacha_refill_offset)

definition process :: "chacha20 \<Rightarrow> bytes \<Rightarrow> bytes \<Rightarrow> ('e, chacha20 \<times> bytes) outcome" where
  "process cc inp out = bindo (asserts (length inp = length out)) (\<lambda>_. process_loop inp 0 cc out)"

function in_place_loop :: "nat \<Rightarrow> chacha20 \<Rightarrow> bytes \<Rightarrow> ('e, chacha20 \<times> bytes) outcome" where
  "in_place_loop i cc buf =
     (if i < length buf then
        bindo (chacha_refill cc) (\<lambda>cc.
        bindo (asserts (cc_offset cc \<le> BLOCK_SIZE)) (\<lambda>_.
        let cnt = min (BLOCK_SIZE - cc_offset cc) (length buf - i) in
        bindo (asserts (length buf \<ge> i + cnt \<and> length (cc_output cc) \<ge> cc_offset cc + cnt)) (\<lambda>_.
        in_place_loop (i + cnt) (cc\<lparr>cc_offset := cc_offset cc + cnt\<rparr>)
          (xor_in_place buf i (cc_output cc) (cc_offset cc) cnt))))
      else Ok (cc, buf))"
  by pat_completeness auto
termination
  by (relation "measure (\<lambda>(i, cc, buf). length buf - i)")
    (auto simp: asserts_iff min_def dest!: chacha_refill_offset)

definition process_in_place :: "chacha20 \<Rightarrow> bytes \<Rightarrow> ('e, chacha20 \<times> bytes) outcome" where
  "process_in_place cc buf = in_place_loop 0 cc buf"

definition get_single_block :: "bytes \<Rightarrow> bytes \<Rightarrow> ('e, bytes) outcome" where
  "get_single_block key nonce =
     bindo (chacha_expand key nonce) (\<lambda>s.
     bindo (process_in_place \<lparr>cc_state = s, cc_output = replicate BLOCK_SIZE 0, cc_offset = 64\<rparr> (replicate 32 0)) (\<lambda>(_, bs).
     Ok bs))"

declare process_loop.simps [simp del] in_place_loop.simps [simp del]

lemma xor_into_nth:
  assumes "k < length out"
  shows "xor_into out i inp ks off n ! k =
    (if i \<le> k \<and> k < i + n then inp ! k XOR ks ! (off + (k - i)) else out ! k)"
proof (induction n)
  case (Suc n)
  with assms show ?case
    using length_xor_into [of out i inp ks off n] unfolding xor_into_def
    by (auto simp: nth_list_update less_Suc_eq)
qed (auto simp: xor_into_def)

lemma xor_in_place_into: "xor_in_place buf i ks off n = xor_into buf i buf ks off n"
proof (induction n)
  case (Suc n)
  have "xor_into buf i buf ks off n ! (i + n) = buf ! (i + n)" if "i + n < length buf"
    using xor_into_nth [OF that] by simp
  then have "(xor_into buf i buf ks off n)[i + n := xor_into buf i buf ks off n ! (i + n) XOR ks ! (off + n)] =
      (xor_into buf i buf ks off n)[i + n := buf ! (i + n) XOR ks ! (off + n)]"
    by (cases "i + n < length buf") (simp_all add: list_update_beyond)
  with Suc show ?case by (simp add: xor_in_place_def xor_into_def)
qed (simp add: xor_in_place_def xor_into_def)

text \<open>Working in place is reading from a copy of the buffer.\<close>

lemma xor_into_cong:
  assumes "drop i inp = drop i inp'" and "i + n \<le> length inp" and "length inp = length inp'"
  shows "xor_into out i inp ks off n = xor_into out i inp' ks off n"
  unfolding xor_into_def
proof (rule foldl_cong)
  fix j out
  assume "j \<in> set [0..<n]"
  then have "drop i inp ! j = inp ! (i + j)" "drop i inp' ! j = inp' ! (i + j)"
    using assms(2,3) by (simp_all only: nth_drop)
  with assms(1) show "out[i + j := inp ! (i + j) XOR ks ! (off + j)] = out[i + j := inp' ! (i + j) XOR ks ! (off + j)]"
    by simp
qed simp_all

lemma drop_xor_into: "i + n \<le> k \<Longrightarrow> drop k (xor_into out i inp ks off n) = drop k out"
  by (intro nth_equalityI) (auto simp: xor_into_nth)

lemma in_place_loop_eq:
  assumes "length buf = length inp" and "drop i buf = drop i inp"
  shows "in_place_loop i cc buf = (process_loop inp i cc buf :: ('e, _) outcome)"
  using assms
proof (induction "length buf - i" arbitrary: i cc buf rule: less_induct)
  case less
  show ?case
  proof (cases "i < length buf")
    case True
    have "in_place_loop (i + n) c (xor_in_place buf i ks off n) =
        (process_loop inp (i + n) c (xor_into buf i inp ks off n) :: ('e, _) outcome)"
      if "0 < n" "n \<le> length buf - i" for n c ks off
    proof -
      have "drop (i + n) (xor_in_place buf i ks off n) = drop (i + n) inp"
        using arg_cong [OF less.prems(2), of "drop n"] by (simp add: xor_in_place_into drop_xor_into add.commute)
      with less.hyps [of "xor_in_place buf i ks off n" "i + n" c] that True less.prems(1)
      show ?thesis
        using xor_into_cong [OF less.prems(2), of n buf ks off] by (simp add: xor_in_place_into)
    qed
    then have *: "in_place_loop (i + n) c (xor_in_place buf i ks off n) =
        (process_loop inp (i + n) c (xor_into buf i inp ks off n) :: ('e, _) outcome)"
      if "chacha_refill cc = (Ok c' :: ('e, _) outcome)" "cc_offset c' \<le> BLOCK_SIZE"
        "n = min (BLOCK_SIZE - cc_offset c') (length inp - i)" for n c c' ks off
      using that chacha_refill_offset [OF that(1)] True less.prems(1) by (auto simp: min_def)
    show ?thesis
      using True less.prems(1)
      by (subst in_place_loop.simps, subst process_loop.simps)
        (auto simp: Let_def asserts_iff intro!: bindo_cong intro: * [OF _ _ refl])
  qed (use less.prems in \<open>simp add: in_place_loop.simps process_loop.simps\<close>)
qed

section \<open>The key stream\<close>

text \<open>
  Byte \<open>k\<close> of the stream comes from the block with the counter moved on by \<open>k div 64\<close>.  \<open>at_pos\<close>
  says that a cipher started in \<open>st\<close> has handed out \<open>p\<close> bytes; \<open>in_range\<close> that the counter does
  not run out before byte \<open>p\<close>.
\<close>

definition add_counter :: "chacha_state \<Rightarrow> nat \<Rightarrow> chacha_state" where
  "add_counter st n = st\<lparr>st_d := u32x4_add (st_d st) (U32x4 (of_nat n) 0 0 0)\<rparr>"

definition key_stream :: "chacha_state \<Rightarrow> nat \<Rightarrow> u8" where
  "key_stream st k = chacha_block (add_counter st (k div BLOCK_SIZE)) ! (k mod BLOCK_SIZE)"

definition in_range :: "chacha_state \<Rightarrow> nat \<Rightarrow> bool" where
  "in_range st p \<longleftrightarrow> unat (block_counter (st_d st)) + (p + 63) div 64 < 2 ^ 32"

definition at_block :: "chacha_state \<Rightarrow> chacha20 \<Rightarrow> nat \<Rightarrow> bool" where
  "at_block st cc n \<longleftrightarrow>
     cc_offset cc \<le> 64 \<and> length (cc_output cc) = 64 \<and> cc_state cc = add_counter st n \<and>
     unat (block_counter (st_d st)) + n < 2 ^ 32 \<and>
     (n > 0 \<longrightarrow> cc_output cc = chacha_block (add_counter st (n - 1)))"

definition at_pos :: "chacha_state \<Rightarrow> chacha20 \<Rightarrow> nat \<Rightarrow> bool" where
  "at_pos st cc p \<longleftrightarrow> (\<exists>n. at_block st cc n \<and> p + 64 = 64 * n + cc_offset cc)"

lemma length_chacha_block [simp]: "length (chacha_block s) = 64"
proof -
  have "length (u32x4_words v) = 4" for v by (cases v) simp
  moreover have "length (concat (map u32_to_le_bytes ws)) = 4 * length ws" for ws
    by (induction ws) (simp_all add: u32_to_le_bytes_def)
  ultimately show ?thesis by (simp add: chacha_block_def Let_def state_to_buffer_def del: map_append concat_append)
qed

lemma add_counter_Suc:
  "(add_counter st n)\<lparr>st_d := u32x4_add (st_d (add_counter st n)) (U32x4 1 0 0 0)\<rparr> = add_counter st (Suc n)"
  by (cases "st_d st") (simp add: add_counter_def algebra_simps)

lemma add_counter_0 [simp]: "add_counter st 0 = st"
  by (cases st; cases "st_d st") (simp add: add_counter_def)

lemma counter_not_exhausted:
  assumes "unat (block_counter (st_d st)) + Suc n < 2 ^ 32"
  shows "block_counter (u32x4_add (st_d (add_counter st n)) (U32x4 1 0 0 0)) \<noteq> 0"
proof -
  obtain a b c d where d: "st_d st = U32x4 a b c d" by (cases "st_d st")
  with assms have "unat (a + of_nat (Suc n)) = unat a + Suc n"
    by (simp add: unat_word_ariths unat_of_nat mod_simps)
  then have "a + of_nat (Suc n) \<noteq> 0" by (metis add_is_0 nat.distinct(1) unat_0)
  then show ?thesis by (simp add: add_counter_def d algebra_simps)
qed

lemma refill_at_pos:
  assumes "at_pos st cc p" and "in_range st (Suc p)"
  shows "\<exists>cc'. chacha_refill cc = Ok cc' \<and> at_pos st cc' p \<and> cc_offset cc' < 64"
proof (cases "cc_offset cc = 64")
  case True
  from assms(1) obtain n where n: "at_block st cc n" "p = 64 * n" by (auto simp: at_pos_def True)
  let ?cc = "cc\<lparr>cc_output := chacha_block (cc_state cc), cc_state := add_counter st (Suc n), cc_offset := 0\<rparr>"
  have c: "unat (block_counter (st_d st)) + Suc n < 2 ^ 32"
    using assms(2) n(2) by (simp add: in_range_def)
  have "chacha_refill cc = Ok ?cc"
    using n(1) True counter_not_exhausted [OF c]
    by (simp add: chacha_refill_def chacha_update_def Let_def asserts_def BLOCK_SIZE_def at_block_def add_counter_Suc)
  moreover have "at_block st ?cc (Suc n)" using n(1) c by (simp add: at_block_def)
  then have "at_pos st ?cc p" using n(2) unfolding at_pos_def by (intro exI [of _ "Suc n"]) simp
  ultimately show ?thesis by (intro exI [of _ ?cc]) simp
next
  case False
  with assms(1) show ?thesis
    by (intro exI [of _ cc]) (auto simp: chacha_refill_def BLOCK_SIZE_def at_pos_def at_block_def)
qed

lemma at_pos_output:
  assumes "at_pos st cc p" and "cc_offset cc < 64" and "j < 64 - cc_offset cc"
  shows "cc_output cc ! (cc_offset cc + j) = key_stream st (p + j)"
proof -
  obtain n where n: "at_block st cc n" "p + 64 = 64 * n + cc_offset cc" using assms(1) by (auto simp: at_pos_def)
  with assms(2) obtain m where m: "n = Suc m" by (cases n) auto
  have p: "p + j = 64 * m + (cc_offset cc + j)" and lt: "cc_offset cc + j < 64"
    using n(2) assms(3) m by auto
  have "(p + j) div 64 = m" "(p + j) mod 64 = cc_offset cc + j"
    unfolding p using lt by simp_all
  with n(1) m show ?thesis by (simp add: key_stream_def BLOCK_SIZE_def at_block_def)
qed

lemma at_pos_advance:
  assumes "at_pos st cc p" and "n \<le> 64 - cc_offset cc"
  shows "at_pos st (cc\<lparr>cc_offset := cc_offset cc + n\<rparr>) (p + n)"
proof -
  obtain b where "at_block st cc b" "p + 64 = 64 * b + cc_offset cc" using assms(1) by (auto simp: at_pos_def)
  with assms(2) show ?thesis unfolding at_pos_def by (intro exI [of _ b]) (auto simp: at_block_def)
qed

lemma in_range_mono: "in_range st q \<Longrightarrow> p \<le> q \<Longrightarrow> in_range st p"
  unfolding in_range_def by (meson add_le_mono div_le_mono le_less_trans order_refl)

section \<open>What the loops compute\<close>

definition xored :: "chacha_state \<Rightarrow> nat \<Rightarrow> bytes \<Rightarrow> bytes" where
  "xored st p inp = map (\<lambda>k. inp ! k XOR key_stream st (p + k)) [0..<length inp]"

lemma length_xored [simp]: "length (xored st p inp) = length inp"
  by (simp add: xored_def)

lemma xored_nth [simp]: "k < length inp \<Longrightarrow> xored st p inp ! k = inp ! k XOR key_stream st (p + k)"
  by (simp add: xored_def)

lemma xored_twice [simp]: "xored st p (xored st p inp) = inp"
  by (rule nth_equalityI) (simp_all add: xor.assoc)

lemma xored_append: "xored st p (a @ b) = xored st p a @ xored st (p + length a) b"
  by (rule nth_equalityI) (auto simp: nth_append add.assoc)

lemma process_loop_spec:
  assumes "at_pos st cc (p + i)" and "in_range st (p + length inp)" and "i \<le> length inp"
    and "length out = length inp"
  shows "\<exists>cc'. process_loop inp i cc out =
           (Ok (cc', take i out @ drop i (xored st p inp)) :: ('e, _) outcome) \<and> at_pos st cc' (p + length inp)"
  using assms
proof (induction "length inp - i" arbitrary: i cc out rule: less_induct)
  case less
  show ?case
  proof (cases "i < length inp")
    case True
    have "in_range st (Suc (p + i))" using in_range_mono [OF less.prems(2)] True by simp
    from refill_at_pos [OF less.prems(1) this] obtain c where
      c: "chacha_refill cc = (Ok c :: ('e, _) outcome)" "at_pos st c (p + i)" "cc_offset c < 64" by blast
    define n where "n = min (64 - cc_offset c) (length inp - i)"
    have n: "0 < n" "n \<le> 64 - cc_offset c" "i + n \<le> length inp" using c(3) True by (auto simp: n_def)
    let ?c = "c\<lparr>cc_offset := cc_offset c + n\<rparr>"
    let ?out = "xor_into out i inp (cc_output c) (cc_offset c) n"
    have out: "take (i + n) ?out @ drop (i + n) (xored st p inp) = take i out @ drop i (xored st p inp)"
    proof (rule nth_equalityI)
      fix k
      assume "k < length (take (i + n) ?out @ drop (i + n) (xored st p inp))"
      with n(3) less.prems(4) have k: "k < length inp" by simp
      show "(take (i + n) ?out @ drop (i + n) (xored st p inp)) ! k = (take i out @ drop i (xored st p inp)) ! k"
        using n k less.prems(4) at_pos_output [OF c(2,3), of "k - i"]
        by (auto simp: nth_append xor_into_nth add.assoc)
    qed (use n less.prems(4) in simp)
    have "process_loop inp i cc out = (process_loop inp (i + n) ?c ?out :: ('e, _) outcome)"
      using True c n less.prems(4)
      by (subst process_loop.simps)
        (auto simp: Let_def asserts_def BLOCK_SIZE_def n_def [symmetric] at_pos_def at_block_def)
    moreover have "at_pos st ?c (p + (i + n))"
      using at_pos_advance [OF c(2) n(2)] by (simp add: add.assoc)
    ultimately show ?thesis
      using less.hyps [of "i + n" ?c ?out] n less.prems(2,4) out by simp
  qed (use less.prems in \<open>auto simp: process_loop.simps\<close>)
qed

lemma process_spec:
  assumes "at_pos st cc p" and "in_range st (p + length inp)" and "length out = length inp"
  shows "\<exists>cc'. process cc inp out = (Ok (cc', xored st p inp) :: ('e, _) outcome) \<and> at_pos st cc' (p + length inp)"
  using process_loop_spec [of st cc p 0 inp out, where ?'e = 'e] assms by (simp add: process_def asserts_def)

lemma process_in_place_spec:
  assumes "at_pos st cc p" and "in_range st (p + length buf)"
  shows "\<exists>cc'. process_in_place cc buf = (Ok (cc', xored st p buf) :: ('e, _) outcome) \<and>
           at_pos st cc' (p + length buf)"
  using process_loop_spec [of st cc p 0 buf buf, where ?'e = 'e] assms
  by (simp add: process_in_place_def in_place_loop_eq)

text \<open>A fresh cipher with an 8 or 12 byte nonce starts with the counter at zero.\<close>

lemma u32_from_le_bytes_zero: "u32_from_le_bytes (replicate n 0) = 0"
  by (induction n) (simp_all add: u32_from_le_bytes_def)

definition words_of :: "bytes \<Rightarrow> u32x4" where
  "words_of bs = U32x4 (u32_from_le_bytes (slice 0 4 bs)) (u32_from_le_bytes (slice 4 8 bs))
     (u32_from_le_bytes (slice 8 12 bs)) (u32_from_le_bytes (slice 12 16 bs))"

lemma from_bytes_Ok: "length bs = 16 \<Longrightarrow> u32x4_from_bytes bs = Ok (words_of bs)"
  by (simp add: u32x4_from_bytes_def asserts_def words_of_def)

text \<open>The state that a valid key and nonce start with.\<close>

definition start_state :: "bytes \<Rightarrow> bytes \<Rightarrow> chacha_state" where
  "start_state key nonce =
     \<lparr>st_a = words_of (if length key = 16 then sigma16 else sigma32),
      st_b = words_of (slice 0 16 key),
      st_c = words_of (if length key = 16 then slice 0 16 key else slice 16 32 key),
      st_d = words_of (if length nonce = 12 then replicate 4 0 @ nonce else replicate 8 0 @ nonce)\<rparr>"

lemma chacha_expand_Ok:
  assumes "length key \<in> {16, 32}" and "length nonce \<in> {8, 12}"
  shows "chacha_expand key nonce = (Ok (start_state key nonce) :: ('e, _) outcome)"
proof -
  have "length (if length key = 16 then sigma16 else sigma32) = 16" "length (slice 0 16 key) = 16"
    "length (if length key = 16 then slice 0 16 key else slice 16 32 key) = 16"
    "length (if length nonce = 12 then replicate 4 0 @ nonce else replicate 8 0 @ nonce) = 16"
    "length nonce \<noteq> 16"
    using assms by (auto simp: slice_def sigma16_def sigma32_def)
  then show ?thesis
    using assms(1) by (auto simp: chacha_expand_def start_state_def asserts_def from_bytes_Ok)
qed

lemma start_state_counter:
  assumes "length nonce \<in> {8, 12}"
  shows "block_counter (st_d (start_state key nonce)) = 0"
proof -
  have "slice 0 4 (if length nonce = 12 then replicate 4 0 @ nonce else replicate 8 0 @ nonce) = replicate 4 (0 :: u8)"
    using assms by (auto simp: slice_def)
  then show ?thesis
    by (simp only: start_state_def chacha_state.select_convs words_of_def block_counter.simps u32_from_le_bytes_zero)
qed

definition fresh_cipher :: "bytes \<Rightarrow> bytes \<Rightarrow> chacha20" where
  "fresh_cipher key nonce = \<lparr>cc_state = start_state key nonce, cc_output = replicate BLOCK_SIZE 0, cc_offset = 64\<rparr>"

lemma chacha20_new_Ok:
  assumes "length key \<in> {16, 32}" and "length nonce \<in> {8, 12}"
  shows "chacha20_new key nonce = (Ok (fresh_cipher key nonce) :: ('e, _) outcome)"
  using assms chacha_expand_Ok [OF assms, where ?'e = 'e] by (auto simp: chacha20_new_def asserts_def fresh_cipher_def)

lemma at_pos_fresh:
  assumes "length nonce \<in> {8, 12}"
  shows "at_pos (start_state key nonce) (fresh_cipher key nonce) 0"
  unfolding at_pos_def
  using start_state_counter [OF assms]
  by (intro exI [of _ 0]) (simp add: at_block_def fresh_cipher_def BLOCK_SIZE_def)

lemma in_range_fresh: "block_counter (st_d st) = 0 \<Longrightarrow> p \<le> 64 * (2 ^ 32 - 1) \<Longrightarrow> in_range st p"
proof -
  assume "block_counter (st_d st) = 0" and p: "p \<le> 64 * (2 ^ 32 - 1)"
  moreover have "(p + 63) div 64 \<le> 2 ^ 32 - 1" using div_le_mono [of "p + 63" "64 * (2 ^ 32 - 1) + 63" 64] p by simp
  ultimately show ?thesis by (simp add: in_range_def)
qed

text \<open>
  C0: The loops of the cipher end and compute one key stream.  For every key of 16 or 32 bytes and
  nonce of 8 or 12 bytes, a fresh cipher processes any two buffers in a row, the first into another
  buffer and the second in place, without a panic and without looping, as long as they have at
  most \<open>64 * (2 ^ 32 - 1)\<close> bytes together.  The results are the exclusive or of the inputs with
  consecutive parts of the key stream: how the data is cut into calls does not matter.
\<close>

theorem process_computes_stream:
  assumes "length key \<in> {16, 32}" and "length nonce \<in> {8, 12}"
    and "length a + length b \<le> 64 * (2 ^ 32 - 1)" and "length out = length a"
  shows "\<exists>st cc cc1 cc2. chacha_expand key nonce = (Ok st :: ('e, _) outcome) \<and>
           chacha20_new key nonce = (Ok cc :: ('e, _) outcome) \<and>
           process cc a out = (Ok (cc1, take (length a) (xored st 0 (a @ b))) :: ('e, _) outcome) \<and>
           process_in_place cc1 b = (Ok (cc2, drop (length a) (xored st 0 (a @ b))) :: ('e, _) outcome)"
proof -
  let ?st = "start_state key nonce" and ?cc = "fresh_cipher key nonce"
  have r: "in_range ?st (0 + length a)" "in_range ?st (length a + length b)"
    using in_range_fresh [OF start_state_counter [OF assms(2)]] assms(3) by simp_all
  obtain cc1 where cc1: "process ?cc a out = (Ok (cc1, xored ?st 0 a) :: ('e, _) outcome)" "at_pos ?st cc1 (length a)"
    using process_spec [OF at_pos_fresh [OF assms(2)] r(1) assms(4), where ?'e = 'e] by auto
  obtain cc2 where "process_in_place cc1 b = (Ok (cc2, xored ?st (length a) b) :: ('e, _) outcome)"
    using process_in_place_spec [OF cc1(2) r(2), where ?'e = 'e] by auto
  with cc1(1) show ?thesis
    using chacha_expand_Ok [OF assms(1,2), where ?'e = 'e] chacha20_new_Ok [OF assms(1,2), where ?'e = 'e]
    by (auto simp: xored_append)
qed

theorem process_computes_stream_witness:
  "\<exists>st cc cc1 cc2. chacha_expand (replicate 32 0) (replicate 12 0) = (Ok st :: (unit, _) outcome) \<and>
     chacha20_new (replicate 32 0) (replicate 12 0) = (Ok cc :: (unit, _) outcome) \<and>
     process cc (replicate 70 1) (replicate 70 0) =
       (Ok (cc1, take 70 (xored st 0 (replicate 70 1 @ replicate 5 2))) :: (unit, _) outcome) \<and>
     process_in_place cc1 (replicate 5 2) =
       (Ok (cc2, drop 70 (xored st 0 (replicate 70 1 @ replicate 5 2))) :: (unit, _) outcome)"
  using process_computes_stream [of "replicate 32 0" "replicate 12 0" "replicate 70 1" "replicate 5 2"
      "replicate 70 0", where ?'e = unit] by simp

end
