(* ===== verification/Storage.thy ===== *)
theory Storage
  imports Chacha
begin

text \<open>
  The Lightning Storage Server, \<^verbatim>\<open>lightning-storage-server/src\<close>: what a client does with a value
  before it leaves (\<^verbatim>\<open>util.rs\<close>), the two databases with versioned values (\<^verbatim>\<open>database/sled.rs\<close> and
  \<^verbatim>\<open>database/postgres.rs\<close>), the handlers of the server (\<^verbatim>\<open>server/mod.rs\<close>) and the client
  (\<^verbatim>\<open>client/driver.rs\<close>, \<^verbatim>\<open>client/auth.rs\<close>).  Strings are their bytes.  A transaction of a database is
  one step; network errors and errors inside the database engines are not modelled.  The lemmas
  show that updates are never lost, that a client reads back what it wrote, and how a conflict is
  reported.
\<close>

section \<open>Values and their protection\<close>

type_synonym i64 = "64 word"

record svalue =
  sv_version :: i64
  sv_value :: bytes

type_synonym kvs = "(bytes \<times> svalue) list"

text \<open>Hashes, encodings and elliptic curve operations of other crates.\<close>

record store_lib =
  sl_hmac :: "bytes \<Rightarrow> bytes \<Rightarrow> bytes"
  sl_sha256 :: "bytes \<Rightarrow> bytes"
  sl_hex :: "bytes \<Rightarrow> bytes"
  sl_to_cbor :: "svalue \<Rightarrow> bytes"
  sl_from_cbor :: "bytes \<Rightarrow> svalue option"
  sl_ecdh :: "bytes \<Rightarrow> bytes \<Rightarrow> bytes"
  sl_public_key :: "bytes \<Rightarrow> bytes"
  sl_parse_pubkey :: "bytes \<Rightarrow> bytes option"

definition i64_to_be_bytes :: "i64 \<Rightarrow> bytes" where
  "i64_to_be_bytes v = map (\<lambda>i. ucast (drop_bit (56 - 8 * i) v)) [0..<8]"

text \<open>The bytes that \<^verbatim>\<open>add_to_hmac\<close> feeds to the engine.\<close>

definition add_to_hmac :: "bytes \<Rightarrow> i64 \<Rightarrow> bytes \<Rightarrow> bytes" where
  "add_to_hmac key version val = key @ i64_to_be_bytes version @ val"

definition compute_hmac :: "store_lib \<Rightarrow> bytes \<Rightarrow> bytes \<Rightarrow> i64 \<Rightarrow> bytes \<Rightarrow> bytes" where
  "compute_hmac S secret key version val = sl_hmac S secret (add_to_hmac key version val)"

definition append_hmac_to_value :: "store_lib \<Rightarrow> bytes \<Rightarrow> bytes \<Rightarrow> i64 \<Rightarrow> bytes \<Rightarrow> bytes" where
  "append_hmac_to_value S secret key version val = val @ compute_hmac S secret key version val"

definition crypt_value :: "store_lib \<Rightarrow> bytes \<Rightarrow> bytes \<Rightarrow> i64 \<Rightarrow> bytes \<Rightarrow> ('e, bytes) outcome" where
  "crypt_value S secret key version val =
     (let hash = sl_sha256 S (key @ i64_to_be_bytes version);
          nonce = slice 0 12 hash
      in bindo (chacha20_new secret nonce) (\<lambda>chacha.
         bindo (process_in_place chacha val) (\<lambda>(_, out). Ok out)))"

text \<open>\<open>crypt\<close> says whether the feature \<^verbatim>\<open>crypt\<close> is on.\<close>

definition prepare_value_for_put :: "store_lib \<Rightarrow> bool \<Rightarrow> bytes \<Rightarrow> bytes \<Rightarrow> svalue \<Rightarrow> ('e, svalue) outcome" where
  "prepare_value_for_put S crypt secret key v =
     (let val = append_hmac_to_value S secret key (sv_version v) (sv_value v)
      in bindo (if crypt then crypt_value S secret key (sv_version v) val else Ok val) (\<lambda>val.
         Ok (v\<lparr>sv_value := val\<rparr>)))"

definition remove_and_check_hmac :: "store_lib \<Rightarrow> bytes \<Rightarrow> bytes \<Rightarrow> i64 \<Rightarrow> bytes \<Rightarrow> (unit, bytes) outcome" where
  "remove_and_check_hmac S secret key version val =
     (if length val < 32 then Err ()
      else
        let expected_hmac = drop (length val - 32) val;
            val = take (length val - 32) val;
            hmac = compute_hmac S secret key version val
        in if hmac = expected_hmac then Ok val else Err ())"

definition process_value_from_get :: "store_lib \<Rightarrow> bool \<Rightarrow> bytes \<Rightarrow> bytes \<Rightarrow> svalue \<Rightarrow> (unit, svalue) outcome" where
  "process_value_from_get S crypt secret key v =
     bindo (if crypt then crypt_value S secret key (sv_version v) (sv_value v) else Ok (sv_value v)) (\<lambda>val.
     bindo (remove_and_check_hmac S secret key (sv_version v) val) (\<lambda>val.
     Ok (v\<lparr>sv_value := val\<rparr>)))"

definition compute_shared_hmac :: "store_lib \<Rightarrow> bytes \<Rightarrow> bytes \<Rightarrow> kvs \<Rightarrow> bytes" where
  "compute_shared_hmac S secret nonce kvs =
     sl_hmac S secret (secret @ nonce @
       concat (map (\<lambda>(key, v). add_to_hmac key (sv_version v) (sv_value v)) kvs))"

section \<open>The databases\<close>

datatype db_error = DbConflict "(bytes \<times> svalue option) list"

definition next_version :: "svalue option \<Rightarrow> i64" where
  "next_version existing = (case existing of None \<Rightarrow> 0 | Some v \<Rightarrow> sv_version v + 1)"

subsection \<open>Sled\<close>

text \<open>One tree from full keys (client id in hex, a slash, the key) to encoded values.\<close>

type_synonym sled_db = "(bytes, bytes) amap"

definition sled_key :: "store_lib \<Rightarrow> bytes \<Rightarrow> bytes \<Rightarrow> bytes" where
  "sled_key S client_id key_suffix = sl_hex S client_id @ [47] @ key_suffix"

definition sled_existing :: "store_lib \<Rightarrow> bytes \<Rightarrow> sled_db \<Rightarrow> bytes \<Rightarrow> ('e, svalue option) outcome" where
  "sled_existing S client_id db key_suffix =
     (case map_of db (sled_key S client_id key_suffix) of
        None \<Rightarrow> Ok None
      | Some res \<Rightarrow> bindo (unwrap (sl_from_cbor S res)) (\<lambda>v. Ok (Some v)))"

definition sled_conflicts ::
    "store_lib \<Rightarrow> bytes \<Rightarrow> kvs \<Rightarrow> sled_db \<Rightarrow> ('e, (bytes \<times> svalue option) list) outcome" where
  "sled_conflicts S client_id kvs db =
     foldo (\<lambda>(key_suffix, v) conflicts.
              bindo (sled_existing S client_id db key_suffix) (\<lambda>existing.
              Ok (if sv_version v \<noteq> next_version existing then conflicts @ [(key_suffix, existing)] else conflicts)))
       kvs []"

definition sled_put :: "store_lib \<Rightarrow> bytes \<Rightarrow> kvs \<Rightarrow> sled_db \<Rightarrow> (db_error, sled_db) outcome" where
  "sled_put S client_id kvs db =
     bindo (sled_conflicts S client_id kvs db) (\<lambda>conflicts.
     if conflicts \<noteq> [] then Err (DbConflict conflicts)
     else Ok (foldl (\<lambda>db (key_suffix, v). AList.update (sled_key S client_id key_suffix) (sl_to_cbor S v) db) db kvs))"

definition starts_with :: "bytes \<Rightarrow> bytes \<Rightarrow> bool" where
  "starts_with pre s \<longleftrightarrow> take (length pre) s = pre"

definition sled_get_with_prefix :: "store_lib \<Rightarrow> bytes \<Rightarrow> bytes \<Rightarrow> sled_db \<Rightarrow> (db_error, kvs) outcome" where
  "sled_get_with_prefix S client_id key_prefix db =
     foldo (\<lambda>(key, val) res.
              bindo (unwrap (sl_from_cbor S val)) (\<lambda>v.
              Ok (res @ [(drop (length client_id * 2 + 1) key, v)])))
       (sort_key fst (filter (\<lambda>(key, _). starts_with (sled_key S client_id key_prefix) key) db)) []"

subsection \<open>PostgreSQL\<close>

text \<open>
  The table \<^verbatim>\<open>data\<close> with its primary key.  The two statements return whether they changed a row;
  they run in order in one transaction, which is rolled back when one of them did not.  The
  range error of \<^verbatim>\<open>$3 - 1\<close> for the least version of all is left out: versions start at zero.
\<close>

type_synonym pg_db = "(bytes \<times> bytes, svalue) amap"

definition pg_insert :: "bytes \<Rightarrow> bytes \<Rightarrow> bytes \<Rightarrow> pg_db \<Rightarrow> bool \<times> pg_db" where
  "pg_insert client_id key val db =
     (if map_of db (client_id, key) = None
      then (True, AList.update (client_id, key) \<lparr>sv_version = 0, sv_value = val\<rparr> db) else (False, db))"

definition pg_update :: "bytes \<Rightarrow> bytes \<Rightarrow> i64 \<Rightarrow> bytes \<Rightarrow> pg_db \<Rightarrow> bool \<times> pg_db" where
  "pg_update client_id key version val db =
     (case map_of db (client_id, key) of
        Some row \<Rightarrow>
          if sv_version row = version - 1
          then (True, AList.update (client_id, key) \<lparr>sv_version = version, sv_value = val\<rparr> db) else (False, db)
      | None \<Rightarrow> (False, db))"

definition pg_query :: "bytes \<Rightarrow> bytes \<times> svalue \<Rightarrow> pg_db \<Rightarrow> bool \<times> pg_db" where
  "pg_query client_id kv db =
     (let (key, v) = kv in
      if sv_version v = 0 then pg_insert client_id key (sv_value v) db
      else pg_update client_id key (sv_version v) (sv_value v) db)"

primrec pg_queries :: "bytes \<Rightarrow> kvs \<Rightarrow> pg_db \<Rightarrow> (bytes \<times> svalue option) list \<times> pg_db" where
  "pg_queries client_id [] db = ([], db)"
| "pg_queries client_id (kv # kvs) db =
     (let (ok, db1) = pg_query client_id kv db;
          (conflicts, db2) = pg_queries client_id kvs db1
      in (if ok then conflicts else (fst kv, None) # conflicts, db2))"

definition pg_put :: "bytes \<Rightarrow> kvs \<Rightarrow> pg_db \<Rightarrow> (db_error, pg_db) outcome" where
  "pg_put client_id kvs db =
     (let (conflicts, db') = pg_queries client_id kvs db
      in if conflicts \<noteq> [] then Err (DbConflict conflicts) else Ok db')"

text \<open>
  \<^verbatim>\<open>LIKE\<close> of SQL: \<^verbatim>\<open>%\<close> stands for any string, \<^verbatim>\<open>_\<close> for any character, and a backslash quotes
  the next character.
\<close>

fun sql_like :: "bytes \<Rightarrow> bytes \<Rightarrow> bool" where
  "sql_like [] s \<longleftrightarrow> s = []"
| "sql_like (p # ps) [] \<longleftrightarrow> p = 37 \<and> sql_like ps []"
| "sql_like (p # ps) (c # s) \<longleftrightarrow>
     (if p = 37 then sql_like ps (c # s) \<or> sql_like (p # ps) s
      else if p = 95 then sql_like ps s
      else if p = 92 then (case ps of [] \<Rightarrow> False | q # qs \<Rightarrow> q = c \<and> sql_like qs s)
      else p = c \<and> sql_like ps s)"

definition pg_get_with_prefix :: "bytes \<Rightarrow> bytes \<Rightarrow> pg_db \<Rightarrow> (db_error, kvs) outcome" where
  "pg_get_with_prefix client_id key_prefix db =
     Ok (map (\<lambda>((_, key), v). (key, v))
          (sort_key (\<lambda>((_, key), _). key)
             (filter (\<lambda>((client, key), _). client = client_id \<and> sql_like (key_prefix @ [37]) key) db)))"

subsection \<open>The trait \<^verbatim>\<open>Database\<close>\<close>

datatype database = SledDatabase sled_db | PostgresDatabase pg_db

fun db_put :: "store_lib \<Rightarrow> bytes \<Rightarrow> kvs \<Rightarrow> database \<Rightarrow> (db_error, database) outcome" where
  "db_put S client_id kvs (SledDatabase db) = bindo (sled_put S client_id kvs db) (\<lambda>d. Ok (SledDatabase d))"
| "db_put S client_id kvs (PostgresDatabase db) = bindo (pg_put client_id kvs db) (\<lambda>d. Ok (PostgresDatabase d))"

fun get_with_prefix :: "store_lib \<Rightarrow> bytes \<Rightarrow> bytes \<Rightarrow> database \<Rightarrow> (db_error, kvs) outcome" where
  "get_with_prefix S client_id key_prefix (SledDatabase db) = sled_get_with_prefix S client_id key_prefix db"
| "get_with_prefix S client_id key_prefix (PostgresDatabase db) = pg_get_with_prefix client_id key_prefix db"

section \<open>The server\<close>

text \<open>A status of the RPC layer, and the messages.\<close>

datatype rpc_status = Unauthenticated string | RpcInvalidArgument string | RpcInternal string

record auth_proto =
  ap_client_id :: bytes
  ap_token :: bytes

record put_reply =
  pr_success :: bool
  pr_hmac :: bytes
  pr_conflicts :: kvs

record priv_auth =
  pa_client_id :: bytes
  pa_shared_secret :: bytes

definition new_for_client :: "store_lib \<Rightarrow> bytes \<Rightarrow> bytes \<Rightarrow> priv_auth" where
  "new_for_client S client_key server_id =
     \<lparr>pa_client_id = sl_public_key S client_key, pa_shared_secret = sl_ecdh S server_id client_key\<rparr>"

definition new_for_server :: "store_lib \<Rightarrow> bytes \<Rightarrow> bytes \<Rightarrow> priv_auth" where
  "new_for_server S server_key client_id =
     \<lparr>pa_client_id = client_id, pa_shared_secret = sl_ecdh S client_id server_key\<rparr>"

definition auth_token :: "store_lib \<Rightarrow> priv_auth \<Rightarrow> bytes" where
  "auth_token S a = sl_sha256 S (pa_shared_secret a)"

text \<open>A conflict as a message: a missing value has version \<^verbatim>\<open>-1\<close> and no bytes.\<close>

definition conflict_to_proto :: "bytes \<times> svalue option \<Rightarrow> bytes \<times> svalue" where
  "conflict_to_proto kv =
     (fst kv, case snd kv of None \<Rightarrow> \<lparr>sv_version = - 1, sv_value = []\<rparr> | Some v \<Rightarrow> v)"

definition check_auth :: "store_lib \<Rightarrow> bytes \<Rightarrow> auth_proto \<Rightarrow> (rpc_status, priv_auth) outcome" where
  "check_auth S server_key ap =
     bindo (ok_or (Unauthenticated ''invalid client id'') (sl_parse_pubkey S (ap_client_id ap))) (\<lambda>client_id.
     let auth = new_for_server S server_key client_id in
     if ap_token ap \<noteq> auth_token S auth then Err (RpcInvalidArgument ''invalid auth token'') else Ok auth)"

fun keys_unsorted :: "kvs \<Rightarrow> bool" where
  "keys_unsorted ((k1, _) # (k2, v2) # kvs) \<longleftrightarrow> k1 > k2 \<or> keys_unsorted ((k2, v2) # kvs)"
| "keys_unsorted _ \<longleftrightarrow> False"

definition server_get ::
    "store_lib \<Rightarrow> bytes \<Rightarrow> database \<Rightarrow> auth_proto option \<Rightarrow> bytes \<Rightarrow> bytes \<Rightarrow> (rpc_status, kvs \<times> bytes) outcome" where
  "server_get S server_key db auth_opt key_prefix nonce =
     bindo (ok_or (RpcInvalidArgument ''missing auth'') auth_opt) (\<lambda>ap.
     bindo (check_auth S server_key ap) (\<lambda>auth.
     case get_with_prefix S (ap_client_id ap) key_prefix db of
       Ok kvs \<Rightarrow> Ok (kvs, compute_shared_hmac S (pa_shared_secret auth) nonce kvs)
     | Err (DbConflict _) \<Rightarrow> Panic
     | Panic \<Rightarrow> Panic))"

definition server_put ::
    "store_lib \<Rightarrow> bytes \<Rightarrow> auth_proto option \<Rightarrow> kvs \<Rightarrow> bytes \<Rightarrow> database \<Rightarrow>
     (rpc_status, put_reply) outcome \<times> database" where
  "server_put S server_key auth_opt kvs hmac db =
     (case bindo (ok_or (RpcInvalidArgument ''missing auth'') auth_opt) (\<lambda>ap.
           bindo (guarded (keys_unsorted kvs) (Err (RpcInvalidArgument ''keys are not sorted''))) (\<lambda>_.
           bindo (check_auth S server_key ap) (\<lambda>auth.
           bindo (guarded (compute_shared_hmac S (pa_shared_secret auth) [1] kvs \<noteq> hmac)
                    (Err (RpcInvalidArgument ''invalid client HMAC''))) (\<lambda>_.
           Ok (ap_client_id ap, auth))))) of
        Err e \<Rightarrow> (Err e, db)
      | Panic \<Rightarrow> (Panic, db)
      | Ok (client_id, auth) \<Rightarrow>
          (case db_put S client_id kvs db of
             Ok db' \<Rightarrow> (Ok \<lparr>pr_success = True, pr_hmac = compute_shared_hmac S (pa_shared_secret auth) [2] kvs,
                            pr_conflicts = []\<rparr>, db')
           | Err (DbConflict conflicts) \<Rightarrow>
               (Ok \<lparr>pr_success = False, pr_hmac = [], pr_conflicts = map conflict_to_proto conflicts\<rparr>, db)
           | Panic \<Rightarrow> (Panic, db)))"

section \<open>The client\<close>

datatype client_error =
    Tonic rpc_status
  | InvalidHmac bytes i64
  | InvalidServerHmac
  | PutConflict kvs

text \<open>A loop that processes the values in place and stops at the first error.\<close>

definition map_values :: "(bytes \<Rightarrow> svalue \<Rightarrow> ('e, svalue) outcome) \<Rightarrow> kvs \<Rightarrow> ('e, kvs) outcome" where
  "map_values f kvs = foldo (\<lambda>(k, v) acc. bindo (f k v) (\<lambda>v'. Ok (acc @ [(k, v')]))) kvs []"

definition remove_and_check_hmacs :: "store_lib \<Rightarrow> bool \<Rightarrow> bytes \<Rightarrow> kvs \<Rightarrow> (client_error, kvs) outcome" where
  "remove_and_check_hmacs S crypt hmac_secret kvs =
     map_values (\<lambda>key v. map_err (\<lambda>_. InvalidHmac key (sv_version v))
                           (process_value_from_get S crypt hmac_secret key v)) kvs"

definition make_auth_proto :: "store_lib \<Rightarrow> priv_auth \<Rightarrow> auth_proto option" where
  "make_auth_proto S auth = Some \<lparr>ap_client_id = pa_client_id auth, ap_token = auth_token S auth\<rparr>"

text \<open>
  \<^verbatim>\<open>PrivClient::get\<close> and \<^verbatim>\<open>PrivClient::put\<close> talking to a server with the key \<open>server_key\<close>; the
  random nonce is an argument.
\<close>

definition client_get ::
    "store_lib \<Rightarrow> bool \<Rightarrow> priv_auth \<Rightarrow> bytes \<Rightarrow> bytes \<Rightarrow> bytes \<Rightarrow> bytes \<Rightarrow> database \<Rightarrow> (client_error, kvs) outcome" where
  "client_get S crypt auth server_key hmac_secret key_prefix nonce db =
     bindo (map_err Tonic (server_get S server_key db (make_auth_proto S auth) key_prefix nonce)) (\<lambda>(kvs, received_hmac).
     let hmac = compute_shared_hmac S (pa_shared_secret auth) nonce kvs in
     if received_hmac \<noteq> hmac then Err InvalidServerHmac
     else remove_and_check_hmacs S crypt hmac_secret kvs)"

definition client_put ::
    "store_lib \<Rightarrow> bool \<Rightarrow> priv_auth \<Rightarrow> bytes \<Rightarrow> bytes \<Rightarrow> kvs \<Rightarrow> database \<Rightarrow>
     (client_error, unit) outcome \<times> database" where
  "client_put S crypt auth server_key hmac_secret kvs db =
     (case map_values (prepare_value_for_put S crypt hmac_secret) (sort_key fst kvs) of
        Err e \<Rightarrow> (Err e, db)
      | Panic \<Rightarrow> (Panic, db)
      | Ok kvs \<Rightarrow>
          (let client_hmac = compute_shared_hmac S (pa_shared_secret auth) [1] kvs;
               server_hmac = compute_shared_hmac S (pa_shared_secret auth) [2] kvs
           in case server_put S server_key (make_auth_proto S auth) kvs client_hmac db of
                (Ok reply, db') \<Rightarrow>
                  (if pr_success reply then
                     (if pr_hmac reply = server_hmac then Ok () else Err InvalidServerHmac, db')
                   else
                     (bindo (remove_and_check_hmacs S crypt hmac_secret (pr_conflicts reply)) (\<lambda>conflicts.
                      Err (PutConflict conflicts)), db'))
              | (Err e, db') \<Rightarrow> (Err (Tonic e), db')
              | (Panic, db') \<Rightarrow> (Panic, db')))"

section \<open>Versions\<close>

text \<open>
  What the libraries promise: the length of hashes, an injective hexadecimal encoding without a
  slash, a codec that reads back what it wrote, a symmetric key agreement, and public keys that
  parse.
\<close>

definition hex_ok :: "store_lib \<Rightarrow> bool" where
  "hex_ok S \<longleftrightarrow> inj (sl_hex S) \<and> (\<forall>c. 47 \<notin> set (sl_hex S c) \<and> length (sl_hex S c) = 2 * length c)"

definition cbor_ok :: "store_lib \<Rightarrow> bool" where
  "cbor_ok S \<longleftrightarrow> (\<forall>v. sl_from_cbor S (sl_to_cbor S v) = Some v)"

definition hash_ok :: "store_lib \<Rightarrow> bool" where
  "hash_ok S \<longleftrightarrow> (\<forall>k m. length (sl_hmac S k m) = 32) \<and> (\<forall>m. length (sl_sha256 S m) = 32)"

definition keys_ok :: "store_lib \<Rightarrow> bool" where
  "keys_ok S \<longleftrightarrow>
     (\<forall>a b. sl_ecdh S (sl_public_key S a) b = sl_ecdh S (sl_public_key S b) a) \<and>
     (\<forall>a. sl_parse_pubkey S (sl_public_key S a) = Some (sl_public_key S a))"

text \<open>
  A database with versions: what a successful put stores and which versions it accepts.  The
  client's view is \<open>look\<close>, the value of a key.
\<close>

locale versioned_store =
  fixes put :: "bytes \<Rightarrow> kvs \<Rightarrow> 'db \<Rightarrow> (db_error, 'db) outcome"
    and look :: "'db \<Rightarrow> bytes \<Rightarrow> bytes \<Rightarrow> svalue option"
    and ok :: "'db \<Rightarrow> bool"
  assumes put_ok: "ok db \<Longrightarrow> distinct (map fst kvs) \<Longrightarrow> put c kvs db = Ok db' \<Longrightarrow> ok db'"
    and put_look: "ok db \<Longrightarrow> distinct (map fst kvs) \<Longrightarrow> put c kvs db = Ok db' \<Longrightarrow>
      look db' c' k = (if c' = c \<and> k \<in> fst ` set kvs then map_of kvs k else look db c' k)"
    and put_next: "ok db \<Longrightarrow> distinct (map fst kvs) \<Longrightarrow> put c kvs db = Ok db' \<Longrightarrow> (k, v) \<in> set kvs \<Longrightarrow>
      sv_version v = next_version (look db c k)"
    and put_accepts: "ok db \<Longrightarrow> distinct (map fst kvs) \<Longrightarrow>
      \<forall>(k, v) \<in> set kvs. sv_version v = next_version (look db c k) \<and> (look db c k \<noteq> None \<longrightarrow> sv_version v \<noteq> 0) \<Longrightarrow>
      \<exists>db'. put c kvs db = Ok db'"

text \<open>
  Puts of several clients in the order in which the database runs them; the accepted ones are
  collected.  \<open>writes\<close> lists what was accepted for one key.
\<close>

fun put_run ::
    "(bytes \<Rightarrow> kvs \<Rightarrow> 'db \<Rightarrow> (db_error, 'db) outcome) \<Rightarrow> (bytes \<times> kvs) list \<Rightarrow> 'db \<Rightarrow> (bytes \<times> kvs) list \<times> 'db" where
  "put_run put [] db = ([], db)"
| "put_run put ((c, kvs) # ps) db =
     (case put c kvs db of
        Ok db1 \<Rightarrow> (let (acc, db2) = put_run put ps db1 in ((c, kvs) # acc, db2))
      | _ \<Rightarrow> put_run put ps db)"

definition writes :: "bytes \<Rightarrow> bytes \<Rightarrow> (bytes \<times> kvs) list \<Rightarrow> svalue list" where
  "writes c k acc = concat (map (\<lambda>(c', kvs). if c' = c then (case map_of kvs k of None \<Rightarrow> [] | Some v \<Rightarrow> [v]) else []) acc)"

lemma writes_simps [simp]:
  "writes c k [] = []"
  "writes c k ((c', kvs) # acc) =
     (if c' = c then (case map_of kvs k of None \<Rightarrow> [] | Some v \<Rightarrow> [v]) else []) @ writes c k acc"
  by (simp_all add: writes_def)

text \<open>The versions that follow a value, one after the other.\<close>

fun chained :: "svalue option \<Rightarrow> svalue list \<Rightarrow> bool" where
  "chained prev [] \<longleftrightarrow> True"
| "chained prev (v # vs) \<longleftrightarrow> sv_version v = next_version prev \<and> chained (Some v) vs"

context versioned_store
begin

lemma run_chained:
  assumes "ok db" and "\<forall>(c, kvs) \<in> set ps. distinct (map fst kvs)" and "put_run put ps db = (acc, db')"
  shows "ok db' \<and> chained (look db c k) (writes c k acc) \<and>
         look db' c k = (if writes c k acc = [] then look db c k else Some (last (writes c k acc)))"
  using assms
proof (induction ps arbitrary: db acc)
  case (Cons p ps)
  obtain c0 kvs where p: "p = (c0, kvs)" by (cases p)
  show ?case
  proof (cases "put c0 kvs db")
    case (Ok db1)
    obtain acc1 where run: "put_run put ps db1 = (acc1, db')" and acc: "acc = (c0, kvs) # acc1"
      using Cons.prems(3) by (auto simp: p Ok split: prod.splits)
    have d: "distinct (map fst kvs)" using Cons.prems(2) by (simp add: p)
    note IH = Cons.IH [OF put_ok [OF Cons.prems(1) d Ok] _ run]
    show ?thesis
    proof (cases "c0 = c \<and> k \<in> fst ` set kvs")
      case True
      then obtain v where v: "map_of kvs k = Some v" by (metis map_of_eq_None_iff not_None_eq)
      from put_next [OF Cons.prems(1) d Ok map_of_SomeD [OF v]] put_look [OF Cons.prems(1) d Ok, of c k]
      show ?thesis using IH Cons.prems(2) True v by (auto simp: acc)
    next
      case False
      then have w: "(if c0 = c then (case map_of kvs k of None \<Rightarrow> [] | Some v \<Rightarrow> [v]) else []) = []"
        by (cases "c0 = c") (auto simp: map_of_eq_None_iff [THEN iffD2])
      from put_look [OF Cons.prems(1) d Ok, of c k] False have "look db1 c k = look db c k" by auto
      with IH Cons.prems(2) w show ?thesis by (auto simp: acc)
    qed
  qed (use Cons in \<open>simp_all add: p\<close>)
qed simp

end

subsection \<open>Sled keeps the promise\<close>

definition sled_look :: "store_lib \<Rightarrow> sled_db \<Rightarrow> bytes \<Rightarrow> bytes \<Rightarrow> svalue option" where
  "sled_look S db client_id key = Option.bind (map_of db (sled_key S client_id key)) (sl_from_cbor S)"

definition sled_ok :: "store_lib \<Rightarrow> sled_db \<Rightarrow> bool" where
  "sled_ok S db \<longleftrightarrow> hex_ok S \<and> cbor_ok S \<and> (\<forall>x \<in> snd ` set db. sl_from_cbor S x \<noteq> None)"

lemma append_slash_eq:
  "a @ 47 # k = b @ 47 # k' \<Longrightarrow> 47 \<notin> set a \<Longrightarrow> 47 \<notin> set b \<Longrightarrow> a = b \<and> k = (k' :: bytes)"
proof (induction a arbitrary: b)
  case Nil
  then show ?case by (cases b) auto
next
  case (Cons x a)
  then show ?case by (cases b) auto
qed

lemma sled_key_eq_iff:
  assumes "hex_ok S"
  shows "sled_key S c k = sled_key S c' k' \<longleftrightarrow> c = c' \<and> k = k'"
proof
  assume "sled_key S c k = sled_key S c' k'"
  then have "sl_hex S c = sl_hex S c' \<and> k = k'"
    using assms by (intro append_slash_eq) (simp_all add: sled_key_def hex_ok_def)
  with assms show "c = c' \<and> k = k'" by (auto simp: hex_ok_def dest: injD)
qed simp

lemma sled_existing_look:
  assumes "sled_ok S db"
  shows "sled_existing S c db k = Ok (sled_look S db c k)"
proof (cases "map_of db (sled_key S c k)")
  case (Some x)
  then have "x \<in> snd ` set db" by (force dest: map_of_SomeD)
  with assms Some show ?thesis by (auto simp: sled_existing_def sled_look_def sled_ok_def unwrap_def)
qed (simp add: sled_existing_def sled_look_def)

lemma sled_conflicts_eq:
  assumes "sled_ok S db"
  shows "sled_conflicts S c kvs db = (Ok (map (\<lambda>(k, v). (k, sled_look S db c k))
    (filter (\<lambda>(k, v). sv_version v \<noteq> next_version (sled_look S db c k)) kvs)) :: ('e, _) outcome)"
proof -
  have "foldo (\<lambda>(k, v) conflicts. bindo (sled_existing S c db k) (\<lambda>existing.
            Ok (if sv_version v \<noteq> next_version existing then conflicts @ [(k, existing)] else conflicts))) kvs acc =
      (Ok (acc @ map (\<lambda>(k, v). (k, sled_look S db c k))
            (filter (\<lambda>(k, v). sv_version v \<noteq> next_version (sled_look S db c k)) kvs)) :: ('e, _) outcome)" for acc
    by (induction kvs arbitrary: acc) (auto simp: sled_existing_look [OF assms])
  then show ?thesis by (simp add: sled_conflicts_def)
qed

lemma map_of_puts:
  assumes "\<And>k k'. f k = f k' \<longleftrightarrow> k = k'" and "distinct (map fst kvs)"
  shows "map_of (foldl (\<lambda>db (k, v). AList.update (f k) (g v) db) db kvs) x =
    (if \<exists>k \<in> fst ` set kvs. x = f k then map_option g (map_of kvs (THE k. x = f k)) else map_of db x)"
  using assms(2)
proof (induction kvs arbitrary: db)
  case (Cons kv kvs)
  obtain k v where kv: "kv = (k, v)" by (cases kv)
  have the: "(THE k'. f k'' = f k') = k''" for k'' using assms(1) by auto
  show ?case
    using Cons.IH [of "AList.update (f k) (g v) db"] Cons.prems
    by (auto simp: kv the assms(1) amap_simps image_iff)
qed simp

lemma map_of_puts_key:
  assumes "\<And>k k'. f k = f k' \<longleftrightarrow> k = k'" and "distinct (map fst kvs)"
  shows "map_of (foldl (\<lambda>db (k, v). AList.update (f k) (g v) db) db kvs) (f k) =
    (if k \<in> fst ` set kvs then map_option g (map_of kvs k) else map_of db (f k))"
  using map_of_puts [OF assms, of g db "f k"] assms(1) by auto

lemma update_values: "snd ` set (AList.update k x db) \<subseteq> insert x (snd ` set db)"
  by (induction db) auto

lemma puts_values:
  "snd ` set (foldl (\<lambda>db (k, v). AList.update (f k) (g v) db) db kvs) \<subseteq> snd ` set db \<union> range g"
proof (induction kvs arbitrary: db)
  case (Cons kv kvs)
  obtain k v where kv: "kv = (k, v)" by (cases kv)
  have "snd ` set (AList.update (f k) (g v) db) \<union> range g \<subseteq> snd ` set db \<union> range g"
    using update_values [of "f k" "g v" db] by blast
  with Cons.IH [of "AList.update (f k) (g v) db"] show ?case unfolding kv by (simp, blast)
qed simp

lemma sled_put_Ok_iff:
  assumes "sled_ok S db"
  shows "sled_put S c kvs db = Ok db' \<longleftrightarrow>
    (\<forall>(k, v) \<in> set kvs. sv_version v = next_version (sled_look S db c k)) \<and>
    db' = foldl (\<lambda>db (k, v). AList.update (sled_key S c k) (sl_to_cbor S v) db) db kvs"
  by (auto simp: sled_put_def sled_conflicts_eq [OF assms] filter_empty_conv)

lemma sled_puts_ok:
  assumes "sled_ok S db"
  shows "sled_ok S (foldl (\<lambda>db (k, v). AList.update (sled_key S c k) (sl_to_cbor S v) db) db kvs)"
    (is "sled_ok S ?db'")
  unfolding sled_ok_def
proof (intro conjI ballI)
  fix x
  assume "x \<in> snd ` set ?db'"
  then have "x \<in> snd ` set db \<union> range (sl_to_cbor S)"
    using puts_values [of "sled_key S c" "sl_to_cbor S" db kvs] by blast
  with assms show "sl_from_cbor S x \<noteq> None" by (auto simp: sled_ok_def cbor_ok_def)
qed (use assms in \<open>simp_all add: sled_ok_def\<close>)

lemma sled_puts_look:
  assumes "sled_ok S db" and d: "distinct (map fst kvs)"
  shows "sled_look S (foldl (\<lambda>db (k, v). AList.update (sled_key S c k) (sl_to_cbor S v) db) db kvs) c' k =
    (if c' = c \<and> k \<in> fst ` set kvs then map_of kvs k else sled_look S db c' k)"
proof -
  have h: "hex_ok S" and cb: "cbor_ok S" using assms(1) by (auto simp: sled_ok_def)
  have key: "sled_key S c k = sled_key S c k' \<longleftrightarrow> k = k'" for c k k'
    by (simp add: sled_key_eq_iff [OF h])
  show ?thesis
  proof (cases "c' = c")
    case True
    have "Option.bind (map_option (sl_to_cbor S) (map_of kvs k)) (sl_from_cbor S) = map_of kvs k"
      using cb by (cases "map_of kvs k") (auto simp: cbor_ok_def)
    with True show ?thesis unfolding sled_look_def by (simp add: map_of_puts_key [OF key d])
  next
    case False
    then have "\<not> (\<exists>k' \<in> fst ` set kvs. sled_key S c' k = sled_key S c k')"
      by (simp add: sled_key_eq_iff [OF h])
    with False show ?thesis unfolding sled_look_def by (simp add: map_of_puts [OF key d])
  qed
qed

interpretation sled: versioned_store "sled_put S" "sled_look S" "sled_ok S" for S
  by unfold_locales (auto simp: sled_put_Ok_iff sled_puts_ok sled_puts_look)

subsection \<open>PostgreSQL keeps the promise\<close>

definition pg_look :: "pg_db \<Rightarrow> bytes \<Rightarrow> bytes \<Rightarrow> svalue option" where
  "pg_look db client_id key = map_of db (client_id, key)"

lemma svalue_eta [simp]: "sv_version v = n \<Longrightarrow> \<lparr>sv_version = n, sv_value = sv_value v\<rparr> = v"
  by (cases v) simp

lemma pg_query_True:
  assumes "pg_query c (k, v) db = (True, db')"
  shows "db' = AList.update (c, k) v db \<and> sv_version v = next_version (pg_look db c k)"
  using assms by (auto simp: pg_query_def pg_insert_def pg_update_def pg_look_def next_version_def
      split: if_splits option.splits)

lemma pg_query_accepts:
  assumes "sv_version v = next_version (pg_look db c k)" and "pg_look db c k \<noteq> None \<longrightarrow> sv_version v \<noteq> 0"
  shows "pg_query c (k, v) db = (True, AList.update (c, k) v db)"
  using assms by (auto simp: pg_query_def pg_insert_def pg_update_def pg_look_def next_version_def split: option.splits)

lemma pg_look_update: "pg_look (AList.update (c, k) v db) c' k' = (if c' = c \<and> k' = k then Some v else pg_look db c' k')"
  by (simp add: pg_look_def amap_simps)

lemma pg_queries_Nil_iff:
  assumes "distinct (map fst kvs)"
  shows "pg_queries c kvs db = ([], db') \<Longrightarrow>
    db' = foldl (\<lambda>db (k, v). AList.update (c, k) v db) db kvs \<and>
    (\<forall>(k, v) \<in> set kvs. sv_version v = next_version (pg_look db c k))"
  using assms
proof (induction kvs arbitrary: db)
  case (Cons kv kvs)
  obtain k v where kv: "kv = (k, v)" by (cases kv)
  from Cons.prems(1) have q: "pg_query c (k, v) db = (True, AList.update (c, k) v db)"
      "sv_version v = next_version (pg_look db c k)"
    using pg_query_True [of c k v db] by (auto simp: kv Let_def split: prod.splits if_splits)
  with Cons.prems(1) have "pg_queries c kvs (AList.update (c, k) v db) = ([], db')"
    by (auto simp: kv Let_def split: prod.splits)
  from Cons.IH [OF this] Cons.prems(2) have IH: "db' = foldl (\<lambda>db (k, v). AList.update (c, k) v db) db (kv # kvs)"
      "\<forall>(k', v') \<in> set kvs. sv_version v' = next_version (pg_look (AList.update (c, k) v db) c k')"
    by (simp_all add: kv)
  have "sv_version v' = next_version (pg_look db c k')" if "(k', v') \<in> set kvs" for k' v'
    using that IH(2) Cons.prems(2) by (force simp: kv pg_look_update)
  with IH(1) q(2) show ?case by (auto simp: kv)
qed simp

lemma pg_queries_accepts:
  assumes "distinct (map fst kvs)"
    and "\<forall>(k, v) \<in> set kvs. sv_version v = next_version (pg_look db c k) \<and> (pg_look db c k \<noteq> None \<longrightarrow> sv_version v \<noteq> 0)"
  shows "fst (pg_queries c kvs db) = []"
  using assms
proof (induction kvs arbitrary: db)
  case (Cons kv kvs)
  obtain k v where kv: "kv = (k, v)" by (cases kv)
  have q: "pg_query c (k, v) db = (True, AList.update (c, k) v db)"
    using Cons.prems(2) by (intro pg_query_accepts) (auto simp: kv)
  have look: "pg_look (AList.update (c, k) v db) c k' = pg_look db c k'" if "(k', v') \<in> set kvs" for k' v'
    using that Cons.prems(1) by (force simp: kv pg_look_update)
  have "fst (pg_queries c kvs (AList.update (c, k) v db)) = []"
    using Cons.prems by (intro Cons.IH) (auto simp: kv look)
  with q show ?case by (simp add: kv case_prod_beta)
qed simp

lemma pg_puts_look:
  assumes "distinct (map fst kvs)"
  shows "pg_look (foldl (\<lambda>db (k, v). AList.update (c, k) v db) db kvs) c' k =
    (if c' = c \<and> k \<in> fst ` set kvs then map_of kvs k else pg_look db c' k)"
  using assms
proof (induction kvs arbitrary: db)
  case (Cons kv kvs)
  obtain k0 v where kv: "kv = (k0, v)" by (cases kv)
  with Cons.IH [of "AList.update (c, k0) v db"] Cons.prems show ?case
    by (auto simp: pg_look_update)
qed simp

lemma pg_put_Ok:
  assumes "distinct (map fst kvs)" and "pg_put c kvs db = Ok db'"
  shows "db' = foldl (\<lambda>db (k, v). AList.update (c, k) v db) db kvs \<and>
    (\<forall>(k, v) \<in> set kvs. sv_version v = next_version (pg_look db c k))"
  using assms(2) by (intro pg_queries_Nil_iff [OF assms(1)]) (auto simp: pg_put_def split: prod.splits if_splits)

interpretation pg: versioned_store pg_put pg_look "\<lambda>_. True"
proof
  fix db db' :: pg_db and kvs :: kvs and c c' k :: bytes and v :: svalue
  assume d: "distinct (map fst kvs)"
  show "\<exists>db'. pg_put c kvs db = Ok db'"
    if "\<forall>(k, v) \<in> set kvs. sv_version v = next_version (pg_look db c k) \<and> (pg_look db c k \<noteq> None \<longrightarrow> sv_version v \<noteq> 0)"
    using pg_queries_accepts [OF d that] by (simp add: pg_put_def case_prod_beta)
  assume put: "pg_put c kvs db = Ok db'"
  note spec = pg_put_Ok [OF d put]
  show "pg_look db' c' k = (if c' = c \<and> k \<in> fst ` set kvs then map_of kvs k else pg_look db c' k)"
    by (simp add: conjunct1 [OF spec] pg_puts_look [OF d])
  show "sv_version v = next_version (pg_look db c k)" if "(k, v) \<in> set kvs"
    using conjunct2 [OF spec] that by auto
qed simp

subsection \<open>The trait\<close>

fun db_look :: "store_lib \<Rightarrow> database \<Rightarrow> bytes \<Rightarrow> bytes \<Rightarrow> svalue option" where
  "db_look S (SledDatabase db) c k = sled_look S db c k"
| "db_look S (PostgresDatabase db) c k = pg_look db c k"

fun db_ok :: "store_lib \<Rightarrow> database \<Rightarrow> bool" where
  "db_ok S (SledDatabase db) \<longleftrightarrow> sled_ok S db"
| "db_ok S (PostgresDatabase db) \<longleftrightarrow> True"

interpretation db: versioned_store "db_put S" "db_look S" "db_ok S" for S
proof
  fix db db' :: database and kvs :: kvs and c c' k :: bytes and v :: svalue
  assume ok: "db_ok S db" and d: "distinct (map fst kvs)"
  show "\<exists>db'. db_put S c kvs db = Ok db'"
    if "\<forall>(k, v) \<in> set kvs. sv_version v = next_version (db_look S db c k) \<and> (db_look S db c k \<noteq> None \<longrightarrow> sv_version v \<noteq> 0)"
    using that ok sled.put_accepts [OF _ d] pg.put_accepts [OF _ d]
    by (cases db) (fastforce simp: bindo_Ok_iff)+
  assume put: "db_put S c kvs db = Ok db'"
  show "db_ok S db'" using ok put d sled.put_ok by (cases db) (auto simp: bindo_Ok_iff)
  show "db_look S db' c' k = (if c' = c \<and> k \<in> fst ` set kvs then map_of kvs k else db_look S db c' k)"
    using ok put sled.put_look [OF _ d] pg.put_look [OF _ d]
    by (cases db) (auto simp: bindo_Ok_iff split del: if_split cong: if_cong)
  show "sv_version v = next_version (db_look S db c k)" if "(k, v) \<in> set kvs"
    using ok put sled.put_next [OF _ d _ that] pg.put_next [OF _ d _ that] by (cases db) (auto simp: bindo_Ok_iff)
qed

lemma chained_versions:
  "chained prev vs \<Longrightarrow> map sv_version vs = map (\<lambda>i. next_version prev + of_nat i) [0..<length vs]"
proof (induction vs arbitrary: prev)
  case (Cons v vs)
  then have "map sv_version vs = map (\<lambda>i. next_version prev + of_nat (Suc i)) [0..<length vs]"
    by (auto simp: next_version_def algebra_simps)
  with Cons.prems show ?case
    by (simp add: upt_conv_Cons map_Suc_upt [symmetric] del: upt_Suc)
qed simp

text \<open>
  C36: No update is lost.  Starting from an empty database of either kind, let any number of clients
  put batches of values (a key occurs once in a batch) in any order.  For every key the accepted
  values have the versions 0, 1, 2 and so on, each exactly once, and the database holds the last
  one: two clients that write from the same state cannot both succeed.
\<close>

theorem accepted_versions_sequential:
  assumes "hex_ok S" and "cbor_ok S" and "db \<in> {SledDatabase [], PostgresDatabase []}"
    and "\<forall>(c, kvs) \<in> set ps. distinct (map fst kvs)" and "put_run (db_put S) ps db = (acc, db')"
  shows "map sv_version (writes c k acc) = map of_nat [0..<length (writes c k acc)] \<and>
         db_look S db' c k = (if writes c k acc = [] then None else Some (last (writes c k acc)))"
proof -
  have "db_ok S db" "db_look S db c k = None"
    using assms(1-3) by (auto simp: sled_ok_def sled_look_def pg_look_def)
  with db.run_chained [OF _ assms(4,5), of c k] have "chained None (writes c k acc)"
    "db_look S db' c k = (if writes c k acc = [] then None else Some (last (writes c k acc)))"
    by auto
  with chained_versions [OF this(1)] show ?thesis by (simp add: next_version_def)
qed

section \<open>From the client to the database and back\<close>

definition max_stream :: nat where
  "max_stream = 64 * (2 ^ 32 - 1)"

lemma length_slice_prefix: "n \<le> length xs \<Longrightarrow> length (slice 0 n xs) = n"
  by (simp add: slice_def)

text \<open>For one key and version there is one key stream, so encrypting twice is the identity.\<close>

definition value_state :: "store_lib \<Rightarrow> bytes \<Rightarrow> bytes \<Rightarrow> i64 \<Rightarrow> chacha_state" where
  "value_state S secret key version = start_state secret (slice 0 12 (sl_sha256 S (key @ i64_to_be_bytes version)))"

lemma crypt_value_stream:
  assumes "hash_ok S" and "length secret \<in> {16, 32}" and "length val \<le> max_stream"
  shows "crypt_value S secret key version val = (Ok (xored (value_state S secret key version) 0 val) :: ('e, _) outcome)"
proof -
  let ?nonce = "slice 0 12 (sl_sha256 S (key @ i64_to_be_bytes version))"
  have n: "length ?nonce \<in> {8, 12}" using assms(1) by (simp add: hash_ok_def length_slice_prefix)
  from in_range_fresh [OF start_state_counter [OF n]] assms(3)
  have "in_range (start_state secret ?nonce) (0 + length val)" by (simp add: max_stream_def)
  from process_in_place_spec [OF at_pos_fresh [OF n] this] obtain cc' where
    "process_in_place (fresh_cipher secret ?nonce) val = (Ok (cc', xored (start_state secret ?nonce) 0 val) :: ('e, _) outcome)"
    by blast
  with chacha20_new_Ok [OF assms(2) n, where ?'e = 'e] show ?thesis
    by (simp add: crypt_value_def value_state_def Let_def)
qed

lemma remove_appended:
  assumes "hash_ok S"
  shows "remove_and_check_hmac S secret key version (append_hmac_to_value S secret key version val) = Ok val"
  using assms by (simp add: remove_and_check_hmac_def append_hmac_to_value_def compute_hmac_def hash_ok_def)

lemma length_append_hmac: "hash_ok S \<Longrightarrow> length (append_hmac_to_value S secret key version val) = length val + 32"
  by (simp add: append_hmac_to_value_def compute_hmac_def hash_ok_def)

definition prepared :: "store_lib \<Rightarrow> bool \<Rightarrow> bytes \<Rightarrow> bytes \<Rightarrow> svalue \<Rightarrow> svalue" where
  "prepared S crypt secret key v =
     (let val = append_hmac_to_value S secret key (sv_version v) (sv_value v)
      in v\<lparr>sv_value := if crypt then xored (value_state S secret key (sv_version v)) 0 val else val\<rparr>)"

lemma sv_version_prepared [simp]: "sv_version (prepared S crypt secret key v) = sv_version v"
  by (simp add: prepared_def Let_def)

lemma prepare_value_Ok:
  assumes "hash_ok S" and "length secret \<in> {16, 32}" and "length (sv_value v) + 32 \<le> max_stream"
  shows "prepare_value_for_put S crypt secret key v = Ok (prepared S crypt secret key v)"
  using assms by (simp add: prepare_value_for_put_def prepared_def crypt_value_stream length_append_hmac Let_def)

lemma process_prepared:
  assumes "hash_ok S" and "length secret \<in> {16, 32}" and "length (sv_value v) + 32 \<le> max_stream"
  shows "process_value_from_get S crypt secret key (prepared S crypt secret key v) = Ok v"
  using assms by (simp add: process_value_from_get_def prepared_def crypt_value_stream length_append_hmac
      remove_appended Let_def)

lemma map_values_Ok:
  assumes "\<And>k v. (k, v) \<in> set kvs \<Longrightarrow> f k v = (Ok (g k v) :: ('e, _) outcome)"
  shows "map_values f kvs = (Ok (map (\<lambda>(k, v). (k, g k v)) kvs) :: ('e, _) outcome)"
proof -
  have "foldo (\<lambda>(k, v) acc. bindo (f k v) (\<lambda>v'. Ok (acc @ [(k, v')]))) kvs acc =
      (Ok (acc @ map (\<lambda>(k, v). (k, g k v)) kvs) :: ('e, _) outcome)" for acc
    using assms
  proof (induction kvs arbitrary: acc)
    case (Cons kv kvs)
    obtain k v where kv: "kv = (k, v)" by (cases kv)
    have "f k v = Ok (g k v)" using Cons.prems by (simp add: kv)
    with Cons.IH [of "acc @ [(k, g k v)]"] Cons.prems show ?case by (simp add: kv)
  qed simp
  then show ?thesis by (simp add: map_values_def)
qed

lemma check_auth_client:
  assumes "keys_ok S" and auth: "auth = new_for_client S client_key (sl_public_key S server_key)"
  shows "check_auth S server_key \<lparr>ap_client_id = pa_client_id auth, ap_token = auth_token S auth\<rparr> = Ok auth"
  using assms(1) unfolding auth
  by (simp add: check_auth_def new_for_client_def new_for_server_def auth_token_def keys_ok_def ok_or_def Let_def)

lemma keys_sorted: "sorted (map fst kvs) \<Longrightarrow> \<not> keys_unsorted kvs"
  by (induction kvs rule: keys_unsorted.induct) auto

lemma server_put_client:
  assumes "keys_ok S" and auth: "auth = new_for_client S client_key (sl_public_key S server_key)"
    and "sorted (map fst kvs)"
  shows "server_put S server_key (make_auth_proto S auth) kvs (compute_shared_hmac S (pa_shared_secret auth) [1] kvs) db =
    (case db_put S (pa_client_id auth) kvs db of
       Ok db' \<Rightarrow> (Ok \<lparr>pr_success = True, pr_hmac = compute_shared_hmac S (pa_shared_secret auth) [2] kvs,
                      pr_conflicts = []\<rparr>, db')
     | Err (DbConflict conflicts) \<Rightarrow>
         (Ok \<lparr>pr_success = False, pr_hmac = [], pr_conflicts = map conflict_to_proto conflicts\<rparr>, db)
     | Panic \<Rightarrow> (Panic, db))"
  using check_auth_client [OF assms(1,2)] keys_sorted [OF assms(3)]
  by (simp add: server_put_def make_auth_proto_def ok_or_def guarded_def)

lemma client_put_prepared:
  assumes "keys_ok S" and "hash_ok S" and "length hmac_secret \<in> {16, 32}"
    and "\<forall>(k, v) \<in> set kvs. length (sv_value v) + 32 \<le> max_stream"
    and auth: "auth = new_for_client S client_key (sl_public_key S server_key)"
    and sent_def: "sent = map (\<lambda>(k, v). (k, prepared S crypt hmac_secret k v)) (sort_key fst kvs)"
  shows "client_put S crypt auth server_key hmac_secret kvs db =
    (case db_put S (pa_client_id auth) sent db of
       Ok db' \<Rightarrow> (Ok (), db')
     | Err (DbConflict conflicts) \<Rightarrow>
         (bindo (remove_and_check_hmacs S crypt hmac_secret (map conflict_to_proto conflicts)) (\<lambda>conflicts.
            Err (PutConflict conflicts)), db)
     | Panic \<Rightarrow> (Panic, db))"
proof -
  have "map_values (prepare_value_for_put S crypt hmac_secret) (sort_key fst kvs) = (Ok sent :: (client_error, _) outcome)"
    unfolding sent_def using assms(2-4) by (intro map_values_Ok prepare_value_Ok) auto
  moreover have "sorted (map fst sent)" by (simp add: sent_def case_prod_beta comp_def)
  ultimately show ?thesis
    using server_put_client [OF assms(1) auth, of sent db]
    by (simp add: client_put_def Let_def split: outcome.splits db_error.splits)
qed

text \<open>What a first put leaves in an empty database, and how it is read.\<close>

lemma update_fresh: "k \<notin> fst ` set db \<Longrightarrow> AList.update k v db = db @ [(k, v)]"
  by (induction db) auto

lemma puts_fresh:
  assumes "inj f" and "distinct (map fst kvs)" and "fst ` set db \<inter> f ` fst ` set kvs = {}"
  shows "foldl (\<lambda>db (k, v). AList.update (f k) (g v) db) db kvs = db @ map (\<lambda>(k, v). (f k, g v)) kvs"
  using assms(2,3)
proof (induction kvs arbitrary: db)
  case (Cons kv kvs)
  obtain k v where kv: "kv = (k, v)" by (cases kv)
  have "f k \<notin> fst ` set db" using Cons.prems(2) by (auto simp: kv)
  moreover have "fst ` set (db @ [(f k, g v)]) \<inter> f ` fst ` set kvs = {}"
    using Cons.prems injD [OF assms(1)] by (auto simp: kv)
  ultimately show ?case using Cons.IH [of "db @ [(f k, g v)]"] Cons.prems(1) by (simp add: kv update_fresh)
qed simp

lemma sort_key_sorted: "sorted (map f xs) \<Longrightarrow> sort_key f xs = xs"
  by (induction xs) (auto simp: insort_is_Cons)

lemma append_le_iff: "pre @ a \<le> pre @ (b :: bytes) \<longleftrightarrow> a \<le> b"
  by (induction pre) auto

lemma starts_with_append [simp]: "starts_with pre (pre @ s)"
  by (simp add: starts_with_def)

lemma sql_like_any [simp]: "sql_like [37] s"
  by (induction s) auto

lemma sled_get_all:
  assumes "hex_ok S" and "cbor_ok S" and "sorted (map fst kvs)"
  shows "sled_get_with_prefix S c [] (map (\<lambda>(k, v). (sled_key S c k, sl_to_cbor S v)) kvs) = Ok kvs"
proof -
  let ?db = "map (\<lambda>(k, v). (sled_key S c k, sl_to_cbor S v)) kvs"
  have key: "sled_key S c k = sled_key S c [] @ k" for k by (simp add: sled_key_def)
  have len: "length (sled_key S c []) = length c * 2 + 1" using assms(1) by (simp add: sled_key_def hex_ok_def)
  have "starts_with (sled_key S c []) (sled_key S c k)" for k unfolding key [of k] by simp
  then have all: "filter (\<lambda>(key, _). starts_with (sled_key S c []) key) ?db = ?db" by (auto intro!: filter_True)
  have "sled_key S c a \<le> sled_key S c b \<longleftrightarrow> a \<le> b" for a b by (simp add: sled_key_def append_le_iff)
  then have "sorted (map fst ?db)"
    using assms(3) by (simp add: sorted_wrt_map case_prod_beta)
  then have srt: "sort_key fst ?db = ?db" by (rule sort_key_sorted)
  have "foldo (\<lambda>(key, val) res. bindo (unwrap (sl_from_cbor S val)) (\<lambda>v.
           Ok (res @ [(drop (length c * 2 + 1) key, v)]))) (map (\<lambda>(k, v). (sled_key S c k, sl_to_cbor S v)) xs) acc =
        (Ok (acc @ xs) :: (db_error, _) outcome)" for xs acc
  proof (induction xs arbitrary: acc)
    case (Cons x xs)
    obtain k v where x: "x = (k, v)" by (cases x)
    have "drop (length c * 2 + 1) (sled_key S c k) = k" unfolding key [of k] len [symmetric] by simp
    moreover have "sl_from_cbor S (sl_to_cbor S v) = Some v" using assms(2) by (simp add: cbor_ok_def)
    ultimately show ?case using Cons.IH by (simp add: x unwrap_def)
  qed simp
  then show ?thesis unfolding sled_get_with_prefix_def all srt by simp
qed

lemma pg_get_all:
  assumes "sorted (map fst kvs)"
  shows "pg_get_with_prefix c [] (map (\<lambda>(k, v). ((c, k), v)) kvs) = Ok kvs"
proof -
  let ?db = "map (\<lambda>(k, v). ((c, k), v)) kvs"
  have all: "filter (\<lambda>((client, key), _). client = c \<and> sql_like ([] @ [37]) key) ?db = ?db"
    by (auto intro!: filter_True)
  have "sort_key (\<lambda>((_, key), _). key) ?db = ?db"
    using assms by (intro sort_key_sorted) (simp add: case_prod_beta comp_def)
  then show ?thesis unfolding pg_get_with_prefix_def all by (simp add: case_prod_beta comp_def)
qed

lemma first_put_get:
  assumes "hex_ok S" and "cbor_ok S" and "db \<in> {SledDatabase [], PostgresDatabase []}"
    and "distinct (map fst kvs)" and "sorted (map fst kvs)" and "\<forall>(k, v) \<in> set kvs. sv_version v = 0"
  shows "\<exists>db'. db_put S c kvs db = Ok db' \<and> get_with_prefix S c [] db' = Ok kvs"
proof -
  have ok: "sled_ok S []" using assms(1,2) by (simp add: sled_ok_def)
  have z: "\<forall>(k, v) \<in> set kvs. sv_version v = next_version (sled_look S [] c k)"
    "\<forall>(k, v) \<in> set kvs. sv_version v = next_version (pg_look [] c k) \<and> (pg_look [] c k \<noteq> None \<longrightarrow> sv_version v \<noteq> 0)"
    using assms(6) by (auto simp: sled_look_def pg_look_def next_version_def)
  have inj: "inj (sled_key S c)" using assms(1) by (auto simp: inj_def sled_key_eq_iff)
  have "sled_put S c kvs [] = Ok (map (\<lambda>(k, v). (sled_key S c k, sl_to_cbor S v)) kvs)"
    using z(1) puts_fresh [OF inj assms(4), of "[]" "sl_to_cbor S"] by (simp add: sled_put_Ok_iff [OF ok])
  moreover obtain d where d: "pg_put c kvs [] = Ok d" using pg.put_accepts [OF TrueI assms(4) z(2)] by blast
  moreover have "d = map (\<lambda>(k, v). ((c, k), v)) kvs"
    using pg_put_Ok [OF assms(4) d] puts_fresh [of "Pair c" kvs "[]" "\<lambda>v. v"] assms(4) by (simp add: inj_def)
  ultimately show ?thesis
    using assms(3) sled_get_all [OF assms(1,2,5), of c] pg_get_all [OF assms(5), of c] by auto
qed

lemma remove_prepared:
  assumes "hash_ok S" and "length secret \<in> {16, 32}"
    and "\<forall>(k, v) \<in> set kvs. length (sv_value v) + 32 \<le> max_stream"
  shows "remove_and_check_hmacs S crypt secret (map (\<lambda>(k, v). (k, prepared S crypt secret k v)) kvs) = Ok kvs"
proof -
  let ?f = "\<lambda>key v. map_err (\<lambda>_. InvalidHmac key (sv_version v)) (process_value_from_get S crypt secret key v)"
  have "foldo (\<lambda>(k, v) acc. bindo (?f k v) (\<lambda>v'. Ok (acc @ [(k, v')])))
      (map (\<lambda>(k, v). (k, prepared S crypt secret k v)) kvs) acc = Ok (acc @ kvs)" for acc
    using assms(3)
  proof (induction kvs arbitrary: acc)
    case (Cons kv kvs)
    then show ?case by (cases kv) (simp add: process_prepared [OF assms(1,2)])
  qed simp
  then show ?thesis by (simp add: remove_and_check_hmacs_def map_values_def)
qed

lemma distinct_sort_key: "distinct (map f (sort_key g xs)) = distinct (map f xs)"
proof -
  have "mset (map f (sort_key g xs)) = mset (map f xs)" by simp
  then show ?thesis by (rule mset_eq_imp_distinct_iff)
qed

text \<open>
  C37: A client reads back what it wrote.  A client authenticates, stores values under distinct keys
  with version 0 in an empty database of either kind, and asks for all its keys: every step
  succeeds, through the authentication, the HMACs of both sides and the encryption, and it gets
  the values in the order of their keys, with the HMACs checked and removed.
\<close>

theorem put_then_get:
  assumes "hash_ok S" and "hex_ok S" and "cbor_ok S" and "keys_ok S"
    and "db \<in> {SledDatabase [], PostgresDatabase []}" and "length hmac_secret \<in> {16, 32}"
    and "distinct (map fst kvs)"
    and "\<forall>(k, v) \<in> set kvs. sv_version v = 0 \<and> length (sv_value v) + 32 \<le> 64 * (2 ^ 32 - 1)"
    and "auth = new_for_client S client_key (sl_public_key S server_key)"
  shows "\<exists>db'. client_put S crypt auth server_key hmac_secret kvs db = (Ok (), db') \<and>
               client_get S crypt auth server_key hmac_secret [] nonce db' = Ok (sort_key fst kvs)"
proof -
  let ?kvs = "sort_key fst kvs"
  let ?sent = "map (\<lambda>(k, v). (k, prepared S crypt hmac_secret k v)) ?kvs"
  have len: "\<forall>(k, v) \<in> set kvs. length (sv_value v) + 32 \<le> max_stream"
    using assms(8) by (auto simp: max_stream_def)
  have f: "map fst ?sent = map fst ?kvs" by (simp add: case_prod_beta comp_def)
  have srt: "sorted (map fst ?sent)" unfolding f by simp
  have dis: "distinct (map fst ?sent)" unfolding f using assms(7) by (simp add: distinct_sort_key)
  have ver: "\<forall>(k, v) \<in> set ?sent. sv_version v = 0" using assms(8) by auto
  obtain db' where db': "db_put S (pa_client_id auth) ?sent db = Ok db'"
      "get_with_prefix S (pa_client_id auth) [] db' = Ok ?sent"
    using first_put_get [OF assms(2,3,5) dis srt ver] by blast
  have "client_put S crypt auth server_key hmac_secret kvs db = (Ok (), db')"
    using client_put_prepared [OF assms(4,1,6) len assms(9) refl, of crypt db] db'(1) by simp
  moreover have "remove_and_check_hmacs S crypt hmac_secret ?sent = Ok ?kvs"
    using len by (intro remove_prepared [OF assms(1,6)]) simp
  then have "client_get S crypt auth server_key hmac_secret [] nonce db' = Ok ?kvs"
    using check_auth_client [OF assms(4,9)] db'(2)
    by (simp add: client_get_def server_get_def make_auth_proto_def ok_or_def Let_def)
  ultimately show ?thesis by blast
qed

lemma pg_conflicts_None: "x \<in> set (fst (pg_queries c kvs db)) \<Longrightarrow> snd x = None"
proof (induction kvs arbitrary: db)
  case (Cons kv kvs)
  then show ?case by (auto simp: Let_def case_prod_beta split: if_splits)
qed simp

lemma missing_value_rejected:
  assumes "hash_ok S" and "length secret \<in> {16, 32}"
  shows "process_value_from_get S crypt secret key \<lparr>sv_version = n, sv_value = []\<rparr> = Err ()"
  using assms by (simp add: process_value_from_get_def crypt_value_stream max_stream_def xored_def
      remove_and_check_hmac_def)


section \<open>An instance\<close>

text \<open>A library that satisfies the assumptions: toy encodings that compute.\<close>

definition example_store_lib :: store_lib where
  "example_store_lib =
     \<lparr>sl_hmac = (\<lambda>k m. replicate 32 0), sl_sha256 = (\<lambda>m. replicate 32 0),
      sl_hex = (\<lambda>c. concat (map (\<lambda>b. if b = 47 then [1, 0] else [0, b]) c)),
      sl_to_cbor = (\<lambda>v. replicate (unat (sv_version v)) 1 @ 0 # sv_value v),
      sl_from_cbor = (\<lambda>bs. Some \<lparr>sv_version = of_nat (length (takeWhile ((=) 1) bs)),
                                 sv_value = tl (dropWhile ((=) 1) bs)\<rparr>),
      sl_ecdh = (\<lambda>a b. if a \<le> b then a @ b else b @ a), sl_public_key = (\<lambda>s. s),
      sl_parse_pubkey = (\<lambda>p. Some p)\<rparr>"

lemma example_hash_ok: "hash_ok example_store_lib"
  by (simp add: hash_ok_def example_store_lib_def)

lemma example_hex_ok: "hex_ok example_store_lib"
proof -
  let ?h = "\<lambda>c :: bytes. concat (map (\<lambda>b. if b = 47 then [1, 0] else [0, b]) c)"
  have "?h a = ?h b \<Longrightarrow> a = b" for a b
  proof (induction a arbitrary: b)
    case Nil
    then show ?case by (cases b) (auto split: if_splits)
  next
    case (Cons x a)
    then show ?case by (cases b) (auto split: if_splits)
  qed
  then have "inj ?h" by (rule injI)
  moreover have "47 \<notin> set (?h c) \<and> length (?h c) = 2 * length c" for c
    by (induction c) auto
  ultimately show ?thesis by (simp add: hex_ok_def example_store_lib_def)
qed

lemma example_cbor_ok: "cbor_ok example_store_lib"
proof -
  have "takeWhile ((=) (1 :: u8)) (replicate n 1 @ 0 # xs) = replicate n 1"
    "dropWhile ((=) (1 :: u8)) (replicate n 1 @ 0 # xs) = 0 # xs" for n xs
    by (induction n) auto
  then show ?thesis by (simp add: cbor_ok_def example_store_lib_def)
qed

lemma example_keys_ok: "keys_ok example_store_lib"
  by (auto simp: keys_ok_def example_store_lib_def)

definition example_value :: svalue where
  "example_value = \<lparr>sv_version = 0, sv_value = [1, 2, 3]\<rparr>"

theorem accepted_versions_sequential_witness:
  "\<exists>acc db'. put_run (db_put example_store_lib)
       [([1], [([7], example_value)]), ([1], [([7], example_value)]), ([1], [([7], example_value\<lparr>sv_version := 1\<rparr>)])]
       (SledDatabase []) = (acc, db') \<and>
     map sv_version (writes [1] [7] acc) = map of_nat [0..<length (writes [1] [7] acc)] \<and>
     db_look example_store_lib db' [1] [7] =
       (if writes [1] [7] acc = [] then None else Some (last (writes [1] [7] acc)))"
proof -
  let ?ps = "[([1], [([7], example_value)]), ([1], [([7], example_value)]), ([1], [([7], example_value\<lparr>sv_version := 1\<rparr>)])]"
  obtain acc db' where run: "put_run (db_put example_store_lib) ?ps (SledDatabase []) = (acc, db')"
    by (cases "put_run (db_put example_store_lib) ?ps (SledDatabase [])")
  have "\<forall>(c :: bytes, kvs) \<in> set ?ps. distinct (map fst kvs)" by simp
  from accepted_versions_sequential [OF example_hex_ok example_cbor_ok _ this run, of "[1]" "[7]"] run
  show ?thesis by auto
qed

theorem put_then_get_witness:
  "\<exists>db'. client_put example_store_lib True (new_for_client example_store_lib [5] [6]) [6] (replicate 32 9)
           [([8], example_value), ([7], example_value)] (SledDatabase []) = (Ok (), db') \<and>
         client_get example_store_lib True (new_for_client example_store_lib [5] [6]) [6] (replicate 32 9) [] [0] db' =
           Ok [([7], example_value), ([8], example_value)]"
proof -
  have "sl_public_key example_store_lib s = s" for s by (simp add: example_store_lib_def)
  then show ?thesis
    using put_then_get [OF example_hash_ok example_hex_ok example_cbor_ok example_keys_ok, of "SledDatabase []"
        "replicate 32 9" "[([8], example_value), ([7], example_value)]"
        "new_for_client example_store_lib [5] [6]" "[5]" "[6]" True "[0]"]
    by (simp add: example_value_def)
qed


end
