(* ===== verification/Velocity.thy ===== *)
theory Velocity
  imports VLS_Prelude
begin

text \<open>
  \<^verbatim>\<open>vls-core/src/util/velocity.rs\<close>: the control that limits how much value leaves the node per
  hour or per day.  The control keeps one total per interval and not the individual payments;
  the main result relates it to the complete history of accepted payments: the control accepts a
  payment exactly when the payments of the last intervals leave room for it, and therefore no
  window of time ever exceeds the limit.  \<^verbatim>\<open>usize\<close> is 64 bits wide here.
\<close>

section \<open>The control\<close>

record velocity_control =
  start_sec :: u64
  bucket_interval :: u32
  buckets :: "u64 list"
  limit :: u64

datatype velocity_control_interval_type = Hourly | Daily | Unlimited

record velocity_control_spec =
  limit_msat :: u64
  interval_type :: velocity_control_interval_type

definition UNLIMITED :: velocity_control_spec where
  "UNLIMITED = \<lparr>limit_msat = 0, interval_type = Unlimited\<rparr>"

definition new_with_intervals :: "u64 \<Rightarrow> u32 \<Rightarrow> nat \<Rightarrow> ('e, velocity_control) outcome" where
  "new_with_intervals lim interval num_buckets =
     bindo (asserts (interval > 0 \<and> num_buckets > 0)) (\<lambda>_.
     Ok \<lparr>start_sec = 0, bucket_interval = interval, buckets = replicate num_buckets 0,
         limit = lim\<rparr>)"

definition new_unlimited :: "u32 \<Rightarrow> nat \<Rightarrow> ('e, velocity_control) outcome" where
  "new_unlimited interval num_buckets =
     bindo (asserts (interval > 0 \<and> num_buckets > 0)) (\<lambda>_.
     Ok \<lparr>start_sec = 0, bucket_interval = interval, buckets = replicate num_buckets 0,
         limit = - 1\<rparr>)"

definition spec_to_triple :: "velocity_control_spec \<Rightarrow> u64 \<times> u32 \<times> nat" where
  "spec_to_triple spec = (case interval_type spec of
     Hourly \<Rightarrow> (limit_msat spec, 300, 12)
   | Daily \<Rightarrow> (limit_msat spec, 3600, 24)
   | Unlimited \<Rightarrow> (- 1, 300, 12))"

definition velocity_control_new :: "velocity_control_spec \<Rightarrow> ('e, velocity_control) outcome" where
  "velocity_control_new spec =
     (let (lim, interval, num_buckets) = spec_to_triple spec in
      new_with_intervals lim interval num_buckets)"

definition spec_matches :: "velocity_control \<Rightarrow> velocity_control_spec \<Rightarrow> bool" where
  "spec_matches vc spec =
     (let (lim, interval, num_buckets) = spec_to_triple spec in
      limit vc = lim \<and> bucket_interval vc = interval \<and> length (buckets vc) = num_buckets)"

definition update_spec :: "velocity_control \<Rightarrow> velocity_control_spec \<Rightarrow> velocity_control" where
  "update_spec vc spec =
     (if \<not> spec_matches vc spec then
        (let (lim, interval, num_buckets) = spec_to_triple spec in
         vc\<lparr>limit := lim, bucket_interval := interval, buckets := replicate num_buckets 0,
            start_sec := 0\<rparr>)
      else vc)"

definition with_state :: "velocity_control \<Rightarrow> u64 \<times> u64 list \<Rightarrow> velocity_control" where
  "with_state vc state = vc\<lparr>start_sec := fst state, buckets := snd state\<rparr>"

definition load_from_state ::
    "velocity_control_spec \<Rightarrow> u64 \<times> u64 list \<Rightarrow> ('e, velocity_control) outcome" where
  "load_from_state spec state =
     bindo (velocity_control_new spec) (\<lambda>control. Ok (with_state control state))"

definition get_state :: "velocity_control \<Rightarrow> u64 \<times> u64 list" where
  "get_state vc = (start_sec vc, buckets vc)"

definition is_unlimited :: "velocity_control \<Rightarrow> bool" where
  "is_unlimited vc \<longleftrightarrow> limit vc = - 1"

definition velocity :: "velocity_control \<Rightarrow> u64" where
  "velocity vc = foldl saturating_add 0 (buckets vc)"

definition clear :: "velocity_control \<Rightarrow> velocity_control" where
  "clear vc = vc\<lparr>buckets := map (\<lambda>_. 0) (buckets vc)\<rparr>"

text \<open>
  \<^verbatim>\<open>insert\<close>: the shift of the buckets, then the decision.  Division by a zero interval and
  writing the first of no buckets panic.
\<close>

definition shift_buckets :: "velocity_control \<Rightarrow> u64 \<Rightarrow> velocity_control" where
  "shift_buckets vc current_sec =
     (let interval = ucast (bucket_interval vc);
          len = length (buckets vc);
          nshift = min len (unat ((current_sec - start_sec vc) div interval))
      in vc\<lparr>buckets := replicate nshift 0 @ take (len - nshift) (buckets vc),
            start_sec := current_sec - (current_sec mod interval)\<rparr>)"

definition velocity_insert ::
    "velocity_control \<Rightarrow> u64 \<Rightarrow> u64 \<Rightarrow> ('e, bool \<times> velocity_control) outcome" where
  "velocity_insert vc current_sec velocity_msat =
     bindo (asserts (bucket_interval vc \<noteq> 0)) (\<lambda>_.
     let vc1 = shift_buckets vc current_sec;
         current_velocity = velocity vc1
     in if saturating_add current_velocity velocity_msat > limit vc1 then Ok (False, vc1)
        else bindo (asserts (buckets vc1 \<noteq> [])) (\<lambda>_.
          Ok (True, vc1\<lparr>buckets := (buckets vc1)[0 := saturating_add (buckets vc1 ! 0) velocity_msat]\<rparr>)))"

section \<open>Well-formed controls\<close>

definition total :: "velocity_control \<Rightarrow> nat" where
  "total vc = sum_list (map unat (buckets vc))"

definition vc_wf :: "velocity_control \<Rightarrow> bool" where
  "vc_wf vc \<longleftrightarrow> bucket_interval vc \<noteq> 0 \<and> buckets vc \<noteq> []"

definition within_limit :: "velocity_control \<Rightarrow> bool" where
  "within_limit vc \<longleftrightarrow> limit vc = - 1 \<or> total vc \<le> unat (limit vc)"

lemma unat_foldl_saturating:
  "unat (foldl saturating_add a xs) = min (unat a + sum_list (map unat xs)) (2 ^ 64 - 1)"
proof (induction xs arbitrary: a)
  case Nil
  then show ?case using unat_lt_u64 [of a] by simp
next
  case (Cons x xs)
  then show ?case by (simp add: unat_saturating_add)
qed

lemma unat_velocity: "unat (velocity vc) = min (total vc) (2 ^ 64 - 1)"
  by (simp add: velocity_def unat_foldl_saturating total_def)

lemma limit_lt: "limit vc \<noteq> - 1 \<Longrightarrow> unat (limit vc) < 2 ^ 64 - 1"
  using unat_lt_u64 [of "limit vc"] unat_max_u64
  by (metis One_nat_def Suc_pred less_antisym word_unat_eq_iff zero_less_numeral zero_less_power)

lemma exceeds_limit_iff:
  assumes "limit vc \<noteq> - 1"
  shows "saturating_add (velocity vc) v > limit vc \<longleftrightarrow> unat (limit vc) < total vc + unat v"
  using limit_lt [OF assms]
  by (auto simp: word_less_nat_alt unat_saturating_add unat_velocity min_def)

lemma unlimited_never_exceeds: "limit vc = - 1 \<Longrightarrow> \<not> saturating_add (velocity vc) v > limit vc"
  by (simp add: not_less word_le_nat_alt unat_max_u64 unat_saturating_add)

lemma shift_buckets_simps [simp]:
  "limit (shift_buckets vc t) = limit vc"
  "bucket_interval (shift_buckets vc t) = bucket_interval vc"
  "length (buckets (shift_buckets vc t)) = length (buckets vc)"
  by (simp_all add: shift_buckets_def Let_def)

lemma total_shift_le: "total (shift_buckets vc t) \<le> total vc"
proof -
  have "sum_list (take n xs) \<le> sum_list xs" for n and xs :: "nat list"
    by (metis append_take_drop_id le_add1 sum_list_append)
  then show ?thesis
    by (simp add: total_def shift_buckets_def Let_def sum_list_replicate take_map [symmetric])
qed

lemma total_add_first:
  "bs \<noteq> [] \<Longrightarrow> sum_list (map unat (bs[0 := b])) = sum_list (map unat bs) - unat (bs ! 0) + unat b"
  by (cases bs) auto

lemma velocity_insert_wf:
  "vc_wf vc \<Longrightarrow> \<exists>b vc'. velocity_insert vc t v = Ok (b, vc') \<and> vc_wf vc' \<and>
     limit vc' = limit vc \<and> bucket_interval vc' = bucket_interval vc \<and>
     length (buckets vc') = length (buckets vc)"
  unfolding vc_wf_def velocity_insert_def
  by (auto simp: asserts_def Let_def simp flip: length_greater_0_conv)

section \<open>The history of accepted payments\<close>

text \<open>
  A history is the list of the accepted payments, each with its time in seconds and its amount.
  \<open>slot_total\<close> is what it holds for one interval of \<open>I\<close> seconds, \<open>window_total\<close> what it holds for
  the \<open>len\<close> intervals that end with interval \<open>e\<close>.
\<close>

type_synonym history = "(u64 \<times> u64) list"

definition slot_total :: "nat \<Rightarrow> history \<Rightarrow> nat \<Rightarrow> nat" where
  "slot_total I h e = sum_list (map (\<lambda>(t, v). if unat t div I = e then unat v else 0) h)"

definition window_total :: "nat \<Rightarrow> nat \<Rightarrow> history \<Rightarrow> nat \<Rightarrow> nat" where
  "window_total I len h e =
     sum_list (map (\<lambda>(t, v). if unat t div I \<le> e \<and> e < unat t div I + len then unat v else 0) h)"

lemma slot_total_Cons [simp]:
  "slot_total I [] e = 0"
  "slot_total I ((t, v) # h) e = (if unat t div I = e then unat v else 0) + slot_total I h e"
  by (simp_all add: slot_total_def)

lemma window_total_Cons [simp]:
  "window_total I len [] e = 0"
  "window_total I len ((t, v) # h) e =
     (if unat t div I \<le> e \<and> e < unat t div I + len then unat v else 0) + window_total I len h e"
  by (simp_all add: window_total_def)

lemma window_total_slots:
  "window_total I len h e = (\<Sum>i<len. if i \<le> e then slot_total I h (e - i) else 0)"
proof (induction h)
  case (Cons a h)
  obtain t v where a: "a = (t, v)" by (cases a)
  have "(\<Sum>i<len. if i \<le> e \<and> unat t div I = e - i then unat v else 0) =
        (\<Sum>i<len. if i = e - unat t div I then (if unat t div I \<le> e then unat v else 0) else 0)"
    by (intro sum.cong) auto
  also have "\<dots> = (if unat t div I \<le> e \<and> e < unat t div I + len then unat v else 0)"
    by (subst sum.delta) auto
  finally have "(if unat t div I \<le> e \<and> e < unat t div I + len then unat v else 0) =
      (\<Sum>i<len. if i \<le> e \<and> unat t div I = e - i then unat v else 0)" by simp
  then show ?case
    unfolding a window_total_Cons Cons.IH sum.distrib [symmetric]
    by (simp add: sum.distrib [symmetric]) (auto intro!: sum.cong)
qed simp

lemma slot_total_future:
  "\<forall>(t, v) \<in> set h. unat t div I \<noteq> e \<Longrightarrow> slot_total I h e = 0"
  by (induction h) auto

text \<open>\<open>tracks vc h\<close>: the buckets of \<open>vc\<close> are the totals of \<open>h\<close> for the last intervals.\<close>

abbreviation interval_of :: "velocity_control \<Rightarrow> nat" where
  "interval_of vc \<equiv> unat (bucket_interval vc)"

definition tracks :: "velocity_control \<Rightarrow> history \<Rightarrow> bool" where
  "tracks vc h \<longleftrightarrow>
     vc_wf vc \<and> interval_of vc dvd unat (start_sec vc) \<and>
     (\<forall>(t, v) \<in> set h. unat t div interval_of vc \<le> unat (start_sec vc) div interval_of vc) \<and>
     (\<forall>i < length (buckets vc). unat (buckets vc ! i) =
        (if i \<le> unat (start_sec vc) div interval_of vc
         then slot_total (interval_of vc) h (unat (start_sec vc) div interval_of vc - i) else 0))"

lemma tracks_total:
  assumes "tracks vc h"
  shows "total vc = window_total (interval_of vc) (length (buckets vc)) h
                      (unat (start_sec vc) div interval_of vc)"
proof -
  have "total vc = (\<Sum>i<length (buckets vc). unat (buckets vc ! i))"
    by (simp add: total_def sum_list_sum_nth lessThan_atLeast0)
  also have "\<dots> = window_total (interval_of vc) (length (buckets vc)) h
                      (unat (start_sec vc) div interval_of vc)"
    unfolding window_total_slots using assms by (intro sum.cong) (auto simp: tracks_def)
  finally show ?thesis .
qed

lemma unat_interval: "unat (ucast (bucket_interval vc) :: u64) = interval_of vc"
  by (simp add: unsigned_ucast_eq take_bit_nat_eq_self_iff less_le_trans [OF unsigned_less])

lemma shift_start:
  "unat (start_sec (shift_buckets vc t)) = unat t div interval_of vc * interval_of vc"
proof -
  have "t - t mod ucast (bucket_interval vc) = t div ucast (bucket_interval vc) * ucast (bucket_interval vc)"
    by (metis minus_mod_eq_div_mult)
  moreover have "unat t div interval_of vc * interval_of vc < 2 ^ 64"
    using unat_lt_u64 [of t] div_times_less_eq_dividend le_less_trans by blast
  ultimately show ?thesis
    by (simp add: shift_buckets_def Let_def unat_word_ariths unat_div unat_interval mod_simps)
qed

lemma shift_count:
  assumes "tracks vc h" and "start_sec vc \<le> t"
  shows "unat ((t - start_sec vc) div ucast (bucket_interval vc)) =
         unat t div interval_of vc - unat (start_sec vc) div interval_of vc"
proof -
  from assms(1) have "interval_of vc dvd unat (start_sec vc)" by (simp add: tracks_def)
  then obtain q where q: "unat (start_sec vc) = interval_of vc * q" by (rule dvdE)
  have I: "interval_of vc > 0"
    using assms(1) by (simp add: tracks_def vc_wf_def unat_gt_0)
  have "unat (t - start_sec vc) = unat t - interval_of vc * q"
    using assms(2) q by (simp add: unat_sub)
  moreover have "unat t div interval_of vc = (unat t - interval_of vc * q) div interval_of vc + q"
  proof -
    have "unat t = (unat t - interval_of vc * q) + q * interval_of vc"
      using assms(2) q by (simp add: word_le_nat_alt mult.commute)
    then have "unat t div interval_of vc =
        ((unat t - interval_of vc * q) + q * interval_of vc) div interval_of vc" by (rule arg_cong)
    also have "\<dots> = (unat t - interval_of vc * q) div interval_of vc + q"
      using I by (subst div_mult_self1) simp_all
    finally show ?thesis .
  qed
  ultimately show ?thesis
    using q I by (simp add: unat_div unat_interval)
qed

lemma tracks_shift:
  assumes "tracks vc h" and "start_sec vc \<le> t"
  shows "tracks (shift_buckets vc t) h"
proof -
  define I E F where "I = interval_of vc" and "E = unat (start_sec vc) div I" and "F = unat t div I"
  define n where "n = min (length (buckets vc)) (F - E)"
  have I: "I > 0" using assms(1) by (simp add: tracks_def vc_wf_def unat_gt_0 I_def)
  have EF: "E \<le> F" using assms(2) by (simp add: E_def F_def div_le_mono word_le_nat_alt)
  have start: "unat (start_sec (shift_buckets vc t)) div I = F"
    using I by (simp add: shift_start I_def F_def)
  have bs: "buckets (shift_buckets vc t) = replicate n 0 @ take (length (buckets vc) - n) (buckets vc)"
    using shift_count [OF assms] by (simp add: shift_buckets_def Let_def n_def F_def E_def I_def)
  have "unat (buckets (shift_buckets vc t) ! i) = (if i \<le> F then slot_total I h (F - i) else 0)"
    if i: "i < length (buckets vc)" for i
  proof (cases "i < n")
    case True
    then have "slot_total I h (F - i) = 0"
      using assms(1) by (intro slot_total_future) (auto simp: tracks_def n_def E_def I_def)
    with True show ?thesis by (simp add: bs nth_append)
  next
    case False
    with i have n: "n = F - E" "n \<le> i" by (auto simp: n_def)
    have "unat (buckets vc ! (i - n)) = (if i - n \<le> E then slot_total I h (E - (i - n)) else 0)"
      using assms(1) i by (simp add: tracks_def I_def E_def)
    moreover have "i - n \<le> E \<longleftrightarrow> i \<le> F" and "E - (i - n) = F - i" using n EF by auto
    ultimately show ?thesis using False i by (simp add: bs nth_append)
  qed
  moreover have "\<forall>(s, v) \<in> set h. unat s div I \<le> F"
    using assms(1) EF by (fastforce simp: tracks_def I_def E_def)
  ultimately show ?thesis
    using assms(1) start by (auto simp: tracks_def vc_wf_def shift_start I_def simp flip: length_greater_0_conv)
qed

lemma tracks_record:
  assumes "tracks vc h" and "unat t div interval_of vc = unat (start_sec vc) div interval_of vc"
    and "unat (buckets vc ! 0) + unat v < 2 ^ 64"
  shows "tracks (vc\<lparr>buckets := (buckets vc)[0 := saturating_add (buckets vc ! 0) v]\<rparr>) ((t, v) # h)"
proof -
  have "unat (saturating_add (buckets vc ! 0) v) = unat (buckets vc ! 0) + unat v"
    using assms(3) by (simp add: unat_saturating_add)
  then show ?thesis
    using assms(1,2) by (auto simp: tracks_def vc_wf_def nth_list_update)
qed

lemma velocity_insert_tracks:
  fixes v :: u64
  assumes "tracks vc h" and "start_sec vc \<le> t" and "limit vc \<noteq> - 1"
  defines "ok \<equiv> window_total (interval_of vc) (length (buckets vc)) h (unat t div interval_of vc) + unat v
                 \<le> unat (limit vc)"
  shows "\<exists>vc'. velocity_insert vc t v = Ok (ok, vc') \<and> tracks vc' (if ok then (t, v) # h else h) \<and>
           start_sec vc' \<le> t \<and> limit vc' = limit vc \<and> bucket_interval vc' = bucket_interval vc \<and>
           length (buckets vc') = length (buckets vc)"
proof -
  let ?vc = "shift_buckets vc t"
  have tr: "tracks ?vc h" by (rule tracks_shift [OF assms(1,2)])
  have wf: "bucket_interval vc \<noteq> 0" "buckets vc \<noteq> []" "interval_of vc > 0"
    using assms(1) by (auto simp: tracks_def vc_wf_def unat_gt_0)
  have same: "unat t div interval_of vc = unat (start_sec ?vc) div interval_of vc"
    using wf(3) by (simp add: shift_start)
  have tot: "total ?vc = window_total (interval_of vc) (length (buckets vc)) h (unat t div interval_of vc)"
    using tracks_total [OF tr] same by simp
  have le: "start_sec ?vc \<le> t" by (simp add: word_le_nat_alt shift_start)
  have ne: "buckets ?vc \<noteq> []" using wf(2) by (simp flip: length_greater_0_conv)
  have ok: "saturating_add (velocity ?vc) v > limit ?vc \<longleftrightarrow> \<not> ok"
    using exceeds_limit_iff [of ?vc v] assms(3) tot by (simp add: ok_def not_le)
  show ?thesis
  proof (cases ok)
    case False
    with ok wf tr le show ?thesis by (simp add: velocity_insert_def asserts_def Let_def)
  next
    case True
    have "unat (buckets ?vc ! 0) \<le> total ?vc"
      using ne by (simp add: total_def elem_le_sum_list hd_conv_nth [symmetric] member_le_sum_list)
    with True tot limit_lt [OF assms(3)] have "unat (buckets ?vc ! 0) + unat v < 2 ^ 64"
      by (simp add: ok_def)
    with True ok wf tr le ne same show ?thesis
      by (simp add: velocity_insert_def asserts_def Let_def tracks_record)
  qed
qed

section \<open>Sequences of payments\<close>

text \<open>
  A run of the control over payments offered at times in \<open>evs\<close>, collecting the accepted ones
  (latest first), and the specification of which ones are accepted, on histories alone.
\<close>

fun velocity_run ::
    "velocity_control \<Rightarrow> history \<Rightarrow> history \<Rightarrow> ('e, velocity_control \<times> history) outcome" where
  "velocity_run vc h [] = Ok (vc, h)"
| "velocity_run vc h ((t, v) # evs) =
     bindo (velocity_insert vc t v) (\<lambda>(b, vc'). velocity_run vc' (if b then (t, v) # h else h) evs)"

fun accepted :: "nat \<Rightarrow> nat \<Rightarrow> nat \<Rightarrow> history \<Rightarrow> history \<Rightarrow> history" where
  "accepted I len lim h [] = h"
| "accepted I len lim h ((t, v) # evs) =
     accepted I len lim
       (if window_total I len h (unat t div I) + unat v \<le> lim then (t, v) # h else h) evs"

lemma velocity_run_refines:
  assumes "tracks vc h" and "limit vc \<noteq> - 1" and "sorted (start_sec vc # map fst evs)"
  shows "\<exists>vc'. velocity_run vc h evs =
           (Ok (vc', accepted (interval_of vc) (length (buckets vc)) (unat (limit vc)) h evs)
              :: ('e, _) outcome)"
  using assms
proof (induction evs arbitrary: vc h)
  case (Cons ev evs)
  obtain t v where ev: "ev = (t, v)" by (cases ev)
  with Cons.prems(3) have le: "start_sec vc \<le> t" and s: "sorted (t # map fst evs)" by auto
  obtain ok vc' where ok: "ok \<longleftrightarrow> window_total (interval_of vc) (length (buckets vc)) h
        (unat t div interval_of vc) + unat v \<le> unat (limit vc)"
    and vc': "velocity_insert vc t v = (Ok (ok, vc') :: ('e, _) outcome)" "tracks vc' (if ok then (t, v) # h else h)"
      "start_sec vc' \<le> t" "limit vc' = limit vc" "bucket_interval vc' = bucket_interval vc"
      "length (buckets vc') = length (buckets vc)"
    using velocity_insert_tracks [OF Cons.prems(1) le Cons.prems(2), of v] by blast
  have "sorted (start_sec vc' # map fst evs)"
    using vc'(3) s by auto
  with Cons.IH [OF vc'(2)] Cons.prems(2) vc' ok show ?case
    by (simp add: ev)
qed simp

lemma tracks_new:
  assumes "new_with_intervals lim I len = Ok vc"
  shows "tracks vc [] \<and> limit vc = lim \<and> bucket_interval vc = I \<and> length (buckets vc) = len \<and>
         start_sec vc = 0"
  using assms by (auto simp: new_with_intervals_def bindo_Ok_iff asserts_iff tracks_def vc_wf_def)

lemma window_total_le_latest:
  "(\<forall>(t, v) \<in> set h. unat t div I \<le> e) \<Longrightarrow> e \<le> f \<Longrightarrow> window_total I len h f \<le> window_total I len h e"
  by (induction h) (auto intro: add_mono)

lemma accepted_window:
  assumes "\<forall>e. window_total I len h e \<le> lim" and "len > 0" and "sorted (map fst evs)"
    and "\<forall>a \<in> set h. \<forall>b \<in> set evs. fst a \<le> fst b"
  shows "window_total I len (accepted I len lim h evs) e \<le> lim"
  using assms
proof (induction evs arbitrary: h)
  case (Cons ev evs)
  obtain t v where ev: "ev = (t, v)" by (cases ev)
  define h' where "h' = (if window_total I len h (unat t div I) + unat v \<le> lim then (t, v) # h else h)"
  have "window_total I len h' f \<le> lim" for f
  proof (cases "h' = h")
    case False
    then have h': "h' = (t, v) # h" "window_total I len h (unat t div I) + unat v \<le> lim"
      by (auto simp: h'_def split: if_splits)
    have past: "\<forall>(s, w) \<in> set h. unat s div I \<le> unat t div I"
      using Cons.prems(4) ev by (auto intro!: div_le_mono simp: word_le_nat_alt)
    show ?thesis
    proof (cases "unat t div I \<le> f")
      case True
      with window_total_le_latest [OF past True, of len] h' show ?thesis by auto
    next
      case False
      with h'(1) Cons.prems(1) show ?thesis by simp
    qed
  qed (use Cons.prems(1) in simp)
  moreover have "\<forall>a \<in> set h'. \<forall>b \<in> set evs. fst a \<le> fst b"
    using Cons.prems(3,4) ev by (auto simp: h'_def)
  ultimately show ?case
    using Cons.IH [of h'] Cons.prems(2,3) by (simp add: ev h'_def)
qed simp

lemma velocity_run_window:
  assumes "new_with_intervals lim interval len = (Ok vc :: ('e, velocity_control) outcome)"
    and "lim \<noteq> - 1" and "sorted (map fst evs)"
    and "velocity_run vc [] evs = (Ok (vc', h) :: ('e, _) outcome)"
  shows "sum_list (map (\<lambda>(t, v). if s \<le> unat t \<and> unat t \<le> s + (len - 1) * unat interval
                                  then unat v else 0) h) \<le> unat lim"
proof -
  have pos: "len > 0" "unat interval > 0"
    using assms(1) by (auto simp: new_with_intervals_def bindo_Ok_iff asserts_iff word_less_nat_alt)
  have "h = accepted (unat interval) len (unat lim) [] evs"
    using velocity_run_refines [of vc "[]" evs, where ?'e = 'e] tracks_new [OF assms(1)] assms
    by auto
  then have "window_total (unat interval) len h (s div unat interval + (len - 1)) \<le> unat lim"
    using accepted_window [of "unat interval" len "[]" "unat lim" evs] pos assms(3) by simp
  moreover have "s div unat interval \<le> unat t div unat interval \<and>
      unat t div unat interval \<le> s div unat interval + (len - 1)"
    if "s \<le> unat t" "unat t \<le> s + (len - 1) * unat interval" for t :: u64
    using div_le_mono [OF that(1), of "unat interval"] div_le_mono [OF that(2), of "unat interval"]
      pos by simp
  then have "sum_list (map (\<lambda>(t, v). if s \<le> unat t \<and> unat t \<le> s + (len - 1) * unat interval
               then unat v else 0) h) \<le> window_total (unat interval) len h (s div unat interval + (len - 1))"
    using pos(1) unfolding window_total_def by (intro sum_list_mono) force
  ultimately show ?thesis by linarith
qed

text \<open>
  C0: The velocity control is equivalent to keeping the complete history.  Offered payments in
  order of time, the bucketed control accepts a payment exactly when the accepted payments of
  the \<open>len\<close> intervals ending now, plus this one, stay within the limit; it never panics.
\<close>

theorem velocity_refines_history:
  assumes "new_with_intervals lim interval len = (Ok vc :: ('e, velocity_control) outcome)"
    and "lim \<noteq> - 1" and "sorted (map fst evs)"
  shows "\<exists>vc'. velocity_run vc [] evs =
           (Ok (vc', accepted (unat interval) len (unat lim) [] evs) :: ('e, _) outcome)"
proof -
  have "sorted (start_sec vc # map fst evs)" using assms(3) tracks_new [OF assms(1)] by simp
  with velocity_run_refines [of vc "[]" evs] tracks_new [OF assms(1)] assms(2) show ?thesis by auto
qed

theorem velocity_refines_history_witness:
  "\<exists>vc'. velocity_run \<lparr>start_sec = 0, bucket_interval = 300, buckets = replicate 12 0, limit = 100\<rparr>
       [] [(1000, 60), (1100, 50), (4000, 40), (4300, 90)] =
     (Ok (vc', [(4000, 40), (1000, 60)]) :: (unit, _) outcome)"
proof -
  have "new_with_intervals 100 300 12 =
      (Ok \<lparr>start_sec = 0, bucket_interval = 300, buckets = replicate 12 0, limit = 100\<rparr>
         :: (unit, velocity_control) outcome)"
    by (simp add: new_with_intervals_def asserts_def)
  from velocity_refines_history [OF this, of "[(1000, 60), (1100, 50), (4000, 40), (4300, 90)]"]
  show ?thesis by simp
qed

text \<open>
  C0: No window of time exceeds the limit.  Whatever payments are offered in order of time, the
  payments the control accepted in any stretch of \<open>(len - 1) * interval\<close> seconds add up to at
  most the limit (for the daily control, any 23 hours).
\<close>

theorem velocity_window_safe:
  assumes "new_with_intervals lim interval len = (Ok vc :: ('e, velocity_control) outcome)"
    and "lim \<noteq> - 1" and "sorted (map fst evs)"
    and "velocity_run vc [] evs = (Ok (vc', h) :: ('e, _) outcome)"
  shows "sum_list (map (\<lambda>(t, v). if s \<le> unat t \<and> unat t \<le> s + (len - 1) * unat interval
                                  then unat v else 0) h) \<le> unat lim"
  using assms by (rule velocity_run_window)

theorem velocity_window_safe_witness:
  "\<exists>h. h = [(4000, 40), (1000, 60 :: u64)] \<and>
     sum_list (map (\<lambda>(t :: u64, v). if 1000 \<le> unat t \<and> unat t \<le> 1000 + (12 - 1) * unat (300 :: u32)
                             then unat v else 0) h) \<le> unat (100 :: u64)"
proof -
  let ?vc = "\<lparr>start_sec = 0, bucket_interval = 300, buckets = replicate 12 0, limit = 100\<rparr>"
  let ?evs = "[(1000, 60), (1100, 50), (4000, 40)] :: history"
  have new: "new_with_intervals 100 300 12 = (Ok ?vc :: (unit, velocity_control) outcome)"
    by (simp add: new_with_intervals_def asserts_def)
  have "\<exists>vc'. velocity_run ?vc [] ?evs = (Ok (vc', [(4000, 40), (1000, 60)]) :: (unit, _) outcome)"
    using velocity_run_refines [of ?vc "[]" ?evs, where ?'e = unit] tracks_new [OF new] by simp
  then obtain vc' where run: "velocity_run ?vc [] ?evs =
      (Ok (vc', [(4000, 40), (1000, 60)]) :: (unit, _) outcome)" by blast
  from velocity_window_safe [OF new _ _ run, of 1000] show ?thesis by simp
qed

end
