(* ===== verification/Policy_Core.thy ===== *)
theory Policy_Core
  imports VLS_Prelude
begin

text \<open>
  Policy errors, the gRPC-style status they turn into, and the filter that can demote a policy
  violation to a warning: \<^verbatim>\<open>vls-core/src/policy/error.rs\<close>, \<^verbatim>\<open>policy/filter.rs\<close>,
  \<^verbatim>\<open>policy/mod.rs\<close> and \<^verbatim>\<open>util/status.rs\<close>.

  Error messages are kept as the format string of the source, with \<open>{}\<close> for each formatted
  argument; the function-name prefix that the \<^verbatim>\<open>policy_err!\<close> macros add, log output and
  backtraces are not modelled.
\<close>

section \<open>Validation errors and status codes\<close>

datatype validation_error =
    TransactionFormat string
  | ScriptFormat string
  | Mismatch string
  | Policy string
  | TemporaryPolicy string
  | UnknownDestinations string "nat list"

fun prepend_msg :: "string \<Rightarrow> validation_error \<Rightarrow> validation_error" where
  "prepend_msg premsg (TransactionFormat s0) = TransactionFormat (premsg @ s0)"
| "prepend_msg premsg (ScriptFormat s0) = ScriptFormat (premsg @ s0)"
| "prepend_msg premsg (Mismatch s0) = Mismatch (premsg @ s0)"
| "prepend_msg premsg (Policy s0) = Policy (premsg @ s0)"
| "prepend_msg premsg (TemporaryPolicy s0) = TemporaryPolicy (premsg @ s0)"
| "prepend_msg premsg (UnknownDestinations s0 indices) = UnknownDestinations (premsg @ s0) indices"

text \<open>Decimal rendering of a \<^verbatim>\<open>Vec<usize>\<close>, as the debug formatter prints it.\<close>

fun show_nat :: "nat \<Rightarrow> string" where
  "show_nat n = (if n < 10 then [char_of (48 + n)] else show_nat (n div 10) @ [char_of (48 + n mod 10)])"

declare show_nat.simps [simp del]

fun show_nats :: "nat list \<Rightarrow> string" where
  "show_nats [] = ''''"
| "show_nats [n] = show_nat n"
| "show_nats (n # ns) = show_nat n @ '', '' @ show_nats ns"

fun validation_error_string :: "validation_error \<Rightarrow> string" where
  "validation_error_string (TransactionFormat s) = ''transaction format: '' @ s"
| "validation_error_string (ScriptFormat s) = ''script format: '' @ s"
| "validation_error_string (Mismatch s) = ''script template mismatch: '' @ s"
| "validation_error_string (Policy s) = ''policy failure: '' @ s"
| "validation_error_string (TemporaryPolicy s) = ''temporary policy failure: '' @ s"
| "validation_error_string (UnknownDestinations s indices) =
     ''unknown destinations: '' @ s @ '' ['' @ show_nats indices @ '']''"

datatype code = CodeOk | InvalidArgument | FailedPrecondition | Internal | Temporary

datatype status = Status (status_code: code) (status_message: string)

definition invalid_argument :: "string \<Rightarrow> status" where
  "invalid_argument msg = Status InvalidArgument msg"

definition failed_precondition :: "string \<Rightarrow> status" where
  "failed_precondition msg = Status FailedPrecondition msg"

definition internal_error :: "string \<Rightarrow> status" where
  "internal_error msg = Status Internal msg"

text \<open>\<^verbatim>\<open>impl From<ValidationError> for Status\<close>, which \<^verbatim>\<open>?\<close> applies.\<close>

fun status_of_validation_error :: "validation_error \<Rightarrow> status" where
  "status_of_validation_error (TemporaryPolicy s) = Status Temporary s"
| "status_of_validation_error ve = Status FailedPrecondition (validation_error_string ve)"

abbreviation into_status :: "(validation_error, 'a) outcome \<Rightarrow> (status, 'a) outcome" where
  "into_status \<equiv> map_err status_of_validation_error"

lemma status_code_temporary_iff:
  "status_code (status_of_validation_error ve) = Temporary \<longleftrightarrow> (\<exists>s. ve = TemporaryPolicy s)"
  by (cases ve) auto

lemma status_code_prepend_msg [simp]:
  "status_code (status_of_validation_error (prepend_msg p ve)) = status_code (status_of_validation_error ve)"
  by (cases ve) auto

section \<open>The policy filter\<close>

datatype filter_result = FilterError | FilterWarn

record filter_rule =
  rule_tag :: string
  is_prefix :: bool
  rule_action :: filter_result

definition new_warn :: "string \<Rightarrow> filter_rule" where
  "new_warn t = \<lparr>rule_tag = t, is_prefix = False, rule_action = FilterWarn\<rparr>"

definition new_error :: "string \<Rightarrow> filter_rule" where
  "new_error t = \<lparr>rule_tag = t, is_prefix = False, rule_action = FilterError\<rparr>"

record policy_filter =
  filter_rules :: "filter_rule list"

definition starts_with :: "string \<Rightarrow> string \<Rightarrow> bool" where
  "starts_with s p \<longleftrightarrow> take (length p) s = p"

definition rule_matches :: "filter_rule \<Rightarrow> string \<Rightarrow> bool" where
  "rule_matches r t = (if is_prefix r then starts_with t (rule_tag r) else t = rule_tag r)"

fun filter_loop :: "filter_rule list \<Rightarrow> string \<Rightarrow> filter_result" where
  "filter_loop [] t = FilterError"
| "filter_loop (r # rs) t = (if rule_matches r t then rule_action r else filter_loop rs t)"

definition policy_filter_filter :: "policy_filter \<Rightarrow> string \<Rightarrow> filter_result" where
  "policy_filter_filter f t = filter_loop (filter_rules f) t"

definition new_permissive :: policy_filter where
  "new_permissive =
     \<lparr>filter_rules = [\<lparr>rule_tag = '''', is_prefix = True, rule_action = FilterWarn\<rparr>]\<rparr>"

definition merge_filter :: "policy_filter \<Rightarrow> policy_filter \<Rightarrow> policy_filter" where
  "merge_filter f other = \<lparr>filter_rules = filter_rules f @ filter_rules other\<rparr>"

definition default_filter :: policy_filter where
  "default_filter = \<lparr>filter_rules = []\<rparr>"

text \<open>A tag is enforced by a filter when its violations stay errors.\<close>

abbreviation enforced :: "policy_filter \<Rightarrow> string \<Rightarrow> bool" where
  "enforced f t \<equiv> policy_filter_filter f t = FilterError"

lemma default_filter_enforced [simp]: "enforced default_filter t"
  by (simp add: policy_filter_filter_def default_filter_def)

lemma permissive_not_enforced [simp]: "policy_filter_filter new_permissive t = FilterWarn"
  by (simp add: policy_filter_filter_def new_permissive_def rule_matches_def starts_with_def)

lemma filter_loop_append:
  "filter_loop (rs @ rs') t =
     (if \<exists>r \<in> set rs. rule_matches r t then filter_loop rs t else filter_loop rs' t)"
  by (induction rs) auto

text \<open>
  The first matching rule decides: the filter's result is the action of the first rule that
  matches, and an error when there is none.
\<close>

lemma filter_first_match:
  "policy_filter_filter f t =
     (case filter (\<lambda>r. rule_matches r t) (filter_rules f) of
        [] \<Rightarrow> FilterError | r # _ \<Rightarrow> rule_action r)"
proof -
  have "filter_loop rs t =
     (case filter (\<lambda>r. rule_matches r t) rs of [] \<Rightarrow> FilterError | r # _ \<Rightarrow> rule_action r)" for rs
    by (induction rs) auto
  then show ?thesis by (simp add: policy_filter_filter_def)
qed

lemma merge_filter_precedence:
  "policy_filter_filter (merge_filter f g) t =
     (if \<exists>r \<in> set (filter_rules f). rule_matches r t
      then policy_filter_filter f t else policy_filter_filter g t)"
  by (simp add: policy_filter_filter_def merge_filter_def filter_loop_append)

section \<open>Raising a policy error\<close>

definition policy_error_with_filter ::
    "string \<Rightarrow> string \<Rightarrow> policy_filter \<Rightarrow> (validation_error, unit) outcome" where
  "policy_error_with_filter t msg f =
     (if policy_filter_filter f t = FilterError then Err (Policy msg) else Ok ())"

definition temporary_policy_error_with_filter ::
    "string \<Rightarrow> string \<Rightarrow> policy_filter \<Rightarrow> (validation_error, unit) outcome" where
  "temporary_policy_error_with_filter t msg f =
     (if policy_filter_filter f t = FilterError then Err (TemporaryPolicy msg) else Ok ())"

text \<open>
  The part of the \<^verbatim>\<open>Policy\<close> trait that checks call: a tag and a message go in, and either the
  error comes out or nothing happens.  Every check of the validators is written against this
  interface, so the facts below are proved once.
\<close>

locale policy_trait =
  fixes policy_error :: "string \<Rightarrow> string \<Rightarrow> (validation_error, unit) outcome"
    and enforces :: "string \<Rightarrow> bool"
  assumes policy_error_eq: "policy_error t m = (if enforces t then Err (Policy m) else Ok ())"
begin

lemma policy_error_iff:
  "policy_error t m = Ok u \<longleftrightarrow> \<not> enforces t"
  "policy_error t m = Err e \<longleftrightarrow> enforces t \<and> e = Policy m"
  "policy_error t m \<noteq> Panic"
  by (auto simp: policy_error_eq)

lemma check_passes_iff:
  "guarded b (policy_error t m) = Ok u \<longleftrightarrow> (b \<longrightarrow> \<not> enforces t)"
  by (simp add: guarded_def policy_error_eq)

lemma check_not_Panic: "guarded b (policy_error t m) \<noteq> Panic"
  by (simp add: guarded_def policy_error_eq)

text \<open>A check on an enforced tag that passes establishes the negation of its guard.\<close>

lemma check_passed:
  assumes "guarded b (policy_error t m) = Ok u" and "enforces t"
  shows "\<not> b"
  using assms by (simp add: check_passes_iff)

end

interpretation pf: policy_trait "\<lambda>t m. policy_error_with_filter t m f" "enforced f" for f
  by unfold_locales (simp add: policy_error_with_filter_def)

named_theorems policy_simps

lemmas [policy_simps] = pf.policy_error_iff pf.check_passes_iff

lemma temporary_policy_error_iff [policy_simps]:
  "temporary_policy_error_with_filter t m f = Ok u \<longleftrightarrow> \<not> enforced f t"
  "temporary_policy_error_with_filter t m f = Err e \<longleftrightarrow> enforced f t \<and> e = TemporaryPolicy m"
  "temporary_policy_error_with_filter t m f \<noteq> Panic"
  by (auto simp: temporary_policy_error_with_filter_def)

end
