(* ===== verification/Tx_Info.thy ===== *)
theory Tx_Info
  imports Policy_Core
begin

text \<open>
  The semantic content of a commitment transaction: \<^verbatim>\<open>HTLCInfo2\<close> and \<^verbatim>\<open>CommitmentInfo2\<close> of
  \<^verbatim>\<open>vls-core/src/tx/tx.rs\<close>, and the iterator \<^verbatim>\<open>AddedItemsIter\<close> of \<^verbatim>\<open>vls-core/src/util/mod.rs\<close>
  that compares two of them.  Public keys, hashes and scripts are byte strings.
\<close>

type_synonym pubkey = bytes
type_synonym payment_hash = bytes
type_synonym script = bytes

section \<open>HTLCs and their order\<close>

datatype htlc_info2 =
  HTLCInfo2 (value_sat: u64) (payment_hash: payment_hash) (cltv_expiry: u32)

text \<open>\<^verbatim>\<open>impl Ord for HTLCInfo2\<close>: by value, then by payment hash, then by expiry.\<close>

instantiation htlc_info2 :: linorder
begin

definition less_htlc_info2 :: "htlc_info2 \<Rightarrow> htlc_info2 \<Rightarrow> bool" where
  "less_htlc_info2 a b \<longleftrightarrow>
     value_sat a < value_sat b \<or>
     value_sat a = value_sat b \<and>
       (payment_hash a < payment_hash b \<or>
        payment_hash a = payment_hash b \<and> cltv_expiry a < cltv_expiry b)"

definition less_eq_htlc_info2 :: "htlc_info2 \<Rightarrow> htlc_info2 \<Rightarrow> bool" where
  "less_eq_htlc_info2 a b \<longleftrightarrow> a < b \<or> a = b"

instance
proof
  fix x y z :: htlc_info2
  show "x < y \<longleftrightarrow> x \<le> y \<and> \<not> y \<le> x"
    by (cases x; cases y) (auto simp: less_htlc_info2_def less_eq_htlc_info2_def)
  show "x \<le> x"
    by (simp add: less_eq_htlc_info2_def)
  show "x \<le> y \<Longrightarrow> y \<le> z \<Longrightarrow> x \<le> z"
    by (cases x; cases y; cases z) (auto simp: less_htlc_info2_def less_eq_htlc_info2_def)
  show "x \<le> y \<Longrightarrow> y \<le> x \<Longrightarrow> x = y"
    by (cases x; cases y) (auto simp: less_htlc_info2_def less_eq_htlc_info2_def)
  show "x \<le> y \<or> y \<le> x"
    by (cases x; cases y) (auto simp: less_htlc_info2_def less_eq_htlc_info2_def)
qed

end

section \<open>Items added between two sorted lists\<close>

text \<open>
  One call of \<^verbatim>\<open>AddedItemsIter::next\<close>: the item it yields, and what remains of \<open>from\<close> and \<open>to\<close>
  afterwards (with what the iterator put back).
\<close>

fun added_next :: "'a::linorder list \<Rightarrow> 'a list \<Rightarrow> 'a option \<times> 'a list \<times> 'a list" where
  "added_next [] [] = (None, [], [])"
| "added_next [] (t # ts) = (Some t, [], ts)"
| "added_next (f # fs) [] = (None, fs, [])"
| "added_next (f # fs) (t # ts) =
     (if f < t then added_next fs (t # ts)
      else if f = t then added_next fs ts
      else (Some t, f # fs, ts))"

lemma added_next_shorter:
  "added_next fs ts = (Some x, fs', ts') \<Longrightarrow> length ts' < length ts"
  by (induction fs ts rule: added_next.induct) (auto split: if_splits)

text \<open>Collecting the whole iterator.\<close>

function added_items :: "'a::linorder list \<Rightarrow> 'a list \<Rightarrow> 'a list" where
  "added_items fs ts =
     (case added_next fs ts of
        (None, fs', ts') \<Rightarrow> []
      | (Some x, fs', ts') \<Rightarrow> x # added_items fs' ts')"
  by pat_completeness auto
termination
  by (relation "measure (\<lambda>(fs, ts). length ts)") (auto dest: added_next_shorter [OF sym])

declare added_items.simps [simp del]

lemma added_items_simps [simp]:
  "added_items [] ts = ts"
  "added_items (f # fs) [] = []"
  "added_items (f # fs) (t # ts) =
     (if f < t then added_items fs (t # ts)
      else if f = t then added_items fs ts
      else t # added_items (f # fs) ts)"
proof -
  show "added_items [] ts = ts"
  proof (induction ts)
    case Nil
    then show ?case by (subst added_items.simps) simp
  next
    case (Cons t ts)
    then show ?case by (subst added_items.simps) simp
  qed
  show "added_items (f # fs) [] = []"
    by (subst added_items.simps) simp
  show "added_items (f # fs) (t # ts) =
     (if f < t then added_items fs (t # ts)
      else if f = t then added_items fs ts
      else t # added_items (f # fs) ts)"
    by (subst added_items.simps)
      (simp add: added_items.simps [of fs "t # ts"] added_items.simps [of fs ts] split del: if_split
        split: if_split)
qed

text \<open>On sorted lists the iterator yields exactly the multiset difference, in order.\<close>

lemma mset_diff_fresh:
  assumes "f \<notin># A"
  shows "A - add_mset f B = A - B"
proof -
  have "A - add_mset f B = A - {#f#} - B"
    by (simp add: diff_diff_add)
  with assms show ?thesis by (simp add: diff_single_trivial)
qed

lemma mset_added_items:
  assumes "sorted fs" and "sorted ts"
  shows "mset (added_items fs ts) = mset ts - mset fs"
  using assms
proof (induction "length fs + length ts" arbitrary: fs ts rule: less_induct)
  case less
  show ?case
  proof (cases "fs = [] \<or> ts = []")
    case True
    then show ?thesis by (cases fs) auto
  next
    case False
    then obtain f fs' t ts' where eq: "fs = f # fs'" "ts = t # ts'"
      by (meson neq_Nil_conv)
    show ?thesis
    proof (cases f t rule: linorder_cases)
      case (less)
      with \<open>sorted ts\<close> eq have "f \<notin># mset ts" by auto
      then have "mset ts - mset fs = mset ts - mset fs'"
        by (simp add: eq(1) mset_diff_fresh)
      with less less.hyps [of fs' ts] less.prems eq show ?thesis by simp
    next
      case equal
      with less.hyps [of fs' ts'] less.prems eq show ?thesis by simp
    next
      case greater
      with \<open>sorted fs\<close> eq have "t \<notin># mset fs" by auto
      with greater less.hyps [of fs ts'] less.prems eq show ?thesis
        by (auto simp: add_mset_diff_bothsides)
    qed
  qed
qed

section \<open>Commitment information\<close>

record commitment_info2 =
  is_counterparty_broadcaster :: bool
  to_countersigner_pubkey :: pubkey
  to_countersigner_value_sat :: u64
  revocation_pubkey :: pubkey
  to_broadcaster_delayed_pubkey :: pubkey
  to_broadcaster_value_sat :: u64
  to_self_delay :: u16
  offered_htlcs :: "htlc_info2 list"
  received_htlcs :: "htlc_info2 list"
  feerate_per_kw :: u32

definition commitment_info2_new ::
    "bool \<Rightarrow> pubkey \<Rightarrow> u64 \<Rightarrow> pubkey \<Rightarrow> pubkey \<Rightarrow> u64 \<Rightarrow> u16 \<Rightarrow>
     htlc_info2 list \<Rightarrow> htlc_info2 list \<Rightarrow> u32 \<Rightarrow> commitment_info2" where
  "commitment_info2_new cp_bcast countersigner_pk countersigner_val revocation_pk delayed_pk
       broadcaster_val delay offered received feerate =
     \<lparr>is_counterparty_broadcaster = cp_bcast,
      to_countersigner_pubkey = countersigner_pk,
      to_countersigner_value_sat = countersigner_val,
      revocation_pubkey = revocation_pk,
      to_broadcaster_delayed_pubkey = delayed_pk,
      to_broadcaster_value_sat = broadcaster_val,
      to_self_delay = delay,
      offered_htlcs = sort offered,
      received_htlcs = sort received,
      feerate_per_kw = feerate\<rparr>"

definition htlcs_is_empty :: "commitment_info2 \<Rightarrow> bool" where
  "htlcs_is_empty i \<longleftrightarrow> offered_htlcs i = [] \<and> received_htlcs i = []"

definition delta_offered_htlcs ::
    "commitment_info2 \<Rightarrow> commitment_info2 \<Rightarrow> htlc_info2 list \<times> htlc_info2 list" where
  "delta_offered_htlcs i new =
     (added_items (offered_htlcs i) (offered_htlcs new),
      added_items (offered_htlcs new) (offered_htlcs i))"

definition delta_received_htlcs ::
    "commitment_info2 \<Rightarrow> commitment_info2 \<Rightarrow> htlc_info2 list \<times> htlc_info2 list" where
  "delta_received_htlcs i new =
     (added_items (received_htlcs i) (received_htlcs new),
      added_items (received_htlcs new) (received_htlcs i))"

definition value_to_parties :: "commitment_info2 \<Rightarrow> u64 \<times> u64" where
  "value_to_parties i =
     (if is_counterparty_broadcaster i
      then (to_countersigner_value_sat i, to_broadcaster_value_sat i)
      else (to_broadcaster_value_sat i, to_countersigner_value_sat i))"

definition total_value :: "commitment_info2 \<Rightarrow> u64" where
  "total_value i =
     to_broadcaster_value_sat i + to_countersigner_value_sat i
     + sum_u64 (map value_sat (offered_htlcs i))
     + sum_u64 (map value_sat (received_htlcs i))"

text \<open>The HTLCs from our side: what we offered and what we were offered.\<close>

definition holder_htlcs :: "commitment_info2 \<Rightarrow> htlc_info2 list \<times> htlc_info2 list" where
  "holder_htlcs i =
     (if is_counterparty_broadcaster i
      then (received_htlcs i, offered_htlcs i)
      else (offered_htlcs i, received_htlcs i))"

text \<open>
  \<^verbatim>\<open>claimable_balance\<close>.  The preimage map is a predicate on payment hashes; the two loops add
  with \<^verbatim>\<open>checked_add(..).expect(..)\<close>, so an overflow is a panic.
\<close>

definition add_htlcs_if :: "(payment_hash \<Rightarrow> bool) \<Rightarrow> htlc_info2 list \<Rightarrow> u64 \<Rightarrow> ('e, u64) outcome" where
  "add_htlcs_if p =
     foldo (\<lambda>h balance. if p (payment_hash h) then unwrap (checked_add balance (value_sat h))
                        else Ok balance)"

definition claimable_balance ::
    "commitment_info2 \<Rightarrow> (payment_hash \<Rightarrow> bool) \<Rightarrow> bool \<Rightarrow> u64 \<Rightarrow> ('e, u64) outcome" where
  "claimable_balance i has_preimage is_outbound channel_value =
     (let balance = fst (value_to_parties i) in
      bindo (if is_outbound
             then bindo (unwrap (checked_sub channel_value (total_value i)))
                    (\<lambda>fee. unwrap (checked_add balance fee))
             else Ok balance) (\<lambda>balance.
      let (offered, received) = holder_htlcs i in
      bindo (add_htlcs_if (\<lambda>h. \<not> has_preimage h) offered balance)
        (add_htlcs_if has_preimage received)))"

text \<open>\<^verbatim>\<open>htlc_balance\<close>: received sum, offered sum, received count, offered count.\<close>

definition htlc_balance :: "commitment_info2 \<Rightarrow> ('e, u64 \<times> u64 \<times> u32 \<times> u32) outcome" where
  "htlc_balance i =
     (let (offered, received) = holder_htlcs i in
      bindo (add_htlcs_if (\<lambda>_. True) offered 0) (\<lambda>sum_offered.
      bindo (add_htlcs_if (\<lambda>_. True) received 0) (\<lambda>sum_received.
      Ok (sum_received, sum_offered, of_nat (length received), of_nat (length offered)))))"

section \<open>Balances are conserved\<close>

abbreviation sum_sat :: "htlc_info2 list \<Rightarrow> nat" where
  "sum_sat hs \<equiv> sum_list (map (unat \<circ> value_sat) hs)"

text \<open>The value of all outputs, counted without wrap-around.\<close>

definition output_total :: "commitment_info2 \<Rightarrow> nat" where
  "output_total i =
     unat (to_broadcaster_value_sat i) + unat (to_countersigner_value_sat i)
     + sum_sat (offered_htlcs i) + sum_sat (received_htlcs i)"

lemma unat_total_value:
  "output_total i < 2 ^ 64 \<Longrightarrow> unat (total_value i) = output_total i"
  by (simp add: total_value_def output_total_def unat_word_ariths unat_sum_u64 comp_def
      mod_simps add.assoc)

lemma sum_sat_filter_le: "sum_sat (filter p hs) \<le> sum_sat hs"
  by (induction hs) auto

lemma add_htlcs_if_ok:
  "unat b + sum_sat (filter (p \<circ> payment_hash) hs) < 2 ^ 64 \<Longrightarrow>
   \<exists>c. add_htlcs_if p hs b = Ok c \<and> unat c = unat b + sum_sat (filter (p \<circ> payment_hash) hs)"
proof (induction hs arbitrary: b)
  case Nil
  then show ?case by (simp add: add_htlcs_if_def)
next
  case (Cons h hs)
  show ?case
  proof (cases "p (payment_hash h)")
    case True
    with Cons.prems have "unat b + unat (value_sat h) < 2 ^ 64" by simp
    then have add: "checked_add b (value_sat h) = Some (b + value_sat h)"
      by (simp add: checked_add_Some_iff)
    then have u: "unat (b + value_sat h) = unat b + unat (value_sat h)"
      by (rule checked_add_unat)
    with Cons.IH [of "b + value_sat h"] Cons.prems True add show ?thesis
      by (simp add: add_htlcs_if_def unwrap_def add.assoc)
  next
    case False
    with Cons show ?thesis by (simp add: add_htlcs_if_def)
  qed
qed

text \<open>
  What the balance should be, as a natural number: our output, the fee when we pay it, the
  HTLCs we offered whose preimage is unknown and those offered to us whose preimage is known.
\<close>

definition claimable_spec :: "commitment_info2 \<Rightarrow> (payment_hash \<Rightarrow> bool) \<Rightarrow> bool \<Rightarrow> nat \<Rightarrow> nat" where
  "claimable_spec i pm outb cval =
     unat (fst (value_to_parties i))
     + (if outb then cval - output_total i else 0)
     + sum_sat (filter (Not \<circ> pm \<circ> payment_hash) (fst (holder_htlcs i)))
     + sum_sat (filter (pm \<circ> payment_hash) (snd (holder_htlcs i)))"

lemma claimable_spec_le:
  assumes "output_total i \<le> cval"
  shows "claimable_spec i pm outb cval \<le> cval"
proof -
  have "claimable_spec i pm outb cval \<le>
      unat (fst (value_to_parties i)) + (cval - output_total i)
      + sum_sat (fst (holder_htlcs i)) + sum_sat (snd (holder_htlcs i))"
    using sum_sat_filter_le [of "Not \<circ> pm \<circ> payment_hash" "fst (holder_htlcs i)"]
      sum_sat_filter_le [of "pm \<circ> payment_hash" "snd (holder_htlcs i)"]
    by (simp add: claimable_spec_def)
  also have "\<dots> \<le> cval"
    using assms by (auto simp: output_total_def value_to_parties_def holder_htlcs_def)
  finally show ?thesis .
qed

lemma claimable_balance_spec:
  assumes "output_total i \<le> unat cval"
  shows "\<exists>b. (claimable_balance i pm outb cval :: ('e, u64) outcome) = Ok b \<and> unat b = claimable_spec i pm outb (unat cval)"
proof -
  have ltc: "unat cval < 2 ^ 64" by (rule unat_lt_u64)
  with assms have ot: "unat (total_value i) = output_total i"
    by (intro unat_total_value) simp
  define b0 where "b0 = fst (value_to_parties i)"
  define fee where "fee = (if outb then unat cval - output_total i else 0)"
  have bound: "claimable_spec i pm outb (unat cval) < 2 ^ 64"
    using claimable_spec_le [OF assms, of pm outb] ltc by simp
  then have sum: "unat b0 + fee
      + sum_sat (filter (Not \<circ> pm \<circ> payment_hash) (fst (holder_htlcs i)))
      + sum_sat (filter (pm \<circ> payment_hash) (snd (holder_htlcs i))) < 2 ^ 64"
    by (simp add: claimable_spec_def b0_def fee_def)
  have "\<exists>b1. (if outb then bindo (unwrap (checked_sub cval (total_value i)))
                    (\<lambda>f. unwrap (checked_add b0 f)) else Ok b0) = (Ok b1 :: ('e, u64) outcome) \<and> unat b1 = unat b0 + fee"
  proof (cases outb)
    case True
    from assms ot have le: "total_value i \<le> cval" by (simp add: word_le_nat_alt)
    then have "checked_sub cval (total_value i) = Some (cval - total_value i)"
      by (simp add: checked_sub_Some_iff)
    moreover have f: "unat (cval - total_value i) = fee"
      using True le ot by (simp add: fee_def unat_sub)
    moreover from sum f have "checked_add b0 (cval - total_value i) = Some (b0 + (cval - total_value i))"
      by (simp add: checked_add_Some_iff)
    ultimately show ?thesis
      using True checked_add_unat by (fastforce simp: unwrap_def)
  next
    case False
    then show ?thesis by (simp add: fee_def)
  qed
  then obtain b1 where b1: "(if outb then bindo (unwrap (checked_sub cval (total_value i)))
                    (\<lambda>f. unwrap (checked_add b0 f)) else Ok b0) = (Ok b1 :: ('e, u64) outcome)" "unat b1 = unat b0 + fee"
    by blast
  obtain b2 where b2: "add_htlcs_if (\<lambda>h. \<not> pm h) (fst (holder_htlcs i)) b1 = (Ok b2 :: ('e, u64) outcome)"
    "unat b2 = unat b1 + sum_sat (filter (Not \<circ> pm \<circ> payment_hash) (fst (holder_htlcs i)))"
    using add_htlcs_if_ok [of b1 "\<lambda>h. \<not> pm h" "fst (holder_htlcs i)"] sum b1(2)
    by (auto simp: comp_def)
  obtain b3 where b3: "add_htlcs_if pm (snd (holder_htlcs i)) b2 = (Ok b3 :: ('e, u64) outcome)"
    "unat b3 = unat b2 + sum_sat (filter (pm \<circ> payment_hash) (snd (holder_htlcs i)))"
    using add_htlcs_if_ok [of b2 pm "snd (holder_htlcs i)"] sum b1(2) b2(2) by auto
  have "claimable_balance i pm outb cval = (Ok b3 :: ('e, u64) outcome)"
    using b1(1) b2(1) b3(1)
    by (cases outb) (simp_all add: claimable_balance_def b0_def [symmetric] split_beta)
  then show ?thesis
    using b1(2) b2(2) b3(2) by (simp add: claimable_spec_def b0_def fee_def)
qed

end
