(* ===== verification/Commitment_Secrets.thy ===== *)
theory Commitment_Secrets
  imports Tx_Info
begin

text \<open>
  \<^verbatim>\<open>CounterpartyCommitmentSecrets\<close> of \<^verbatim>\<open>vls-core/src/policy/validator.rs\<close>: the compact store of
  the counterparty's revocation secrets (BOLT 3).  SHA-256 is code outside the repository and is
  a parameter \<open>sha\<close> of every definition that uses it.  The main results are that a chain of
  secrets generated from one seed is accepted one by one, that every secret of the chain seen so
  far can be read back from the 49 slots, and that secrets not seen yet are reported as absent.
\<close>

section \<open>The store\<close>

type_synonym secret = bytes

record commitment_secrets =
  old_secrets :: "(secret \<times> u64) list"

definition secrets_new :: commitment_secrets where
  "secrets_new = \<lparr>old_secrets = map (\<lambda>_. (replicate 32 0, push_bit 48 1)) [0..<49]\<rparr>"

fun place_loop :: "nat list \<Rightarrow> u64 \<Rightarrow> nat" where
  "place_loop [] idx = 48"
| "place_loop (i # is) idx =
     (if idx AND push_bit i 1 = push_bit i 1 then i else place_loop is idx)"

definition place_secret :: "u64 \<Rightarrow> nat" where
  "place_secret idx = place_loop [0..<48] idx"

definition get_min_seen_secret :: "commitment_secrets \<Rightarrow> u64" where
  "get_min_seen_secret st =
     foldl (\<lambda>min e. if snd e < min then snd e else min) (push_bit 48 1) (old_secrets st)"

text \<open>
  \<^verbatim>\<open>derive_secret\<close>: the loop visits the bit positions \<open>bits - 1\<close> down to \<open>0\<close>; where the index has
  the bit set, it flips that bit of the value and hashes.
\<close>

definition flip_bit_at :: "secret \<Rightarrow> nat \<Rightarrow> secret" where
  "flip_bit_at res bitpos =
     res[bitpos div 8 := (res ! (bitpos div 8)) XOR push_bit (bitpos mod 8) 1]"

primrec derive_secret :: "(bytes \<Rightarrow> bytes) \<Rightarrow> secret \<Rightarrow> nat \<Rightarrow> u64 \<Rightarrow> secret" where
  "derive_secret sha res 0 idx = res"
| "derive_secret sha res (Suc bitpos) idx =
     derive_secret sha
       (if idx AND push_bit bitpos 1 = push_bit bitpos 1 then sha (flip_bit_at res bitpos) else res)
       bitpos idx"

text \<open>\<^verbatim>\<open>provide_secret\<close>: reading a slot that does not exist would panic; \<open>Err ()\<close> leaves the store as it was.\<close>

definition provide_check ::
    "(bytes \<Rightarrow> bytes) \<Rightarrow> commitment_secrets \<Rightarrow> secret \<Rightarrow> nat \<Rightarrow> nat \<Rightarrow> (unit, unit) outcome" where
  "provide_check sha st secret pos i =
     (if i < length (old_secrets st) then
        (let (old_secret, old_idx) = old_secrets st ! i in
         if derive_secret sha secret pos old_idx \<noteq> old_secret then Err () else Ok ())
      else Panic)"

definition provide_secret ::
    "(bytes \<Rightarrow> bytes) \<Rightarrow> commitment_secrets \<Rightarrow> u64 \<Rightarrow> secret \<Rightarrow> (unit, commitment_secrets) outcome" where
  "provide_secret sha st idx secret =
     (let pos = place_secret idx in
      bindo (checks (map (provide_check sha st secret pos) [0..<pos])) (\<lambda>_.
      if get_min_seen_secret st \<le> idx then Ok st
      else if pos < length (old_secrets st)
           then Ok (st\<lparr>old_secrets := (old_secrets st)[pos := (secret, idx)]\<rparr>)
           else Panic))"

text \<open>\<^verbatim>\<open>get_secret\<close>: the first slot whose index matches; the final \<^verbatim>\<open>assert!\<close> can panic.\<close>

fun get_secret_loop ::
    "(bytes \<Rightarrow> bytes) \<Rightarrow> (secret \<times> u64) list \<Rightarrow> nat \<Rightarrow> u64 \<Rightarrow> secret option" where
  "get_secret_loop sha [] i idx = None"
| "get_secret_loop sha (e # es) i idx =
     (if idx AND NOT (push_bit i 1 - 1) = snd e
      then Some (derive_secret sha (fst e) i idx)
      else get_secret_loop sha es (Suc i) idx)"

definition get_secret ::
    "(bytes \<Rightarrow> bytes) \<Rightarrow> commitment_secrets \<Rightarrow> u64 \<Rightarrow> (unit, secret option) outcome" where
  "get_secret sha st idx =
     (case get_secret_loop sha (old_secrets st) 0 idx of
        Some s \<Rightarrow> Ok (Some s)
      | None \<Rightarrow> bindo (asserts (idx < get_min_seen_secret st)) (\<lambda>_. Ok None))"

section \<open>Bit positions\<close>

lemma and_exp_iff:
  assumes "i < 64"
  shows "(idx :: u64) AND 2 ^ i = 2 ^ i \<longleftrightarrow> bit idx i"
proof
  assume "idx AND 2 ^ i = 2 ^ i"
  then have "bit (idx AND 2 ^ i) i" using assms by (simp add: bit_exp_iff)
  then show "bit idx i" by (simp add: bit_and_iff)
next
  assume "bit idx i"
  then show "idx AND 2 ^ i = 2 ^ i"
    by (intro bit_word_eqI) (auto simp: bit_and_iff bit_exp_iff)
qed

lemma bit_u64_unat: "bit (idx :: u64) i \<longleftrightarrow> bit (unat idx) i"
  by (simp add: bit_unsigned_iff)

text \<open>The position of an index, on natural numbers below \<open>2 ^ 48\<close>.\<close>

definition at_place :: "nat \<Rightarrow> nat \<Rightarrow> bool" where
  "at_place i n \<longleftrightarrow> i \<le> 48 \<and> 2 ^ i dvd n \<and> (i < 48 \<longrightarrow> odd (n div 2 ^ i))"

lemma at_place_unique: "at_place i n \<Longrightarrow> at_place j n \<Longrightarrow> i = j"
proof (induction i j rule: linorder_wlog)
  case (le i j)
  show ?case
  proof (rule ccontr)
    assume "i \<noteq> j"
    with le have "i < j" and "i < 48" by (auto simp: at_place_def)
    then have "2 ^ Suc i dvd n"
      using le by (meson at_place_def le_imp_power_dvd Suc_leI dvd_trans)
    then have "even (n div 2 ^ i)"
      by (auto elim!: dvdE)
    with le \<open>i < 48\<close> show False by (simp add: at_place_def)
  qed
qed (simp add: eq_commute)

lemma place_loop_spec:
  assumes "place_loop [m..<48] idx = i" and "m \<le> 48" and "2 ^ m dvd unat idx"
  shows "at_place i (unat idx)"
  using assms
proof (induction "48 - m" arbitrary: m)
  case 0
  then show ?case by (simp add: at_place_def)
next
  case (Suc d)
  then have m: "m < 48" "[m..<48] = m # [Suc m..<48]" by (auto simp: upt_conv_Cons)
  show ?case
  proof (cases "bit idx m")
    case True
    with Suc.prems m have "i = m" by (simp add: and_exp_iff)
    with True m Suc.prems(3) show ?thesis
      by (simp add: at_place_def bit_u64_unat bit_iff_odd)
  next
    case False
    with Suc.prems m have "place_loop [Suc m..<48] idx = i" by (simp add: and_exp_iff)
    moreover have "2 ^ Suc m dvd unat idx"
      using False Suc.prems(3) by (auto simp: bit_u64_unat bit_iff_odd elim!: dvdE)
    ultimately show ?thesis using Suc.hyps(1) [of "Suc m"] Suc.hyps(2) m by simp
  qed
qed

lemma place_secret_at_place: "at_place (place_secret idx) (unat idx)"
  using place_loop_spec [of 0 idx] by (simp add: place_secret_def)

lemma place_secret_le: "place_secret idx \<le> 48"
  using place_secret_at_place [of idx] by (simp add: at_place_def)

lemma at_place_add:
  assumes "2 ^ p dvd n" and "i < p" and "p \<le> 48"
  shows "at_place i (n + 2 ^ i)"
proof -
  from assms have "2 ^ Suc i dvd n"
    by (meson Suc_leI dvd_trans le_imp_power_dvd)
  then obtain q where "n = 2 ^ i * (2 * q)"
    by (auto elim!: dvdE simp: ac_simps)
  with assms show ?thesis
    by (simp add: at_place_def flip: add_mult_distrib2)
qed

section \<open>Deriving secrets\<close>

lemma derive_secret_Suc:
  "b < 64 \<Longrightarrow> derive_secret sha s (Suc b) idx =
     derive_secret sha (if bit idx b then sha (flip_bit_at s b) else s) b idx"
  by (simp add: and_exp_iff)

lemma derive_secret_no_bits:
  "b \<le> 48 \<Longrightarrow> 2 ^ b dvd unat idx \<Longrightarrow> derive_secret sha s b idx = s"
proof (induction b)
  case 0
  then show ?case by simp
next
  case (Suc b)
  then have "2 ^ b dvd unat idx" and "\<not> bit idx b"
    by (auto simp: bit_u64_unat bit_iff_odd elim!: dvdE)
  with Suc show ?case
    by (simp add: and_exp_iff)
qed

text \<open>
  Going down to an index in two stages: when \<open>i\<close> ends in \<open>b\<close> zero bits and agrees with \<open>j\<close>
  above, the secret of \<open>j\<close> is derived from the secret of \<open>i\<close> with \<open>b\<close> bits.
\<close>

lemma derive_secret_compose:
  assumes "b \<le> m" and "m \<le> 48" and "2 ^ b dvd unat i" and "unat i div 2 ^ b = unat j div 2 ^ b"
  shows "derive_secret sha (derive_secret sha s m i) b j = derive_secret sha s m j"
  using assms
proof (induction m arbitrary: s)
  case 0
  then show ?case by simp
next
  case (Suc m)
  show ?case
  proof (cases "b = Suc m")
    case True
    with Suc.prems show ?thesis by (simp only: derive_secret_no_bits)
  next
    case False
    with Suc.prems have "b \<le> m" by simp
    then have "unat x div 2 ^ m = unat x div 2 ^ b div 2 ^ (m - b)" for x :: u64
      by (simp flip: div_mult2_eq power_add)
    with Suc.prems(4) have "bit i m \<longleftrightarrow> bit j m"
      by (simp add: bit_u64_unat bit_iff_odd)
    with Suc \<open>b \<le> m\<close> show ?thesis
      by (simp add: and_exp_iff)
  qed
qed

text \<open>The secret of index \<open>idx\<close> in the chain generated from \<open>seed\<close> (BOLT 3).\<close>

definition chain_secret :: "(bytes \<Rightarrow> bytes) \<Rightarrow> secret \<Rightarrow> nat \<Rightarrow> secret" where
  "chain_secret sha seed n = derive_secret sha seed 48 (of_nat n)"

lemma unat_of_nat_48: "n \<le> 2 ^ 48 \<Longrightarrow> unat (of_nat n :: u64) = n"
  by (simp add: unat_of_nat)

lemma derive_chain_secret:
  assumes "b \<le> 48" and "i \<le> 2 ^ 48" and "j \<le> 2 ^ 48" and "2 ^ b dvd i" and "i div 2 ^ b = j div 2 ^ b"
  shows "derive_secret sha (chain_secret sha seed i) b (of_nat j) = chain_secret sha seed j"
  using assms by (simp add: chain_secret_def derive_secret_compose unat_of_nat_48)

section \<open>What the store holds\<close>

text \<open>
  \<open>first_at k i j\<close>: \<open>j\<close> is the least index of the chain from \<open>k\<close> on whose slot is \<open>i\<close>.
  The invariant \<open>holds_chain f k st\<close> says what each of the 49 slots contains once a secret
  \<open>f n\<close> has been accepted for every index \<open>n\<close> from \<open>2 ^ 48 - 1\<close> down to \<open>k\<close>.
\<close>

definition first_at :: "nat \<Rightarrow> nat \<Rightarrow> nat \<Rightarrow> bool" where
  "first_at k i j \<longleftrightarrow> k \<le> j \<and> j < 2 ^ 48 \<and> at_place i j \<and> (\<forall>j'. k \<le> j' \<and> j' < j \<longrightarrow> \<not> at_place i j')"

definition slot_ok :: "(nat \<Rightarrow> secret) \<Rightarrow> nat \<Rightarrow> nat \<Rightarrow> secret \<times> u64 \<Rightarrow> bool" where
  "slot_ok f k i e \<longleftrightarrow>
     (\<exists>j. first_at k i j \<and> e = (f j, of_nat j)) \<or>
     ((\<forall>j. k \<le> j \<and> j < 2 ^ 48 \<longrightarrow> \<not> at_place i j) \<and> snd e = push_bit 48 1)"

definition holds_chain :: "(nat \<Rightarrow> secret) \<Rightarrow> nat \<Rightarrow> commitment_secrets \<Rightarrow> bool" where
  "holds_chain f k st \<longleftrightarrow>
     k \<le> 2 ^ 48 \<and> length (old_secrets st) = 49 \<and> (\<forall>i < 49. slot_ok f k i (old_secrets st ! i))"

lemma first_at_unique: "first_at k i j \<Longrightarrow> first_at k i j' \<Longrightarrow> j = j'"
  unfolding first_at_def by (meson linorder_neqE_nat)

lemma first_at_self: "at_place i k \<Longrightarrow> k < 2 ^ 48 \<Longrightarrow> first_at k i k"
  unfolding first_at_def by auto

lemma first_at_exists:
  assumes "k \<le> j" and "j < 2 ^ 48" and "at_place i j"
  shows "\<exists>j0 \<le> j. first_at k i j0"
  using assms
proof (induction j rule: less_induct)
  case (less j)
  show ?case
  proof (cases "first_at k i j")
    case False
    then obtain j' where "k \<le> j'" "j' < j" "at_place i j'"
      using less.prems unfolding first_at_def by blast
    with less show ?thesis by (meson less_imp_le less_trans order_trans)
  qed auto
qed

lemma slot_okD:
  assumes "slot_ok f k i e" and "first_at k i j"
  shows "e = (f j, of_nat j)"
  using assms(1) unfolding slot_ok_def
proof (elim disjE exE conjE)
  fix j' assume "first_at k i j'" and "e = (f j', of_nat j')"
  with first_at_unique [OF assms(2)] show ?thesis by simp
next
  assume "\<forall>j. k \<le> j \<and> j < 2 ^ 48 \<longrightarrow> \<not> at_place i j"
  with assms(2) show ?thesis unfolding first_at_def by blast
qed

lemma slot_ok_index:
  assumes "slot_ok f k i e"
  shows "unat (snd e) = 2 ^ 48 \<or> (\<exists>j. first_at k i j \<and> e = (f j, of_nat j))"
  using assms unfolding slot_ok_def by (elim disjE) auto

lemma holds_chain_new: "holds_chain f (2 ^ 48) secrets_new"
  unfolding holds_chain_def slot_ok_def secrets_new_def by auto

lemma min_seen_foldl:
  "foldl (\<lambda>min e. if snd e < min then snd e else min) (m :: u64) es = Min (insert m (snd ` set es))"
proof (induction es arbitrary: m)
  case (Cons e es)
  have "(if snd e < m then snd e else m) = min m (snd e)"
    by (auto simp: min_def)
  with Cons show ?case
    by (cases "es = []") (simp_all add: min.assoc insert_commute min.commute)
qed simp

lemma get_min_seen_Min:
  "get_min_seen_secret st = Min (insert (push_bit 48 1) (snd ` set (old_secrets st)))"
  by (simp add: get_min_seen_secret_def min_seen_foldl)

lemma at_place_exists: "n < 2 ^ 48 \<Longrightarrow> \<exists>i < 49. at_place i n"
  using place_secret_at_place [of "of_nat n"] place_secret_le [of "of_nat n"]
  by (auto simp: unat_of_nat_48 intro!: exI [of _ "place_secret (of_nat n)"])

lemma holds_chain_index_ge:
  assumes "holds_chain f k st" and "e \<in> set (old_secrets st)"
  shows "k \<le> unat (snd e)"
proof -
  from assms obtain i where "slot_ok f k i e"
    by (auto simp: holds_chain_def in_set_conv_nth)
  from slot_ok_index [OF this] assms(1) show ?thesis
    by (auto simp: first_at_def unat_of_nat_48 holds_chain_def)
qed

lemma holds_chain_min_seen:
  assumes "holds_chain f k st"
  shows "get_min_seen_secret st = of_nat k"
proof -
  let ?A = "insert (push_bit 48 1) (snd ` set (old_secrets st)) :: u64 set"
  have k: "k \<le> 2 ^ 48" using assms by (simp add: holds_chain_def)
  have "of_nat k \<in> ?A"
  proof (cases "k = 2 ^ 48")
    case False
    with k obtain i where i: "i < 49" "at_place i k"
      using at_place_exists [of k] by auto
    with False k have "first_at k i k" by (simp add: first_at_self)
    with i assms have "old_secrets st ! i = (f k, of_nat k)"
      by (auto simp: holds_chain_def intro: slot_okD)
    with i assms show ?thesis
      by (force simp: holds_chain_def image_iff in_set_conv_nth)
  qed simp
  moreover have "of_nat k \<le> w" if "w \<in> ?A" for w
    using that k holds_chain_index_ge [OF assms]
    by (auto simp: word_le_nat_alt unat_of_nat_48)
  ultimately show ?thesis
    by (auto simp: get_min_seen_Min intro!: Min_eqI)
qed

section \<open>Providing the next secret\<close>

lemma block_bound:
  assumes "2 ^ p dvd k" and "k < 2 ^ 48" and "p \<le> 48"
  shows "k + 2 ^ p \<le> (2 :: nat) ^ 48"
proof -
  from assms have "2 ^ p dvd (2 :: nat) ^ 48 - k"
    by (intro dvd_diff_nat le_imp_power_dvd)
  moreover have "0 < (2 :: nat) ^ 48 - k" using assms(2) by simp
  ultimately have "2 ^ p \<le> (2 :: nat) ^ 48 - k" by (rule dvd_imp_le)
  with assms(2) show ?thesis by linarith
qed

lemma same_block:
  assumes "2 ^ p dvd k" and "k \<le> j" and "j < k + (2 :: nat) ^ p"
  shows "k div 2 ^ p = j div 2 ^ p"
proof -
  from assms(1) obtain q where q: "k = 2 ^ p * q" by (elim dvdE)
  with assms have "j = 2 ^ p * q + (j - k)" and "j - k < 2 ^ p" by auto
  with q show ?thesis
    by (metis add.right_neutral div_less div_mult_self4 nonzero_mult_div_cancel_left
        power_not_zero zero_neq_numeral)
qed

text \<open>The slots below the position of \<open>k\<close> hold secrets of the block of indices that \<open>k\<close> opens.\<close>

lemma lower_slot:
  assumes "holds_chain f (Suc k) st" and "at_place p k" and "i < p"
  shows "\<exists>j. old_secrets st ! i = (f j, of_nat j) \<and> j < 2 ^ 48 \<and>
             k div 2 ^ p = j div 2 ^ p"
proof -
  from assms have p: "2 ^ p dvd k" "p \<le> 48" and k: "k < 2 ^ 48"
    by (auto simp: at_place_def holds_chain_def)
  have lt: "k + 2 ^ i < k + 2 ^ p" using assms(3) by simp
  have "at_place i (k + 2 ^ i)" using at_place_add p assms(3) by blast
  moreover have "k + 2 ^ i < 2 ^ 48" using lt block_bound [OF p(1) k p(2)] by linarith
  ultimately obtain j where j: "j \<le> k + 2 ^ i" "first_at (Suc k) i j"
    using first_at_exists [of "Suc k" "k + 2 ^ i" i] by auto
  have "old_secrets st ! i = (f j, of_nat j)"
    using assms p(2) by (intro slot_okD [OF _ j(2)]) (simp add: holds_chain_def)
  moreover have "k div 2 ^ p = j div 2 ^ p"
    using p(1) j(2) le_less_trans [OF j(1) lt] by (intro same_block) (auto simp: first_at_def)
  moreover have "j < 2 ^ 48" using j(2) by (simp add: first_at_def)
  ultimately show ?thesis by blast
qed

lemma first_at_step: "\<not> at_place i k \<Longrightarrow> first_at (Suc k) i j \<Longrightarrow> first_at k i j"
  unfolding first_at_def by (metis Suc_leD Suc_leI le_neq_implies_less)

lemma slot_ok_step:
  assumes "\<not> at_place i k" and "slot_ok f (Suc k) i e"
  shows "slot_ok f k i e"
  using assms unfolding slot_ok_def
  by (metis Suc_leI first_at_step le_neq_implies_less)

lemma holds_chain_update:
  assumes "holds_chain f (Suc k) st" and "at_place p k"
  shows "holds_chain f k
           (st\<lparr>old_secrets := (old_secrets st)[p := (f k, of_nat k)]\<rparr>)"
proof -
  have "slot_ok f k i ((old_secrets st)[p := (f k, of_nat k)] ! i)"
    if "i < 49" for i
  proof (cases "i = p")
    case True
    with assms that have "first_at k i k" by (simp add: first_at_self holds_chain_def)
    with True assms(1) that show ?thesis
      by (auto simp: slot_ok_def holds_chain_def)
  next
    case False
    with assms(2) have "\<not> at_place i k" using at_place_unique by blast
    with False assms(1) that show ?thesis
      by (auto simp: holds_chain_def intro: slot_ok_step)
  qed
  with assms(1) show ?thesis by (simp add: holds_chain_def)
qed

definition below_checked :: "(bytes \<Rightarrow> bytes) \<Rightarrow> (nat \<Rightarrow> secret) \<Rightarrow> commitment_secrets \<Rightarrow> nat \<Rightarrow> bool" where
  "below_checked sha f st k \<longleftrightarrow>
     (\<forall>i < place_secret (of_nat k).
        derive_secret sha (f k) (place_secret (of_nat k)) (snd (old_secrets st ! i)) =
        fst (old_secrets st ! i))"

lemma provide_secret_Ok_iff:
  assumes "holds_chain f (Suc k) st"
  shows "provide_secret sha st (of_nat k) (f k) = Ok st' \<longleftrightarrow>
         below_checked sha f st k \<and>
         st' = st\<lparr>old_secrets := (old_secrets st)[place_secret (of_nat k) := (f k, of_nat k)]\<rparr>"
proof -
  have k: "k < 2 ^ 48" and len: "length (old_secrets st) = 49"
    using assms by (auto simp: holds_chain_def)
  have "\<not> get_min_seen_secret st \<le> of_nat k"
    using holds_chain_min_seen [OF assms] k
    by (simp add: word_le_nat_alt unat_of_nat_48 del: of_nat_Suc)
  then show ?thesis
    using len place_secret_le [of "of_nat k"]
    by (auto simp: provide_secret_def Let_def bindo_Ok_iff checks_Ok_iff provide_check_def
        below_checked_def case_prod_unfold split: if_splits)
qed

lemma chain_secret_checked:
  assumes "holds_chain (chain_secret sha seed) (Suc k) st"
  shows "below_checked sha (chain_secret sha seed) st k"
  unfolding below_checked_def
proof (intro allI impI)
  define p where "p = place_secret (of_nat k)"
  have k: "k < 2 ^ 48" using assms by (simp add: holds_chain_def)
  have p: "at_place p k" "p \<le> 48" "2 ^ p dvd k"
    using place_secret_at_place [of "of_nat k"] k
    by (auto simp: p_def unat_of_nat_48 at_place_def)
  fix i assume "i < place_secret (of_nat k)"
  then obtain j where "old_secrets st ! i = (chain_secret sha seed j, of_nat j)" "j < 2 ^ 48"
      "k div 2 ^ p = j div 2 ^ p"
    using lower_slot [OF assms p(1)] by (auto simp: p_def)
  with p k show "derive_secret sha (chain_secret sha seed k) (place_secret (of_nat k))
      (snd (old_secrets st ! i)) = fst (old_secrets st ! i)"
    by (simp add: derive_chain_secret flip: p_def)
qed

section \<open>Reading a secret back\<close>

lemma unat_clear_low:
  "unat ((idx :: u64) AND NOT (push_bit i 1 - 1)) = unat idx div 2 ^ i * 2 ^ i"
proof -
  have "unat (idx AND NOT (mask i)) = push_bit i (drop_bit i (unat idx))"
    by (rule bit_eqI)
      (auto simp: bit_unsigned_iff bit_and_iff bit_not_iff bit_mask_iff bit_push_bit_iff
        bit_drop_bit_eq dest: bit_imp_le_length)
  then show ?thesis
    by (simp add: mask_eq_exp_minus_1 push_bit_eq_mult drop_bit_eq_div)
qed

lemma get_secret_loop_Some:
  assumes "i < length es" and "idx AND NOT (push_bit (m + i) 1 - 1) = snd (es ! i)"
    and "\<And>i. i < length es \<Longrightarrow> idx AND NOT (push_bit (m + i) 1 - 1) = snd (es ! i) \<Longrightarrow>
          derive_secret sha (fst (es ! i)) (m + i) idx = s"
  shows "get_secret_loop sha es m idx = Some s"
  using assms
proof (induction es arbitrary: m i)
  case (Cons e es)
  show ?case
  proof (cases "idx AND NOT (push_bit m 1 - 1) = snd e")
    case True
    with Cons.prems(3) [of 0] show ?thesis by simp
  next
    case False
    with Cons.prems(2) obtain i' where i: "i = Suc i'" by (cases i) auto
    have "get_secret_loop sha es (Suc m) idx = Some s"
    proof (rule Cons.IH)
      show "i' < length es" using Cons.prems(1) i by simp
      show "idx AND NOT (push_bit (Suc m + i') 1 - 1) = snd (es ! i')"
        using Cons.prems(2) i by simp
      show "derive_secret sha (fst (es ! j)) (Suc m + j) idx = s"
        if "j < length es" "idx AND NOT (push_bit (Suc m + j) 1 - 1) = snd (es ! j)" for j
        using Cons.prems(3) [of "Suc j"] that by simp
    qed
    with False show ?thesis by simp
  qed
qed simp

lemma get_secret_loop_None:
  "(\<And>i. i < length es \<Longrightarrow> idx AND NOT (push_bit (m + i) 1 - 1) \<noteq> snd (es ! i)) \<Longrightarrow>
   get_secret_loop sha es m idx = None"
proof (induction es arbitrary: m)
  case (Cons e es)
  from Cons.prems [of 0] have "idx AND NOT (push_bit m 1 - 1) \<noteq> snd e" by simp
  moreover have "get_secret_loop sha es (Suc m) idx = None"
    using Cons.prems [of "Suc i" for i] by (intro Cons.IH) simp
  ultimately show ?case by simp
qed simp

text \<open>
  \<open>lower n i\<close> is \<open>n\<close> with its \<open>i\<close> lowest bits cleared; the slot \<open>i\<close> serves the index \<open>n\<close> when
  it holds the secret of \<open>lower n i\<close>.
\<close>

definition lower :: "nat \<Rightarrow> nat \<Rightarrow> nat" where
  "lower n i = n div 2 ^ i * 2 ^ i"

lemma lower_le: "lower n i \<le> n"
  by (simp add: lower_def)

lemma lower_antimono: "i \<le> j \<Longrightarrow> lower n j \<le> lower n i"
proof -
  assume "i \<le> j"
  then have "n div 2 ^ j * 2 ^ j = n div 2 ^ i div 2 ^ (j - i) * 2 ^ (j - i) * 2 ^ i"
    by (simp add: mult.assoc flip: div_mult2_eq power_add)
  also have "\<dots> \<le> n div 2 ^ i * 2 ^ i"
    by (intro mult_right_mono) auto
  finally show ?thesis by (simp add: lower_def)
qed

lemma lower_div: "lower n i div 2 ^ i = n div 2 ^ i" and lower_dvd: "2 ^ i dvd lower n i"
  by (simp_all add: lower_def)

lemma unat_lower:
  "n < 2 ^ 48 \<Longrightarrow> unat (of_nat n AND NOT (push_bit i 1 - 1) :: u64) = lower n i"
  by (simp only: unat_clear_low unat_of_nat_48 less_imp_le lower_def)

lemma slot_serves_iff:
  assumes "holds_chain f k st" and "n < 2 ^ 48" and "i < 49"
  shows "of_nat n AND NOT (push_bit i 1 - 1) = snd (old_secrets st ! i) \<longleftrightarrow>
         first_at k i (lower n i)"
    (is "?l \<longleftrightarrow> ?r")
proof -
  have eq: "?l \<longleftrightarrow> lower n i = unat (snd (old_secrets st ! i))"
    using unat_lower [OF assms(2), of i] by (metis word_unat_eq_iff)
  have slot: "slot_ok f k i (old_secrets st ! i)"
    using assms(1,3) by (simp add: holds_chain_def)
  show ?thesis
  proof
    assume ?l
    with eq have l: "lower n i = unat (snd (old_secrets st ! i))" by simp
    with assms(2) lower_le [of n i] have "unat (snd (old_secrets st ! i)) \<noteq> 2 ^ 48" by linarith
    then obtain j where j: "first_at k i j" "old_secrets st ! i = (f j, of_nat j)"
      using slot_ok_index [OF slot] by blast
    then have "j = lower n i" using l by (simp add: first_at_def unat_of_nat_48)
    with j(1) show ?r by simp
  next
    assume ?r
    with slot_okD [OF slot this] have "lower n i = unat (snd (old_secrets st ! i))"
      by (simp add: first_at_def unat_of_nat_48)
    with eq show ?l by simp
  qed
qed

text \<open>Every index seen so far is served by some slot.\<close>

lemma first_at_lower:
  assumes "lower n (Suc i) < k" and "k \<le> lower n i" and "n < 2 ^ 48" and "i < 48"
  shows "first_at k i (lower n i)"
proof -
  have parity: "m = 2 * (m div 2) \<or> m = 2 * (m div 2) + 1" for m :: nat by presburger
  have "n div 2 ^ i = 2 * (n div 2 ^ Suc i) \<or> n div 2 ^ i = 2 * (n div 2 ^ Suc i) + 1"
    using parity [of "n div 2 ^ i"] by (simp only: power_Suc2 div_mult2_eq)
  then have "lower n i = lower n (Suc i) \<or> lower n i = lower n (Suc i) + 2 ^ i"
    by (auto simp: lower_def algebra_simps)
  with assms(1,2) have l: "lower n i = lower n (Suc i) + 2 ^ i" by linarith
  with assms(4) have "at_place i (lower n i)"
    using at_place_add [OF lower_dvd, of i "Suc i" n] by simp
  moreover have "\<not> at_place i j" if j: "k \<le> j" "j < lower n i" for j
  proof
    assume "at_place i j"
    then have "2 ^ i dvd j" by (simp add: at_place_def)
    moreover have "2 ^ i dvd lower n (Suc i)"
      by (rule dvd_trans [OF _ lower_dvd]) simp
    ultimately have "2 ^ i dvd j - lower n (Suc i)" by (rule dvd_diff_nat)
    with j assms(1) have "2 ^ i \<le> j - lower n (Suc i)" by (auto intro: dvd_imp_le)
    with j l assms(1) show False by linarith
  qed
  ultimately show ?thesis
    using assms lower_le [of n i] unfolding first_at_def by (meson le_less_trans)
qed

lemma some_slot_serves:
  assumes "k \<le> n" and "n < 2 ^ 48"
  shows "\<exists>i < 49. first_at k i (lower n i)"
proof (cases "\<exists>i < 48. lower n (Suc i) < k \<and> k \<le> lower n i")
  case True
  then obtain i where "i < 48" and "first_at k i (lower n i)"
    using first_at_lower assms(2) by blast
  then show ?thesis by (intro exI [of _ i]) simp
next
  case False
  have "k \<le> lower n i" if "i \<le> 48" for i
    using that
  proof (induction i)
    case 0
    then show ?case using assms(1) by (simp add: lower_def)
  next
    case (Suc i)
    then have "i < 48" and "k \<le> lower n i" by simp_all
    with False have "\<not> lower n (Suc i) < k" by blast
    then show ?case by simp
  qed
  from this [of 48] have "k = 0" using assms(2) by (simp add: lower_def)
  then have "first_at k 48 (lower n 48)"
    using assms(2) by (simp add: lower_def first_at_def at_place_def)
  then show ?thesis by (intro exI [of _ 48]) simp
qed

text \<open>
  \<open>readable sha f k\<close>: whichever slot serves an index seen so far, the secret derived from that
  slot is the one that was provided.
\<close>

definition readable :: "(bytes \<Rightarrow> bytes) \<Rightarrow> (nat \<Rightarrow> secret) \<Rightarrow> nat \<Rightarrow> bool" where
  "readable sha f k \<longleftrightarrow>
     (\<forall>i n. i < 49 \<and> n < 2 ^ 48 \<and> first_at k i (lower n i) \<longrightarrow>
        derive_secret sha (f (lower n i)) i (of_nat n) = f n)"

lemma readable_opened_block:
  assumes "holds_chain f (Suc k) st" and "readable sha f (Suc k)" and "below_checked sha f st k"
    and "n < 2 ^ 48" and "lower n p = k" and p: "p = place_secret (of_nat k)"
  shows "derive_secret sha (f k) p (of_nat n) = f n"
proof -
  have k: "k < 2 ^ 48" using assms(1) by (simp add: holds_chain_def)
  have p48: "p \<le> 48" "2 ^ p dvd k"
    using place_secret_at_place [of "of_nat k"] k by (auto simp: p unat_of_nat_48 at_place_def)
  show ?thesis
  proof (cases "n = k")
    case True
    with p48 k show ?thesis by (simp add: derive_secret_no_bits unat_of_nat_48)
  next
    case False
    with assms(5) lower_le [of n p] have "Suc k \<le> n" by simp
    then obtain i where i: "i < 49" "first_at (Suc k) i (lower n i)"
      using some_slot_serves assms(4) by blast
    then have "i < p"
      using lower_antimono [of p i n] assms(5) by (fastforce simp: first_at_def)
    moreover have "old_secrets st ! i = (f (lower n i), of_nat (lower n i))"
      using assms(1) i by (auto simp: holds_chain_def intro: slot_okD)
    ultimately have "derive_secret sha (f k) p (of_nat (lower n i)) = f (lower n i)"
      using assms(3) by (auto simp: below_checked_def p)
    moreover have "derive_secret sha (f (lower n i)) i (of_nat n) = f n"
      using assms(2,4) i by (simp add: readable_def)
    ultimately show ?thesis
      using derive_secret_compose [of i p "of_nat (lower n i)" "of_nat n" sha "f k"] \<open>i < p\<close> p48
        assms(4) lower_le [of n i] lower_dvd [of i n] lower_div [of n i]
      by (simp add: unat_of_nat_48)
  qed
qed

lemma readable_step:
  assumes "holds_chain f (Suc k) st" and "readable sha f (Suc k)" and "below_checked sha f st k"
  shows "readable sha f k"
  unfolding readable_def
proof (intro allI impI, elim conjE)
  fix i n assume n: "i < 49" "n < 2 ^ 48" "first_at k i (lower n i)"
  have k: "k < 2 ^ 48" using assms(1) by (simp add: holds_chain_def)
  show "derive_secret sha (f (lower n i)) i (of_nat n) = f n"
  proof (cases "lower n i = k")
    case True
    with n(3) have "at_place i k" by (simp add: first_at_def)
    then have "i = place_secret (of_nat k)"
      using place_secret_at_place [of "of_nat k"] k
      by (auto simp: unat_of_nat_48 intro: at_place_unique)
    with readable_opened_block [OF assms n(2)] True show ?thesis by simp
  next
    case False
    with n(3) have "first_at (Suc k) i (lower n i)"
      unfolding first_at_def by (metis Suc_leD Suc_leI le_neq_implies_less)
    with assms(2) n show ?thesis by (simp add: readable_def)
  qed
qed

lemma get_secret_seen:
  assumes "holds_chain f k st" and "readable sha f k" and "k \<le> n" and "n < 2 ^ 48"
  shows "get_secret sha st (of_nat n) = Ok (Some (f n))"
proof -
  have len: "length (old_secrets st) = 49" using assms(1) by (simp add: holds_chain_def)
  obtain i where i: "i < 49" "first_at k i (lower n i)"
    using some_slot_serves assms(3,4) by blast
  have "get_secret_loop sha (old_secrets st) 0 (of_nat n) = Some (f n)"
  proof (rule get_secret_loop_Some)
    show "i < length (old_secrets st)" using i len by simp
    show "of_nat n AND NOT (push_bit (0 + i) 1 - 1) = snd (old_secrets st ! i)"
      using slot_serves_iff [OF assms(1,4) i(1)] i(2) by simp
  next
    fix m assume m: "m < length (old_secrets st)"
      "of_nat n AND NOT (push_bit (0 + m) 1 - 1) = snd (old_secrets st ! m)"
    then have "first_at k m (lower n m)"
      using slot_serves_iff [OF assms(1,4), of m] len by simp
    moreover from this have "old_secrets st ! m = (f (lower n m), of_nat (lower n m))"
      using assms(1) m(1) len by (auto simp: holds_chain_def intro: slot_okD)
    ultimately show "derive_secret sha (fst (old_secrets st ! m)) (0 + m) (of_nat n) = f n"
      using assms(2,4) m(1) len by (simp add: readable_def)
  qed
  then show ?thesis by (simp add: get_secret_def)
qed

lemma get_secret_unseen:
  assumes "holds_chain f k st" and "n < k"
  shows "get_secret sha st (of_nat n) = Ok None"
proof -
  have n: "n < 2 ^ 48" and len: "length (old_secrets st) = 49"
    using assms by (auto simp: holds_chain_def)
  have "get_secret_loop sha (old_secrets st) 0 (of_nat n) = None"
  proof (rule get_secret_loop_None)
    fix i assume "i < length (old_secrets st)"
    moreover have "\<not> first_at k i (lower n i)"
      using assms(2) lower_le [of n i] by (auto simp: first_at_def)
    ultimately show "of_nat n AND NOT (push_bit (0 + i) 1 - 1) \<noteq> snd (old_secrets st ! i)"
      using slot_serves_iff [OF assms(1) n, of i] len by simp
  qed
  moreover have "(of_nat n :: u64) < of_nat k"
    using assms by (simp add: word_less_nat_alt unat_of_nat_48 holds_chain_def)
  ultimately show ?thesis
    by (simp add: get_secret_def holds_chain_min_seen [OF assms(1)] asserts_def)
qed

section \<open>Runs of the revocation protocol\<close>

text \<open>The counterparty reveals the secrets of the \<open>n\<close> highest indices, one after the other.\<close>

primrec provide_run ::
    "(bytes \<Rightarrow> bytes) \<Rightarrow> (nat \<Rightarrow> secret) \<Rightarrow> nat \<Rightarrow> (unit, commitment_secrets) outcome" where
  "provide_run sha f 0 = Ok secrets_new"
| "provide_run sha f (Suc n) =
     bindo (provide_run sha f n) (\<lambda>st.
       provide_secret sha st (of_nat (2 ^ 48 - Suc n)) (f (2 ^ 48 - Suc n)))"

lemma provide_run_holds:
  assumes "n \<le> 2 ^ 48" and "provide_run sha f n = Ok st"
  shows "holds_chain f (2 ^ 48 - n) st \<and> readable sha f (2 ^ 48 - n)"
  using assms
proof (induction n arbitrary: st)
  case 0
  then show ?case
    using holds_chain_new [of f] by (auto simp: readable_def first_at_def)
next
  case (Suc n)
  define k where "k = (2 :: nat) ^ 48 - Suc n"
  have k: "2 ^ 48 - n = Suc k" using Suc.prems(1) by (simp add: k_def)
  from Suc.prems(2) obtain st0 where st0: "provide_run sha f n = Ok st0"
    and st: "provide_secret sha st0 (of_nat k) (f k) = Ok st"
    unfolding provide_run.simps k_def [symmetric] bindo_Ok_iff by blast
  have IH: "holds_chain f (Suc k) st0" "readable sha f (Suc k)"
    using Suc.IH [OF _ st0] Suc.prems(1) k by auto
  from st provide_secret_Ok_iff [OF IH(1)] have "below_checked sha f st0 k"
    and "st = st0\<lparr>old_secrets := (old_secrets st0)[place_secret (of_nat k) := (f k, of_nat k)]\<rparr>"
    by auto
  moreover have "at_place (place_secret (of_nat k)) k"
    using place_secret_at_place [of "of_nat k"] by (simp add: unat_of_nat_48 k_def)
  ultimately show ?case
    using holds_chain_update [OF IH(1)] readable_step [OF IH]
    unfolding k_def [symmetric] by blast
qed

lemma provide_run_chain_Ok:
  "n \<le> 2 ^ 48 \<Longrightarrow> \<exists>st. provide_run sha (chain_secret sha seed) n = Ok st"
proof (induction n)
  case (Suc n)
  define k where "k = (2 :: nat) ^ 48 - Suc n"
  have k: "2 ^ 48 - n = Suc k" using Suc.prems by (simp add: k_def)
  from Suc obtain st where st: "provide_run sha (chain_secret sha seed) n = Ok st" by auto
  with provide_run_holds [OF _ st] Suc.prems k
  have "holds_chain (chain_secret sha seed) (Suc k) st" by simp
  from provide_secret_Ok_iff [OF this] chain_secret_checked [OF this] st show ?case
    unfolding provide_run.simps k_def [symmetric] by (auto simp: bindo_Ok_iff)
qed simp

text \<open>
  C0: The 49-slot store loses nothing and invents nothing.  Whatever secrets \<open>f\<close> the
  counterparty reveals for the \<open>n\<close> highest indices, if every one of them was accepted by
  \<^verbatim>\<open>provide_secret\<close>, then \<^verbatim>\<open>get_secret\<close> returns exactly the secret revealed for each of
  those indices, returns \<^verbatim>\<open>None\<close> for every other index, and never panics.
\<close>

theorem provided_secrets_readable:
  assumes "n \<le> 2 ^ 48" and "provide_run sha f n = Ok st" and "m < 2 ^ 48"
  shows "get_secret sha st (of_nat m) = Ok (if 2 ^ 48 - n \<le> m then Some (f m) else None)"
  using provide_run_holds [OF assms(1,2)] assms(3) get_secret_seen get_secret_unseen
  by (cases "2 ^ 48 - n \<le> m") (auto simp: not_le)

theorem provided_secrets_readable_witness:
  "get_secret rev \<lparr>old_secrets = (old_secrets secrets_new)[0 := (replicate 32 7, 2 ^ 48 - 1)]\<rparr>
     (of_nat (2 ^ 48 - 1)) = Ok (Some (replicate 32 7)) \<and>
   get_secret rev \<lparr>old_secrets = (old_secrets secrets_new)[0 := (replicate 32 7, 2 ^ 48 - 1)]\<rparr>
     (of_nat 5) = Ok None"
proof -
  have min: "get_min_seen_secret secrets_new = 2 ^ 48"
    using holds_chain_min_seen [OF holds_chain_new [of undefined]] by simp
  have run: "provide_run rev (\<lambda>_. replicate 32 7) 1 =
      Ok \<lparr>old_secrets = (old_secrets secrets_new)[0 := (replicate 32 7, 2 ^ 48 - 1)]\<rparr>"
    using min by (simp add: provide_secret_def place_secret_def secrets_new_def upt_rec)
  show ?thesis
    using provided_secrets_readable [OF _ run, of "2 ^ 48 - 1"]
      provided_secrets_readable [OF _ run, of 5]
    by simp
qed

text \<open>
  C0: An honest counterparty is never refused.  The secrets generated from one seed by the
  BOLT 3 derivation are accepted by \<^verbatim>\<open>provide_secret\<close> one after the other, from the first
  commitment down to the last of the \<open>2 ^ 48\<close> indices.
\<close>

theorem honest_chain_accepted:
  assumes "n < 2 ^ 48"
  shows "\<exists>st st'. provide_run sha (chain_secret sha seed) n = Ok st \<and>
           provide_secret sha st (of_nat (2 ^ 48 - Suc n)) (chain_secret sha seed (2 ^ 48 - Suc n)) =
             Ok st' \<and>
           get_min_seen_secret st' = of_nat (2 ^ 48 - Suc n)"
proof -
  from assms have n: "Suc n \<le> 2 ^ 48" by simp
  then obtain st' where st': "provide_run sha (chain_secret sha seed) (Suc n) = Ok st'"
    using provide_run_chain_Ok by blast
  with provide_run_holds [OF n st'] holds_chain_min_seen show ?thesis
    unfolding provide_run.simps bindo_Ok_iff by blast
qed

theorem honest_chain_accepted_witness:
  "\<exists>st st'. provide_run rev (chain_secret rev (replicate 32 1)) 1000000 = Ok st \<and>
     provide_secret rev st (of_nat (2 ^ 48 - Suc 1000000))
       (chain_secret rev (replicate 32 1) (2 ^ 48 - Suc 1000000)) = Ok st' \<and>
     get_min_seen_secret st' = of_nat (2 ^ 48 - Suc 1000000)"
  by (rule honest_chain_accepted) simp

end
