(* ===== verification/Enforcement_State.thy ===== *)
theory Enforcement_State
  imports Commitment_Secrets
begin

text \<open>
  The data of a channel (\<^verbatim>\<open>vls-core/src/channel.rs\<close>: \<^verbatim>\<open>ChannelSetup\<close>, \<^verbatim>\<open>ChannelBalance\<close>) and the
  enforcement state of a channel (\<^verbatim>\<open>vls-core/src/policy/validator.rs\<close>: \<^verbatim>\<open>EnforcementState\<close>):
  commitment counters, the last commitments of both sides, the summaries of payments in flight
  and the balances computed from them.
\<close>

section \<open>Channel data\<close>

datatype commitment_type = Legacy | StaticRemoteKey | Anchors | AnchorsZeroFeeHtlc

datatype outpoint = OutPoint (op_txid: bytes) (op_vout: u32)

record channel_public_keys =
  funding_pubkey :: pubkey
  revocation_basepoint :: pubkey
  payment_point :: pubkey
  delayed_payment_basepoint :: pubkey
  htlc_basepoint :: pubkey

record channel_setup =
  is_outbound :: bool
  channel_value_sat :: u64
  push_value_msat :: u64
  funding_outpoint :: outpoint
  holder_selected_contest_delay :: u16
  holder_shutdown_script :: "script option"
  counterparty_points :: channel_public_keys
  counterparty_selected_contest_delay :: u16
  counterparty_shutdown_script :: "script option"
  commitment_type :: commitment_type

definition is_static_remotekey :: "channel_setup \<Rightarrow> bool" where
  "is_static_remotekey s \<longleftrightarrow> commitment_type s \<noteq> Legacy"

definition is_anchors :: "channel_setup \<Rightarrow> bool" where
  "is_anchors s \<longleftrightarrow> commitment_type s = Anchors \<or> commitment_type s = AnchorsZeroFeeHtlc"

definition is_zero_fee_htlc :: "channel_setup \<Rightarrow> bool" where
  "is_zero_fee_htlc s \<longleftrightarrow> commitment_type s = AnchorsZeroFeeHtlc"

record channel_balance =
  claimable :: u64
  received_htlc :: u64
  offered_htlc :: u64
  sweeping :: u64
  channel_count :: u32
  received_htlc_count :: u32
  offered_htlc_count :: u32

definition channel_balance_zero :: channel_balance where
  "channel_balance_zero =
     \<lparr>claimable = 0, received_htlc = 0, offered_htlc = 0, sweeping = 0, channel_count = 0,
      received_htlc_count = 0, offered_htlc_count = 0\<rparr>"

definition accumulate :: "channel_balance \<Rightarrow> channel_balance \<Rightarrow> channel_balance" where
  "accumulate b other =
     \<lparr>claimable = claimable b + claimable other,
      received_htlc = received_htlc b + received_htlc other,
      offered_htlc = offered_htlc b + offered_htlc other,
      sweeping = sweeping b + sweeping other,
      channel_count = channel_count b + channel_count other,
      received_htlc_count = received_htlc_count b + received_htlc_count other,
      offered_htlc_count = offered_htlc_count b + offered_htlc_count other\<rparr>"

record chain_state =
  current_height :: u32
  funding_depth :: u32
  funding_double_spent_depth :: u32
  closing_depth :: u32

text \<open>A channel and a commitment on which the properties are exercised.\<close>

definition example_setup :: channel_setup where
  "example_setup = \<lparr>is_outbound = True, channel_value_sat = 3000000, push_value_msat = 0,
     funding_outpoint = OutPoint [7] 0, holder_selected_contest_delay = 6,
     holder_shutdown_script = None,
     counterparty_points = \<lparr>funding_pubkey = [], revocation_basepoint = [], payment_point = [],
       delayed_payment_basepoint = [], htlc_basepoint = []\<rparr>,
     counterparty_selected_contest_delay = 6, counterparty_shutdown_script = None,
     commitment_type = StaticRemoteKey\<rparr>"

definition example_info :: commitment_info2 where
  "example_info =
     commitment_info2_new False [] 1000000 [] [] 1898000 6 [HTLCInfo2 100000 [1] 50] [] 253"

definition example_initial_info :: commitment_info2 where
  "example_initial_info = commitment_info2_new False [] 0 [] [] 2999000 6 [] [] 253"

section \<open>The enforcement state\<close>

type_synonym signature = bytes
type_synonym commitment_signatures = "signature \<times> signature list"

record enforcement_state =
  next_holder_commit_num :: u64
  next_counterparty_commit_num :: u64
  next_counterparty_revoke_num :: u64
  current_counterparty_point :: "pubkey option"
  previous_counterparty_point :: "pubkey option"
  current_holder_commit_info :: "commitment_info2 option"
  current_counterparty_signatures :: "commitment_signatures option"
  current_counterparty_commit_info :: "commitment_info2 option"
  previous_counterparty_commit_info :: "commitment_info2 option"
  channel_closed :: bool
  initial_holder_value :: u64
  counterparty_secrets :: "commitment_secrets option"

definition enforcement_state_new :: "u64 \<Rightarrow> enforcement_state" where
  "enforcement_state_new value =
     \<lparr>next_holder_commit_num = 0, next_counterparty_commit_num = 0,
      next_counterparty_revoke_num = 0, current_counterparty_point = None,
      previous_counterparty_point = None, current_holder_commit_info = None,
      current_counterparty_signatures = None, current_counterparty_commit_info = None,
      previous_counterparty_commit_info = None, channel_closed = False,
      initial_holder_value = value, counterparty_secrets = Some secrets_new\<rparr>"

text \<open>\<^verbatim>\<open>minimum_to_holder_value\<close> and \<^verbatim>\<open>minimum_to_counterparty_value\<close> share their comparison.\<close>

definition min_within :: "u64 \<Rightarrow> u64 \<Rightarrow> u64 \<Rightarrow> u64 option" where
  "min_within hval cval epsilon =
     (if hval > cval then (if hval - cval \<le> epsilon then Some cval else None)
      else (if cval - hval \<le> epsilon then Some hval else None))"

definition minimum_to_holder_value :: "enforcement_state \<Rightarrow> u64 \<Rightarrow> u64 option" where
  "minimum_to_holder_value st epsilon =
     (case (current_holder_commit_info st, current_counterparty_commit_info st) of
        (Some hinfo, Some cinfo) \<Rightarrow>
          min_within (to_broadcaster_value_sat hinfo) (to_countersigner_value_sat cinfo) epsilon
      | _ \<Rightarrow> None)"

definition minimum_to_counterparty_value :: "enforcement_state \<Rightarrow> u64 \<Rightarrow> u64 option" where
  "minimum_to_counterparty_value st epsilon =
     (case (current_holder_commit_info st, current_counterparty_commit_info st) of
        (Some hinfo, Some cinfo) \<Rightarrow>
          min_within (to_countersigner_value_sat hinfo) (to_broadcaster_value_sat cinfo) epsilon
      | _ \<Rightarrow> None)"

definition estate_set_next_holder_commit_num ::
    "u64 \<Rightarrow> commitment_info2 \<Rightarrow> commitment_signatures \<Rightarrow> enforcement_state \<Rightarrow> enforcement_state" where
  "estate_set_next_holder_commit_num num info sigs st =
     st\<lparr>next_holder_commit_num := num, current_holder_commit_info := Some info,
        current_counterparty_signatures := Some sigs\<rparr>"

definition estate_get_current_holder_commitment_info ::
    "enforcement_state \<Rightarrow> ('e, commitment_info2) outcome" where
  "estate_get_current_holder_commitment_info st = unwrap (current_holder_commit_info st)"

definition estate_set_next_counterparty_commit_num ::
    "u64 \<Rightarrow> pubkey \<Rightarrow> commitment_info2 \<Rightarrow> enforcement_state \<Rightarrow> ('e, enforcement_state) outcome" where
  "estate_set_next_counterparty_commit_num num point info st =
     bindo (asserts (num > 0)) (\<lambda>_.
     let current = next_counterparty_commit_num st;
         st1 = (if num = current + 1 then
                  st\<lparr>previous_counterparty_point := current_counterparty_point st,
                     previous_counterparty_commit_info := current_counterparty_commit_info st,
                     current_counterparty_commit_info := None\<rparr>
                else if num > current + 1 \<or> num < current then
                  st\<lparr>previous_counterparty_point := None,
                     previous_counterparty_commit_info := None\<rparr>
                else st);
         st2 = (if num \<ge> current + 1 then
                  st1\<lparr>current_counterparty_point := Some point,
                      current_counterparty_commit_info := Some info\<rparr>
                else st1)
     in Ok (st2\<lparr>next_counterparty_commit_num := num\<rparr>))"

definition get_previous_counterparty_point :: "enforcement_state \<Rightarrow> u64 \<Rightarrow> pubkey option" where
  "get_previous_counterparty_point st num =
     (if num + 1 = next_counterparty_commit_num st then current_counterparty_point st
      else if num + 2 = next_counterparty_commit_num st then previous_counterparty_point st
      else None)"

definition get_previous_counterparty_commit_info ::
    "enforcement_state \<Rightarrow> u64 \<Rightarrow> commitment_info2 option" where
  "get_previous_counterparty_commit_info st num =
     (if num + 1 = next_counterparty_commit_num st then current_counterparty_commit_info st
      else if num + 2 = next_counterparty_commit_num st then previous_counterparty_commit_info st
      else None)"

definition estate_set_next_counterparty_revoke_num ::
    "u64 \<Rightarrow> enforcement_state \<Rightarrow> ('e, enforcement_state) outcome" where
  "estate_set_next_counterparty_revoke_num num st =
     bindo (asserts (num \<noteq> 0)) (\<lambda>_.
     let st1 = (if num + 1 \<ge> next_counterparty_commit_num st
                then st\<lparr>previous_counterparty_commit_info := None\<rparr> else st)
     in Ok (st1\<lparr>next_counterparty_revoke_num := num\<rparr>))"

section \<open>Payments in flight\<close>

type_synonym summary = "(payment_hash, u64) amap"

definition summarize_payments :: "htlc_info2 list \<Rightarrow> summary" where
  "summarize_payments htlcs =
     foldl (\<lambda>s h. modify_or_insert (payment_hash h) (\<lambda>e. e + value_sat h) (value_sat h) s) [] htlcs"

definition or_else :: "'a option \<Rightarrow> 'a option \<Rightarrow> 'a option" where
  "or_else a b = (case a of Some x \<Rightarrow> Some x | None \<Rightarrow> b)"

definition htlcs_of :: "(commitment_info2 \<Rightarrow> htlc_info2 list) \<Rightarrow> commitment_info2 option \<Rightarrow> htlc_info2 list" where
  "htlcs_of sel i = (case i of None \<Rightarrow> [] | Some c \<Rightarrow> sel c)"

definition insert_zeros :: "htlc_info2 list \<Rightarrow> summary \<Rightarrow> summary" where
  "insert_zeros hs s = foldl (\<lambda>s h. or_insert (payment_hash h) 0 s) s hs"

definition payments_summary ::
    "enforcement_state \<Rightarrow> commitment_info2 option \<Rightarrow> commitment_info2 option \<Rightarrow> summary" where
  "payments_summary st new_holder_tx new_counterparty_tx =
     (let holder_summary = summarize_payments
            (htlcs_of offered_htlcs (or_else new_holder_tx (current_holder_commit_info st)));
          counterparty_summary = summarize_payments
            (htlcs_of received_htlcs (or_else new_counterparty_tx (current_counterparty_commit_info st)));
          summary = foldl (\<lambda>s (k, v). modify_or_insert k (\<lambda>e. max e v) v s)
                      holder_summary counterparty_summary;
          summary = insert_zeros (htlcs_of offered_htlcs (current_holder_commit_info st)) summary
      in insert_zeros (htlcs_of received_htlcs (current_counterparty_commit_info st)) summary)"

text \<open>\<^verbatim>\<open>entry(k).and_modify(f)\<close> with no insertion.\<close>

definition modify_entry :: "'k \<Rightarrow> ('v \<Rightarrow> 'v) \<Rightarrow> ('k, 'v) amap \<Rightarrow> ('k, 'v) amap" where
  "modify_entry k f m = (case map_of m k of None \<Rightarrow> m | Some x \<Rightarrow> AList.update k (f x) m)"

definition incoming_payments_summary ::
    "enforcement_state \<Rightarrow> commitment_info2 option \<Rightarrow> commitment_info2 option \<Rightarrow> summary" where
  "incoming_payments_summary st new_holder_tx new_counterparty_tx =
     (let holder_summary = summarize_payments
            (htlcs_of received_htlcs (or_else new_holder_tx (current_holder_commit_info st)));
          counterparty_summary = summarize_payments
            (htlcs_of offered_htlcs (or_else new_counterparty_tx (current_counterparty_commit_info st)));
          summary = filter (\<lambda>(k, _). k \<in> set (keys_of counterparty_summary)) holder_summary;
          summary = foldl (\<lambda>s (k, v). modify_entry k (\<lambda>e. min e v) s) summary counterparty_summary;
          summary = insert_zeros (htlcs_of received_htlcs (current_holder_commit_info st)) summary
      in insert_zeros (htlcs_of offered_htlcs (current_counterparty_commit_info st)) summary)"

section \<open>Balances\<close>

definition min_opt :: "u64 option \<Rightarrow> u64 option \<Rightarrow> u64 option" where
  "min_opt a_opt b_opt =
     (case a_opt of
        Some a \<Rightarrow> (case b_opt of Some b \<Rightarrow> Some (min a b) | None \<Rightarrow> a_opt)
      | None \<Rightarrow> b_opt)"

definition info_balance ::
    "(payment_hash \<Rightarrow> bool) \<Rightarrow> channel_setup \<Rightarrow> commitment_info2 option \<Rightarrow> ('e, u64 option) outcome" where
  "info_balance pm setup i =
     (case i of
        None \<Rightarrow> Ok None
      | Some tx \<Rightarrow> bindo (claimable_balance tx pm (is_outbound setup) (channel_value_sat setup))
                     (\<lambda>b. Ok (Some b)))"

definition claimable_balances ::
    "enforcement_state \<Rightarrow> (payment_hash \<Rightarrow> bool) \<Rightarrow> commitment_info2 option \<Rightarrow>
     commitment_info2 option \<Rightarrow> channel_setup \<Rightarrow> ('e, u64 \<times> u64) outcome" where
  "claimable_balances st pm new_holder_tx new_counterparty_tx setup =
     bindo (asserts (new_holder_tx \<noteq> None \<or> new_counterparty_tx \<noteq> None)) (\<lambda>_.
     bindo (asserts (new_holder_tx = None \<or> new_counterparty_tx = None)) (\<lambda>_.
     bindo (info_balance pm setup (current_holder_commit_info st)) (\<lambda>cur_holder_bal.
     bindo (info_balance pm setup (current_counterparty_commit_info st)) (\<lambda>cur_cp_bal.
     let cur_bal_opt = min_opt cur_holder_bal cur_cp_bal in
     bindo (info_balance pm setup (or_else new_holder_tx (current_holder_commit_info st))) (\<lambda>new_holder_bal.
     bindo (info_balance pm setup (or_else new_counterparty_tx (current_counterparty_commit_info st))) (\<lambda>new_cp_bal.
     bindo (unwrap (min_opt new_holder_bal new_cp_bal)) (\<lambda>new_bal.
     Ok (case cur_bal_opt of Some b \<Rightarrow> b | None \<Rightarrow> initial_holder_value st, new_bal))))))))"

definition estate_balance ::
    "enforcement_state \<Rightarrow> (payment_hash \<Rightarrow> bool) \<Rightarrow> channel_setup \<Rightarrow> ('e, channel_balance) outcome" where
  "estate_balance st pm setup =
     (case (current_holder_commit_info st, current_counterparty_commit_info st) of
        (Some hinfo, Some cinfo) \<Rightarrow>
          bindo (claimable_balance hinfo pm (is_outbound setup) (channel_value_sat setup)) (\<lambda>cur_holder_bal.
          bindo (claimable_balance cinfo pm (is_outbound setup) (channel_value_sat setup)) (\<lambda>cur_cp_bal.
          bindo (if cur_holder_bal < cur_cp_bal
                 then bindo (htlc_balance hinfo) (\<lambda>b. Ok (cur_holder_bal, b))
                 else bindo (htlc_balance cinfo) (\<lambda>b. Ok (cur_cp_bal, b)))
            (\<lambda>(cur_bal, received, offered, received_count, offered_count).
          let (open_bal, sweep_bal) = (if channel_closed st then (0, cur_bal) else (cur_bal, 0)) in
          Ok \<lparr>claimable = open_bal, received_htlc = received, offered_htlc = offered,
              sweeping = sweep_bal, channel_count = 1, received_htlc_count = received_count,
              offered_htlc_count = offered_count\<rparr>)))
      | _ \<Rightarrow> Ok channel_balance_zero)"

section \<open>What the summaries contain\<close>

lemma enforcement_state_new_simps [simp]:
  "next_holder_commit_num (enforcement_state_new v) = 0"
  "next_counterparty_commit_num (enforcement_state_new v) = 0"
  "next_counterparty_revoke_num (enforcement_state_new v) = 0"
  "current_counterparty_point (enforcement_state_new v) = None"
  "previous_counterparty_point (enforcement_state_new v) = None"
  "current_holder_commit_info (enforcement_state_new v) = None"
  "current_counterparty_signatures (enforcement_state_new v) = None"
  "current_counterparty_commit_info (enforcement_state_new v) = None"
  "previous_counterparty_commit_info (enforcement_state_new v) = None"
  "channel_closed (enforcement_state_new v) = False"
  "initial_holder_value (enforcement_state_new v) = v"
  "counterparty_secrets (enforcement_state_new v) = Some secrets_new"
  by (simp_all add: enforcement_state_new_def)

text \<open>The total in flight for one payment hash, with the \<^verbatim>\<open>u64\<close> addition of the code.\<close>

definition in_flight :: "htlc_info2 list \<Rightarrow> payment_hash \<Rightarrow> u64" where
  "in_flight hs k = sum_u64 (map value_sat (filter (\<lambda>h. payment_hash h = k) hs))"

abbreviation hashes :: "htlc_info2 list \<Rightarrow> payment_hash set" where
  "hashes hs \<equiv> payment_hash ` set hs"

lemma in_flight_absent: "k \<notin> hashes hs \<Longrightarrow> in_flight hs k = 0"
proof -
  assume "k \<notin> hashes hs"
  then have "filter (\<lambda>h. payment_hash h = k) hs = []" by (auto simp: filter_empty_conv)
  then show ?thesis by (simp add: in_flight_def sum_u64_def)
qed

lemma amap_wf_foldl:
  "(\<And>s x. amap_wf s \<Longrightarrow> amap_wf (f s x)) \<Longrightarrow> amap_wf s \<Longrightarrow> amap_wf (foldl f s xs)"
  by (induction xs arbitrary: s) auto

lemma amap_wf_summarize [simp]: "amap_wf (summarize_payments hs)"
  unfolding summarize_payments_def by (rule amap_wf_foldl) auto

lemma map_of_summarize:
  "map_of (summarize_payments hs) k = (if k \<in> hashes hs then Some (in_flight hs k) else None)"
proof (induction hs rule: rev_induct)
  case Nil
  then show ?case by (simp add: summarize_payments_def)
next
  case (snoc h hs)
  have "summarize_payments (hs @ [h]) =
      modify_or_insert (payment_hash h) (\<lambda>e. e + value_sat h) (value_sat h) (summarize_payments hs)"
    by (simp add: summarize_payments_def)
  then show ?case
    using snoc in_flight_absent [of k hs]
    by (auto simp: amap_simps in_flight_def sum_u64_def)
qed

lemma map_of_insert_zeros:
  "map_of (insert_zeros hs s) k =
     (if map_of s k = None \<and> k \<in> hashes hs then Some 0 else map_of s k)"
  unfolding insert_zeros_def
proof (induction hs arbitrary: s)
  case (Cons h hs)
  then show ?case by (auto simp: amap_simps dom_def)
qed simp

lemma map_of_fold_max:
  "amap_wf m \<Longrightarrow> map_of (foldl (\<lambda>s (k, v). modify_or_insert k (\<lambda>e. max e v) v s) s m) k =
     (case map_of m k of None \<Rightarrow> map_of s k
      | Some v \<Rightarrow> Some (case map_of s k of None \<Rightarrow> v | Some e \<Rightarrow> max e v))"
proof (induction m arbitrary: s)
  case (Cons a m)
  then have "fst a \<notin> fst ` set m" and "amap_wf m" by (auto simp: amap_wf_def keys_of_def)
  then show ?case
    using Cons.IH by (cases a) (auto simp: amap_simps map_of_eq_None_iff [symmetric] split: option.splits)
qed simp

lemma map_of_modify_entry:
  "map_of (modify_entry k f m) k' =
     (if k' = k then map_option f (map_of m k) else map_of m k')"
  by (auto simp: modify_entry_def amap_simps split: option.splits)

lemma map_of_fold_min:
  "amap_wf m \<Longrightarrow> map_of (foldl (\<lambda>s (k, v). modify_entry k (\<lambda>e. min e v) s) s m) k =
     (case map_of m k of None \<Rightarrow> map_of s k | Some v \<Rightarrow> map_option (\<lambda>e. min e v) (map_of s k))"
proof (induction m arbitrary: s)
  case (Cons a m)
  then have "fst a \<notin> fst ` set m" and "amap_wf m" by (auto simp: amap_wf_def keys_of_def)
  then show ?case
    using Cons.IH by (cases a) (auto simp: map_of_modify_entry map_of_eq_None_iff [symmetric] split: option.splits)
qed simp

lemma map_of_filter_keys:
  "map_of (filter (\<lambda>(k, _). P k) m) k = (if P k then map_of m k else None)"
  by (induction m) auto

abbreviation outgoing_holder where
  "outgoing_holder st nh \<equiv> htlcs_of offered_htlcs (or_else nh (current_holder_commit_info st))"
abbreviation outgoing_counterparty where
  "outgoing_counterparty st nc \<equiv> htlcs_of received_htlcs (or_else nc (current_counterparty_commit_info st))"
abbreviation incoming_holder where
  "incoming_holder st nh \<equiv> htlcs_of received_htlcs (or_else nh (current_holder_commit_info st))"
abbreviation incoming_counterparty where
  "incoming_counterparty st nc \<equiv> htlcs_of offered_htlcs (or_else nc (current_counterparty_commit_info st))"

lemma or_else_None [simp]: "or_else None b = b" and or_else_Some [simp]: "or_else (Some a) b = Some a"
  by (simp_all add: or_else_def)

text \<open>
  C18: The summary of outgoing payments has an entry for every payment hash offered by us in
  either side's commitment, present or proposed, and for no other; the amount of an entry is the
  larger of what the two commitments carry for that hash, so an outgoing payment is never
  understated by looking at one side only.
\<close>

theorem payments_summary_spec:
  "map_of (payments_summary st nh nc) k =
     (if k \<in> hashes (outgoing_holder st nh) \<union> hashes (outgoing_counterparty st nc) \<union>
             hashes (outgoing_holder st None) \<union> hashes (outgoing_counterparty st None)
      then Some (max (in_flight (outgoing_holder st nh) k) (in_flight (outgoing_counterparty st nc) k))
      else None)"
  by (auto simp: payments_summary_def Let_def map_of_insert_zeros map_of_fold_max map_of_summarize
      in_flight_absent)

text \<open>
  C19: The summary of incoming payments credits, for each payment hash, the smaller of what the two
  sides' commitments carry (nothing when one of them lacks the payment), and keeps an entry for
  every hash of the current commitments so that the disappearance of a payment is noticed.
\<close>

theorem incoming_payments_summary_spec:
  "map_of (incoming_payments_summary st nh nc) k =
     (if k \<in> (hashes (incoming_holder st nh) \<inter> hashes (incoming_counterparty st nc)) \<union>
             hashes (incoming_holder st None) \<union> hashes (incoming_counterparty st None)
      then Some (min (in_flight (incoming_holder st nh) k) (in_flight (incoming_counterparty st nc) k))
      else None)"
  by (auto simp: incoming_payments_summary_def Let_def map_of_insert_zeros map_of_fold_min map_of_filter_keys
      map_of_summarize keys_of_dom dom_def in_flight_absent split: if_splits option.splits)

section \<open>Balances of a channel\<close>

definition info_fits :: "channel_setup \<Rightarrow> commitment_info2 option \<Rightarrow> bool" where
  "info_fits setup i \<longleftrightarrow> (case i of None \<Rightarrow> True | Some c \<Rightarrow> output_total c \<le> unat (channel_value_sat setup))"

definition info_spec :: "(payment_hash \<Rightarrow> bool) \<Rightarrow> channel_setup \<Rightarrow> commitment_info2 \<Rightarrow> nat" where
  "info_spec pm setup i = claimable_spec i pm (is_outbound setup) (unat (channel_value_sat setup))"

lemma info_balance_spec:
  assumes "info_fits setup i"
  shows "\<exists>b. info_balance pm setup i = (Ok b :: ('e, u64 option) outcome) \<and>
             map_option unat b = map_option (info_spec pm setup) i"
  using assms claimable_balance_spec [of _ "channel_value_sat setup" pm "is_outbound setup", where ?'e = 'e]
  by (cases i) (fastforce simp: info_fits_def info_balance_def info_spec_def)+

lemma unat_min_opt:
  "map_option unat (min_opt a b) =
     (case (map_option unat a, map_option unat b) of
        (Some x, Some y) \<Rightarrow> Some (min x y) | (Some x, None) \<Rightarrow> Some x | (None, y) \<Rightarrow> y)"
  by (auto simp: min_opt_def min_def word_le_nat_alt split: option.splits)

definition overall :: "(payment_hash \<Rightarrow> bool) \<Rightarrow> channel_setup \<Rightarrow> commitment_info2 option \<Rightarrow>
    commitment_info2 option \<Rightarrow> nat option" where
  "overall pm setup h c =
     (case (h, c) of
        (Some x, Some y) \<Rightarrow> Some (min (info_spec pm setup x) (info_spec pm setup y))
      | (Some x, None) \<Rightarrow> Some (info_spec pm setup x)
      | (None, Some y) \<Rightarrow> Some (info_spec pm setup y)
      | (None, None) \<Rightarrow> None)"

lemma overall_min_opt:
  assumes "map_option unat a = map_option (info_spec pm setup) h"
    and "map_option unat b = map_option (info_spec pm setup) c"
  shows "map_option unat (min_opt a b) = overall pm setup h c"
  using assms by (auto simp: unat_min_opt overall_def split: option.splits)

lemma overall_le:
  assumes "info_fits setup h" and "info_fits setup c" and "overall pm setup h c = Some b"
  shows "b \<le> unat (channel_value_sat setup)"
  using assms claimable_spec_le
  by (fastforce simp: overall_def info_fits_def info_spec_def min_le_iff_disj split: option.splits)

text \<open>
  C0: The balances before and after a new commitment.  When the outputs of every commitment fit
  into the channel, \<^verbatim>\<open>claimable_balances\<close> does not panic; our balance is the smaller of what the
  two sides' commitments give us (the initial value when there is none yet), the new balance
  uses the proposed commitment in place of the current one, and it never exceeds the channel.
\<close>

theorem claimable_balances_spec:
  assumes "(new_holder_tx = None) \<noteq> (new_counterparty_tx = None)"
    and "info_fits setup (current_holder_commit_info st)"
    and "info_fits setup (current_counterparty_commit_info st)"
    and "info_fits setup new_holder_tx" and "info_fits setup new_counterparty_tx"
  shows "\<exists>cur new. claimable_balances st pm new_holder_tx new_counterparty_tx setup =
            (Ok (cur, new) :: ('e, u64 \<times> u64) outcome) \<and>
          unat cur = (case overall pm setup (current_holder_commit_info st)
                            (current_counterparty_commit_info st) of
                        Some b \<Rightarrow> b | None \<Rightarrow> unat (initial_holder_value st)) \<and>
          overall pm setup (or_else new_holder_tx (current_holder_commit_info st))
             (or_else new_counterparty_tx (current_counterparty_commit_info st)) = Some (unat new) \<and>
          unat new \<le> unat (channel_value_sat setup)"
proof -
  let ?h = "current_holder_commit_info st" and ?c = "current_counterparty_commit_info st"
  let ?nh = "or_else new_holder_tx ?h" and ?nc = "or_else new_counterparty_tx ?c"
  have fits: "info_fits setup ?nh" "info_fits setup ?nc"
    using assms by (auto simp: or_else_def split: option.splits)
  obtain bh where bh: "info_balance pm setup ?h = (Ok bh :: ('e, u64 option) outcome)"
      "map_option unat bh = map_option (info_spec pm setup) ?h"
    using info_balance_spec assms(2) by blast
  obtain bc where bc: "info_balance pm setup ?c = (Ok bc :: ('e, u64 option) outcome)"
      "map_option unat bc = map_option (info_spec pm setup) ?c"
    using info_balance_spec assms(3) by blast
  obtain nh where nh: "info_balance pm setup ?nh = (Ok nh :: ('e, u64 option) outcome)"
      "map_option unat nh = map_option (info_spec pm setup) ?nh"
    using info_balance_spec fits(1) by blast
  obtain nc where nc: "info_balance pm setup ?nc = (Ok nc :: ('e, u64 option) outcome)"
      "map_option unat nc = map_option (info_spec pm setup) ?nc"
    using info_balance_spec fits(2) by blast
  have ov: "map_option unat (min_opt bh bc) = overall pm setup ?h ?c"
    using overall_min_opt bh(2) bc(2) by blast
  have ov': "map_option unat (min_opt nh nc) = overall pm setup ?nh ?nc"
    using overall_min_opt nh(2) nc(2) by blast
  have "overall pm setup ?nh ?nc \<noteq> None"
    using assms(1) by (auto simp: overall_def or_else_def split: option.splits)
  with ov' obtain new where new: "min_opt nh nc = Some new" by (cases "min_opt nh nc") auto
  with ov' have on: "overall pm setup ?nh ?nc = Some (unat new)" by simp
  with overall_le [OF fits on] ov assms(1) bh(1) bc(1) nh(1) nc(1) new show ?thesis
    by (cases "min_opt bh bc") (auto simp: claimable_balances_def asserts_def unwrap_def
        simp flip: ov)
qed

theorem claimable_balances_spec_witness:
  "\<exists>cur new. claimable_balances (enforcement_state_new 800) (\<lambda>_. False) (Some example_info) None
      example_setup = (Ok (cur, new) :: (unit, u64 \<times> u64) outcome) \<and>
     unat cur = 800 \<and> unat new \<le> 3000000"
proof -
  have "info_fits example_setup (Some example_info)"
    by (simp add: info_fits_def example_setup_def example_info_def commitment_info2_new_def output_total_def)
  moreover have "info_fits example_setup None" by (simp add: info_fits_def)
  ultimately obtain cur new where "claimable_balances (enforcement_state_new 800) (\<lambda>_. False)
      (Some example_info) None example_setup = (Ok (cur, new) :: (unit, u64 \<times> u64) outcome)"
    "unat cur = (case overall (\<lambda>_. False) example_setup None None of Some b \<Rightarrow> b | None \<Rightarrow> unat (800 :: u64))"
    "unat new \<le> unat (channel_value_sat example_setup)"
    using claimable_balances_spec [of "Some example_info" None example_setup "enforcement_state_new 800"
        "\<lambda>_. False", where ?'e = unit]
    by (auto simp: overall_def)
  then show ?thesis by (simp add: overall_def example_setup_def)
qed

end
