(* ===== verification/Validator.thy ===== *)
theory Validator
  imports Policy_Core Enforcement_State
begin

text \<open>
  The methods that the trait \<^verbatim>\<open>Validator\<close> of \<^verbatim>\<open>vls-core/src/policy/validator.rs\<close> provides by
  default, and \<^verbatim>\<open>vls-core/src/invoice.rs\<close>.  Every validator reaches its policy through a
  \<^verbatim>\<open>PolicyFilter\<close>, which is the argument \<open>f\<close> here.  The counters of the counterparty's
  commitments and revocations form a state machine; its invariant is that at most two of the
  counterparty's commitments are ever unrevoked.
\<close>

abbreviation perr :: "policy_filter \<Rightarrow> string \<Rightarrow> string \<Rightarrow> (validation_error, unit) outcome" where
  "perr f tag msg \<equiv> policy_error_with_filter tag msg f"

section \<open>Commitment numbers\<close>

definition set_next_holder_commit_num ::
    "policy_filter \<Rightarrow> enforcement_state \<Rightarrow> u64 \<Rightarrow> commitment_info2 \<Rightarrow> commitment_signatures \<Rightarrow>
     (validation_error, enforcement_state) outcome" where
  "set_next_holder_commit_num f estate num info sigs =
     (let current = next_holder_commit_num estate in
      bindo (guarded (num \<noteq> current \<and> num \<noteq> current + 1)
               (perr f ''policy-revoke-new-commitment-signed'' ''invalid progression: {} to {}'')) (\<lambda>_.
      Ok (estate_set_next_holder_commit_num num info sigs estate)))"

definition get_current_holder_commitment_info ::
    "policy_filter \<Rightarrow> enforcement_state \<Rightarrow> u64 \<Rightarrow> (validation_error, commitment_info2) outcome" where
  "get_current_holder_commitment_info f estate commitment_number =
     bindo (guarded (commitment_number + 1 \<noteq> next_holder_commit_num estate)
              (perr f ''policy-other'' ''invalid next holder commitment number: {} != {}'')) (\<lambda>_.
     estate_get_current_holder_commitment_info estate)"

definition set_next_counterparty_commit_num ::
    "policy_filter \<Rightarrow> enforcement_state \<Rightarrow> u64 \<Rightarrow> pubkey \<Rightarrow> commitment_info2 \<Rightarrow>
     (validation_error, enforcement_state) outcome" where
  "set_next_counterparty_commit_num f estate num current_point info =
     bindo (guarded (num = 0)
              (perr f ''policy-commitment-previous-revoked'' ''can't set next to 0'')) (\<lambda>_.
     let delta = (if num = 1 then 1 else 2) in
     bindo (guarded (num < next_counterparty_revoke_num estate + delta)
              (perr f ''policy-commitment-previous-revoked''
                 ''{} too small relative to next_counterparty_revoke_num {}'')) (\<lambda>_.
     bindo (guarded (num > next_counterparty_revoke_num estate + 2)
              (perr f ''policy-commitment-previous-revoked''
                 ''{} too large relative to next_counterparty_revoke_num {}'')) (\<lambda>_.
     let current = next_counterparty_commit_num estate in
     bindo (if num = current then
              bindo (unwrap (current_counterparty_point estate)) (\<lambda>point.
              guarded (current_point \<noteq> point)
                (perr f ''policy-commitment-retry-same'' ''retry {}: point different than prior''))
            else if num = current + 1 then Ok ()
            else perr f ''policy-commitment-previous-revoked'' ''invalid progression: {} to {}'') (\<lambda>_.
     estate_set_next_counterparty_commit_num num current_point info estate))))"

definition set_next_counterparty_revoke_num ::
    "policy_filter \<Rightarrow> enforcement_state \<Rightarrow> u64 \<Rightarrow> (validation_error, enforcement_state) outcome" where
  "set_next_counterparty_revoke_num f estate num =
     bindo (guarded (num = 0) (perr f ''policy-other'' ''can't set next to 0'')) (\<lambda>_.
     bindo (guarded (num + 2 < next_counterparty_commit_num estate)
              (perr f ''policy-commitment-previous-revoked''
                 ''{} too small relative to next_counterparty_commit_num {}'')) (\<lambda>_.
     bindo (guarded (num + 1 > next_counterparty_commit_num estate)
              (perr f ''policy-commitment-previous-revoked''
                 ''{} too large relative to next_counterparty_commit_num {}'')) (\<lambda>_.
     let current = next_counterparty_revoke_num estate in
     bindo (guarded (num \<noteq> current \<and> num \<noteq> current + 1)
              (perr f ''policy-commitment-previous-revoked'' ''invalid progression: {} to {}'')) (\<lambda>_.
     estate_set_next_counterparty_revoke_num num estate))))"

section \<open>Blocks and invoices\<close>

text \<open>
  The verification of a TXOO proof is code outside the repository: \<open>verify\<close> is its result on
  the proof, the block and the watched outpoints.
\<close>

datatype verify_error = InvalidAttestation | OtherVerifyError

definition validate_block ::
    "policy_filter \<Rightarrow> ('p \<Rightarrow> u32 \<Rightarrow> 'h \<Rightarrow> 'b option \<Rightarrow> 'fh \<Rightarrow> outpoint list \<Rightarrow> (verify_error, unit) outcome) \<Rightarrow>
     'p \<Rightarrow> u32 \<Rightarrow> 'h \<Rightarrow> 'b option \<Rightarrow> 'fh \<Rightarrow> outpoint list \<Rightarrow> (validation_error, unit) outcome" where
  "validate_block f verify prf height header external_block_hash prev_filter_header watches =
     (case verify prf height header external_block_hash prev_filter_header watches of
        Ok _ \<Rightarrow> Ok ()
      | Err InvalidAttestation \<Rightarrow> perr f ''policy-chain-validated'' ''invalid attestation''
      | Err OtherVerifyError \<Rightarrow> perr f ''policy-chain-validated'' ''invalid proof {:?}''
      | Panic \<Rightarrow> Panic)"

text \<open>
  \<^verbatim>\<open>Duration\<close> as a count of nanoseconds; its addition panics on overflow.  The accessors of the
  BOLT 11 and BOLT 12 invoice types are fields here.
\<close>

type_synonym duration = nat

definition duration_max :: nat where
  "duration_max = 2 ^ 64 * 10 ^ 9"

definition from_secs :: "nat \<Rightarrow> duration" where
  "from_secs s = s * 10 ^ 9"

definition dur_add :: "duration \<Rightarrow> duration \<Rightarrow> ('e, duration) outcome" where
  "dur_add a b = bindo (asserts (a + b < duration_max)) (\<lambda>_. Ok (a + b))"

definition MIN_INVOICE_EXPIRY :: duration where
  "MIN_INVOICE_EXPIRY = from_secs 60"

definition MAX_CLOCK_SKEW :: duration where
  "MAX_CLOCK_SKEW = from_secs 60"

record bolt11_invoice =
  b11_signable_hash :: bytes
  b11_payment_hash :: payment_hash
  b11_amount_milli_satoshis :: "u64 option"
  b11_payee_pub_key :: "pubkey option"
  b11_recover_payee_pub_key :: pubkey
  b11_duration_since_epoch :: duration
  b11_expiry_time :: duration

record bolt12_invoice =
  b12_signable_hash :: bytes
  b12_payment_hash :: payment_hash
  b12_amount_msats :: u64
  b12_signing_pubkey :: pubkey
  b12_created_at :: duration
  b12_relative_expiry :: duration

datatype invoice = Bolt11 bolt11_invoice | Bolt12 bolt12_invoice

primrec invoice_hash :: "invoice \<Rightarrow> bytes" where
  "invoice_hash (Bolt11 i) = b11_signable_hash i"
| "invoice_hash (Bolt12 i) = b12_signable_hash i"

primrec invoice_payment_hash :: "invoice \<Rightarrow> payment_hash" where
  "invoice_payment_hash (Bolt11 i) = b11_payment_hash i"
| "invoice_payment_hash (Bolt12 i) = b12_payment_hash i"

primrec amount_milli_satoshis :: "invoice \<Rightarrow> u64" where
  "amount_milli_satoshis (Bolt11 i) =
     (case b11_amount_milli_satoshis i of None \<Rightarrow> 0 | Some a \<Rightarrow> a)"
| "amount_milli_satoshis (Bolt12 i) = b12_amount_msats i"

primrec payee_pub_key :: "invoice \<Rightarrow> pubkey" where
  "payee_pub_key (Bolt11 i) =
     (case b11_payee_pub_key i of Some p \<Rightarrow> p | None \<Rightarrow> b11_recover_payee_pub_key i)"
| "payee_pub_key (Bolt12 i) = b12_signing_pubkey i"

primrec invoice_duration_since_epoch :: "invoice \<Rightarrow> duration" where
  "invoice_duration_since_epoch (Bolt11 i) = b11_duration_since_epoch i"
| "invoice_duration_since_epoch (Bolt12 i) = b12_created_at i"

primrec invoice_expiry_duration :: "invoice \<Rightarrow> duration" where
  "invoice_expiry_duration (Bolt11 i) = b11_expiry_time i"
| "invoice_expiry_duration (Bolt12 i) = b12_relative_expiry i"

text \<open>\<^verbatim>\<open>validate_invoice\<close>; \<open>timeless\<close> says whether the feature \<^verbatim>\<open>timeless_workaround\<close> is on.\<close>

definition validate_invoice ::
    "policy_filter \<Rightarrow> bool \<Rightarrow> invoice \<Rightarrow> duration \<Rightarrow> (validation_error, unit) outcome" where
  "validate_invoice f timeless invc now =
     (let behind_tolerance = (if timeless then from_secs (1 * 60 * 60) else from_secs 0);
          ahead_tolerance = (if timeless then from_secs (2 * 60 * 60) else from_secs 0)
      in
      bindo (dur_add now MAX_CLOCK_SKEW) (\<lambda>a.
      bindo (dur_add a behind_tolerance) (\<lambda>latest.
      bindo (guarded (latest < invoice_duration_since_epoch invc)
               (perr f ''policy-invoice-not-expired''
                  ''invoice is not yet valid ({} + {} (skew) + {} (tolerance) < {})'')) (\<lambda>_.
      bindo (dur_add now MIN_INVOICE_EXPIRY) (\<lambda>needed.
      bindo (dur_add (invoice_duration_since_epoch invc) (invoice_expiry_duration invc)) (\<lambda>expiry.
      bindo (dur_add expiry MAX_CLOCK_SKEW) (\<lambda>b.
      bindo (dur_add b ahead_tolerance) (\<lambda>deadline.
      guarded (needed > deadline)
        (perr f ''policy-invoice-not-expired''
           ''invoice is expired ({} + {} (buffer) > {} + {} (skew) + {} (tolerance))'')))))))))"

section \<open>Invoices\<close>

lemma dur_add_Ok_iff: "dur_add a b = Ok c \<longleftrightarrow> a + b < duration_max \<and> c = a + b"
  by (auto simp: dur_add_def outcome_simps)



section \<open>The counterparty's commitments and revocations\<close>

text \<open>Passing each setter, in terms of the numbers, for a filter that enforces the tags.\<close>

abbreviation revoked_tag :: string where
  "revoked_tag \<equiv> ''policy-commitment-previous-revoked''"

lemma set_cp_commit_num_Ok:
  assumes "set_next_counterparty_commit_num f st num p i = Ok st'" and "enforced f revoked_tag"
  shows "num \<noteq> 0" and "next_counterparty_revoke_num st + (if num = 1 then 1 else 2) \<le> num"
    and "num \<le> next_counterparty_revoke_num st + 2"
    and "num = next_counterparty_commit_num st \<or> num = next_counterparty_commit_num st + 1"
    and "estate_set_next_counterparty_commit_num num p i st = (Ok st' :: (validation_error, _) outcome)"
  using assms
  by (auto simp: set_next_counterparty_commit_num_def Let_def bindo_Ok_iff policy_simps guarded_iff
      not_less split: if_splits)

lemma set_cp_revoke_num_Ok:
  assumes "set_next_counterparty_revoke_num f st num = Ok st'" and "enforced f revoked_tag"
  shows "num \<noteq> 0" and "next_counterparty_commit_num st \<le> num + 2"
    and "num + 1 \<le> next_counterparty_commit_num st"
    and "num = next_counterparty_revoke_num st \<or> num = next_counterparty_revoke_num st + 1"
    and "estate_set_next_counterparty_revoke_num num st = (Ok st' :: (validation_error, _) outcome)"
  using assms
  by (auto simp: set_next_counterparty_revoke_num_def Let_def bindo_Ok_iff policy_simps guarded_iff
      not_less estate_set_next_counterparty_revoke_num_def asserts_iff split: if_splits)

lemma word_between_succ:
  fixes x c :: u64
  assumes "x \<le> c" and "c \<le> x + 1"
  shows "c = x \<or> c = x + 1"
proof (cases "x + 1 = 0")
  case True
  with assms(2) have "c = 0" by simp
  with True show ?thesis by simp
next
  case False
  then have "unat (x + 1) = unat x + 1" by (metis unatSuc add.commute Suc_eq_plus1)
  with assms show ?thesis
    unfolding word_le_nat_alt word_unat_eq_iff by linarith
qed

text \<open>
  The invariant of the counters: before the first commitment both are zero; afterwards the
  counterparty's latest commitment is the only unrevoked one, or it and the one before it are.
\<close>

definition cp_counters_ok :: "enforcement_state \<Rightarrow> bool" where
  "cp_counters_ok st \<longleftrightarrow>
     (next_counterparty_commit_num st = 0 \<and> next_counterparty_revoke_num st = 0) \<or>
     next_counterparty_commit_num st = next_counterparty_revoke_num st + 1 \<or>
     next_counterparty_commit_num st = next_counterparty_revoke_num st + 2"

definition cp_point_known :: "enforcement_state \<Rightarrow> bool" where
  "cp_point_known st \<longleftrightarrow>
     (next_counterparty_commit_num st \<noteq> 0 \<longrightarrow> current_counterparty_point st \<noteq> None)"

lemma estate_set_cp_commit_num_simps:
  assumes "estate_set_next_counterparty_commit_num num p i st = Ok st'"
  shows "next_counterparty_commit_num st' = num"
    and "next_counterparty_revoke_num st' = next_counterparty_revoke_num st"
    and "next_holder_commit_num st' = next_holder_commit_num st"
    and "num = next_counterparty_commit_num st + 1 \<Longrightarrow>
           current_counterparty_point st' = Some p \<and> current_counterparty_commit_info st' = Some i \<and>
           previous_counterparty_point st' = current_counterparty_point st \<and>
           previous_counterparty_commit_info st' = current_counterparty_commit_info st"
    and "num = next_counterparty_commit_num st \<Longrightarrow> current_counterparty_point st \<noteq> None \<Longrightarrow>
           current_counterparty_point st' \<noteq> None"
  using assms
  by (auto simp: estate_set_next_counterparty_commit_num_def Let_def bindo_Ok_iff asserts_iff
      split: if_splits)

lemma estate_set_cp_revoke_num_simps:
  assumes "estate_set_next_counterparty_revoke_num num st = Ok st'"
  shows "next_counterparty_revoke_num st' = num"
    and "next_counterparty_commit_num st' = next_counterparty_commit_num st"
    and "current_counterparty_point st' = current_counterparty_point st"
    and "next_holder_commit_num st' = next_holder_commit_num st"
  using assms
  by (auto simp: estate_set_next_counterparty_revoke_num_def Let_def bindo_Ok_iff asserts_iff
      split: if_splits)

lemma set_cp_commit_num_keeps:
  assumes "set_next_counterparty_commit_num f st num p i = Ok st'" and "enforced f revoked_tag"
    and "cp_point_known st"
  shows "cp_counters_ok st'" and "cp_point_known st'"
proof -
  note ok = set_cp_commit_num_Ok [OF assms(1,2)]
  note eq = estate_set_cp_commit_num_simps [OF ok(5)]
  let ?r = "next_counterparty_revoke_num st"
  have "num = ?r + 1 \<or> num = ?r + 2"
  proof (cases "num = 1")
    case True
    with ok(2,3) word_between_succ [of "?r + 1" num] show ?thesis by (simp add: add.assoc)
  qed (use ok(2,3) in simp)
  then show "cp_counters_ok st'" by (auto simp: cp_counters_ok_def eq(1,2))
  show "cp_point_known st'"
    using ok(1,4) eq(1,4,5) assms(3) by (auto simp: cp_point_known_def)
qed

lemma set_cp_revoke_num_keeps:
  assumes "set_next_counterparty_revoke_num f st num = Ok st'" and "enforced f revoked_tag"
    and "cp_point_known st"
  shows "cp_counters_ok st'" and "cp_point_known st'"
proof -
  note ok = set_cp_revoke_num_Ok [OF assms(1,2)]
  note eq = estate_set_cp_revoke_num_simps [OF ok(5)]
  show "cp_counters_ok st'"
    using ok(2,3) word_between_succ [of "num + 1" "next_counterparty_commit_num st"]
    by (auto simp: cp_counters_ok_def eq(1,2) add.assoc)
  show "cp_point_known st'"
    using assms(3) by (simp add: cp_point_known_def eq(2,3))
qed

text \<open>The states that the setters of a validator can reach from a new channel.\<close>

inductive counters_reachable :: "policy_filter \<Rightarrow> enforcement_state \<Rightarrow> bool" for f where
  counters_new: "counters_reachable f (enforcement_state_new v)"
| counters_holder: "counters_reachable f st \<Longrightarrow> set_next_holder_commit_num f st num i sigs = Ok st' \<Longrightarrow>
    counters_reachable f st'"
| counters_commit: "counters_reachable f st \<Longrightarrow> set_next_counterparty_commit_num f st num p i = Ok st' \<Longrightarrow>
    counters_reachable f st'"
| counters_revoke: "counters_reachable f st \<Longrightarrow> set_next_counterparty_revoke_num f st num = Ok st' \<Longrightarrow>
    counters_reachable f st'"

lemma set_holder_keeps:
  assumes "set_next_holder_commit_num f st num i sigs = Ok st'"
  shows "next_counterparty_commit_num st' = next_counterparty_commit_num st"
    and "next_counterparty_revoke_num st' = next_counterparty_revoke_num st"
    and "current_counterparty_point st' = current_counterparty_point st"
  using assms by (auto simp: set_next_holder_commit_num_def Let_def bindo_Ok_iff estate_set_next_holder_commit_num_def)

lemma counters_reachable_inv:
  assumes "counters_reachable f st" and "enforced f revoked_tag"
  shows "cp_counters_ok st \<and> cp_point_known st"
  using assms
proof (induction rule: counters_reachable.induct)
  case (counters_new v)
  then show ?case by (simp add: cp_counters_ok_def cp_point_known_def)
next
  case (counters_holder st num i sigs st')
  with set_holder_keeps [OF counters_holder.hyps(2)] show ?case
    by (simp add: cp_counters_ok_def cp_point_known_def)
next
  case (counters_commit st num p i st')
  with set_cp_commit_num_keeps [OF counters_commit.hyps(2)] show ?case by simp
next
  case (counters_revoke st num st')
  with set_cp_revoke_num_keeps [OF counters_revoke.hyps(2)] show ?case by simp
qed

lemma set_cp_commit_num_not_Panic:
  assumes "cp_point_known st" and "enforced f revoked_tag"
  shows "set_next_counterparty_commit_num f st num p i \<noteq> Panic"
  using assms
  by (auto simp: set_next_counterparty_commit_num_def Let_def bindo_Panic_iff guarded_iff policy_simps
      unwrap_iff estate_set_next_counterparty_commit_num_def asserts_iff cp_point_known_def word_neq_0_conv
      split: if_splits)

text \<open>
  C0: At most two counterparty commitments are unrevoked at any time.  In every state that the
  validator's setters reach from a new channel, with the tag
  \<^verbatim>\<open>policy-commitment-previous-revoked\<close> enforced, no commitment was signed at all, or the next
  commitment number is one or two above the next revocation number; and the assertion about the
  stored point in \<^verbatim>\<open>set_next_counterparty_commit_num\<close> cannot fail.
\<close>

theorem counterparty_two_unrevoked:
  assumes "counters_reachable f st" and "enforced f ''policy-commitment-previous-revoked''"
  shows "((next_counterparty_commit_num st = 0 \<and> next_counterparty_revoke_num st = 0) \<or>
          next_counterparty_commit_num st - next_counterparty_revoke_num st \<in> {1, 2}) \<and>
         set_next_counterparty_commit_num f st num p i \<noteq> Panic"
  using counters_reachable_inv [OF assms] set_cp_commit_num_not_Panic [OF _ assms(2)]
  by (auto simp: cp_counters_ok_def)

theorem counterparty_two_unrevoked_witness:
  "\<exists>st. set_next_counterparty_commit_num default_filter (enforcement_state_new 0) 1 [2] example_info = Ok st \<and>
     ((next_counterparty_commit_num st = 0 \<and> next_counterparty_revoke_num st = 0) \<or>
      next_counterparty_commit_num st - next_counterparty_revoke_num st \<in> {1, 2}) \<and>
     set_next_counterparty_commit_num default_filter st 2 [3] example_info \<noteq> Panic"
proof -
  have "\<exists>st. set_next_counterparty_commit_num default_filter (enforcement_state_new 0) 1 [2] example_info = Ok st"
    by (simp add: set_next_counterparty_commit_num_def guarded_def
        estate_set_next_counterparty_commit_num_def asserts_def Let_def)
  then obtain st where st: "set_next_counterparty_commit_num default_filter (enforcement_state_new 0) 1 [2]
      example_info = Ok st" by blast
  have "counters_reachable default_filter st"
    by (rule counters_commit [OF counters_new st])
  from counterparty_two_unrevoked [OF this, of 2 "[3]" example_info] st show ?thesis by auto
qed



end
