(* ===== verification/Transactions.thy ===== *)
theory Transactions
  imports Enforcement_State
begin

text \<open>
  Bitcoin transactions as the signer sees them, and \<^verbatim>\<open>vls-core/src/util/transaction_utils.rs\<close>.
  What the code takes from \<^verbatim>\<open>rust-bitcoin\<close> and the Lightning library (hashes, weights, script
  templates, key arithmetic, signatures) is code outside the repository: it is the record \<open>lib\<close>
  of functions, an argument of every definition that calls it.
\<close>

section \<open>Transactions\<close>

record tx_in =
  previous_output :: outpoint
  script_sig :: script
  tx_sequence :: u32
  witness :: "bytes list"

record tx_out =
  out_value :: u64
  script_pubkey :: script

record transaction =
  tx_version :: int
  lock_time :: u32
  tx_inputs :: "tx_in list"
  tx_outputs :: "tx_out list"

text \<open>\<^verbatim>\<open>HTLCOutputInCommitment\<close> and \<^verbatim>\<open>TxCreationKeys\<close> of the Lightning library.\<close>

record htlc_in_commitment =
  offered :: bool
  amount_msat :: u64
  htlc_cltv_expiry :: u32
  htlc_payment_hash :: payment_hash
  transaction_output_index :: "u32 option"

record tx_creation_keys =
  per_commitment_point :: pubkey
  revocation_key :: pubkey
  broadcaster_htlc_key :: pubkey
  countersignatory_htlc_key :: pubkey
  broadcaster_delayed_payment_key :: pubkey

text \<open>
  A built commitment transaction: the transaction, the HTLCs with their output indices, the
  (backwards counting) commitment number and the keys.
\<close>

record commitment_transaction =
  ct_transaction :: transaction
  ct_htlcs :: "htlc_in_commitment list"
  ct_commitment_number :: u64
  ct_keys :: tx_creation_keys

datatype sighash_type = SighashAll | SinglePlusAnyoneCanPay

record signer_keys =
  holder_pubkeys :: channel_public_keys
  counterparty_pubkeys :: channel_public_keys
  commitment_seed :: bytes
  funding_key :: bytes
  revocation_base_key :: bytes
  payment_key :: bytes
  delayed_payment_base_key :: bytes
  htlc_base_key :: bytes

text \<open>\<^verbatim>\<open>ChannelTransactionParameters\<close>; the funding output index is a \<^verbatim>\<open>u16\<close> there.\<close>

record channel_parameters =
  cp_holder_pubkeys :: channel_public_keys
  cp_holder_selected_contest_delay :: u16
  cp_is_outbound_from_holder :: bool
  cp_counterparty_pubkeys :: channel_public_keys
  cp_counterparty_selected_contest_delay :: u16
  cp_funding_txid :: bytes
  cp_funding_index :: u16
  cp_opt_anchors :: bool
  cp_opt_non_zero_fee_anchors :: bool

datatype instruction = Op u8 | PushBytes bytes

record lib =
  lib_sha256 :: "bytes \<Rightarrow> bytes"
  lib_txid :: "transaction \<Rightarrow> bytes"
  lib_weight :: "transaction \<Rightarrow> nat"
  lib_size :: "transaction \<Rightarrow> nat"
  lib_is_witness_program :: "script \<Rightarrow> bool"
  lib_is_v0_p2wpkh :: "script \<Rightarrow> bool"
  lib_is_v0_p2wsh :: "script \<Rightarrow> bool"
  lib_to_v0_p2wsh :: "script \<Rightarrow> script"
  lib_payload_from_script :: "script \<Rightarrow> bytes option"
  lib_instructions :: "script \<Rightarrow> instruction option list"
  lib_classify_pushnum :: "u8 \<Rightarrow> int option"
  lib_read_scriptint :: "bytes \<Rightarrow> int option"
  lib_parse_pubkey :: "bytes \<Rightarrow> pubkey option"
  lib_make_funding_redeemscript :: "pubkey \<Rightarrow> pubkey \<Rightarrow> script"
  lib_closing_transaction :: "u64 \<Rightarrow> u64 \<Rightarrow> script \<Rightarrow> script \<Rightarrow> outpoint \<Rightarrow> transaction"
  lib_htlc_timeout_tx_weight :: "bool \<Rightarrow> u64"
  lib_htlc_success_tx_weight :: "bool \<Rightarrow> u64"
  lib_build_htlc_transaction :: "bytes \<Rightarrow> u32 \<Rightarrow> u16 \<Rightarrow> htlc_in_commitment \<Rightarrow> bool \<Rightarrow> bool \<Rightarrow>
      pubkey \<Rightarrow> pubkey \<Rightarrow> transaction"
  lib_segwit_sighash :: "transaction \<Rightarrow> nat \<Rightarrow> script \<Rightarrow> u64 \<Rightarrow> sighash_type \<Rightarrow> bytes"
  lib_public_key :: "bytes \<Rightarrow> pubkey"
  lib_derive_public_key :: "pubkey \<Rightarrow> pubkey \<Rightarrow> pubkey option"
  lib_derive_public_revocation_key :: "pubkey \<Rightarrow> pubkey \<Rightarrow> pubkey"
  lib_derive_private_key :: "pubkey \<Rightarrow> bytes \<Rightarrow> bytes"
  lib_derive_private_revocation_key :: "bytes \<Rightarrow> bytes \<Rightarrow> bytes"
  lib_derive_tx_keys :: "pubkey \<Rightarrow> pubkey \<Rightarrow> pubkey \<Rightarrow> pubkey \<Rightarrow> pubkey \<Rightarrow> tx_creation_keys"
  lib_release_commitment_secret :: "bytes \<Rightarrow> u64 \<Rightarrow> secret"
  lib_get_per_commitment_point :: "bytes \<Rightarrow> u64 \<Rightarrow> pubkey"
  lib_secret_key_valid :: "bytes \<Rightarrow> bool"
  lib_new_commitment_tx :: "bool \<Rightarrow> u64 \<Rightarrow> u64 \<Rightarrow> u64 \<Rightarrow> bool \<Rightarrow> pubkey \<Rightarrow> pubkey \<Rightarrow> tx_creation_keys \<Rightarrow> u32 \<Rightarrow>
      htlc_in_commitment list \<Rightarrow> channel_parameters \<Rightarrow> commitment_transaction"
  lib_with_non_zero_fee_anchors :: "commitment_transaction \<Rightarrow> commitment_transaction"
  lib_sign_counterparty_commitment :: "signer_keys \<Rightarrow> commitment_transaction \<Rightarrow> (signature \<times> signature list) option"
  lib_sign_holder_commitment :: "signer_keys \<Rightarrow> commitment_transaction \<Rightarrow> (signature \<times> signature list) option"
  lib_sign_closing :: "signer_keys \<Rightarrow> transaction \<Rightarrow> signature option"
  lib_sign_ecdsa :: "bytes \<Rightarrow> bytes \<Rightarrow> signature"
  lib_verify_ecdsa :: "bytes \<Rightarrow> signature \<Rightarrow> pubkey \<Rightarrow> bool"
  lib_get_htlc_redeemscript :: "htlc_in_commitment \<Rightarrow> bool \<Rightarrow> tx_creation_keys \<Rightarrow> script"
  lib_get_revokeable_redeemscript :: "pubkey \<Rightarrow> u16 \<Rightarrow> pubkey \<Rightarrow> script"
  lib_serialize_der :: "signature \<Rightarrow> bytes"
  lib_dust_value :: "script \<Rightarrow> u64"
  lib_txout_len :: "tx_out \<Rightarrow> nat"
  lib_varint_len :: "nat \<Rightarrow> nat"
  lib_sha256d :: "bytes \<Rightarrow> bytes"

text \<open>A library with simple concrete functions, on which the properties are exercised.\<close>

definition example_tx :: transaction where
  "example_tx = \<lparr>tx_version = 2, lock_time = 0,
     tx_inputs = [\<lparr>previous_output = OutPoint [7] 0, script_sig = [], tx_sequence = 0, witness = []\<rparr>],
     tx_outputs = [\<lparr>out_value = 2000000, script_pubkey = [0, 20, 1]\<rparr>]\<rparr>"

definition example_lib :: lib where
  "example_lib =
     \<lparr>lib_sha256 = rev, lib_txid = (\<lambda>t. [of_nat (length (tx_outputs t))]), lib_weight = (\<lambda>t. 500),
      lib_size = (\<lambda>t. 200), lib_is_witness_program = (\<lambda>s. take 1 s = [0]),
      lib_is_v0_p2wpkh = (\<lambda>s. take 2 s = [0, 20]), lib_is_v0_p2wsh = (\<lambda>s. take 2 s = [0, 32]),
      lib_to_v0_p2wsh = (\<lambda>s. [0, 32] @ s), lib_payload_from_script = Some,
      lib_instructions = map (Some \<circ> Op), lib_classify_pushnum = (\<lambda>c. Some (uint c)),
      lib_read_scriptint = (\<lambda>d. Some 0), lib_parse_pubkey = Some,
      lib_make_funding_redeemscript = (@),
      lib_closing_transaction = (\<lambda>h c hs cs op. \<lparr>tx_version = 2, lock_time = 0,
         tx_inputs = [\<lparr>previous_output = op, script_sig = [], tx_sequence = - 1, witness = []\<rparr>],
         tx_outputs = (if h = 0 then [] else [\<lparr>out_value = h, script_pubkey = hs\<rparr>]) @
                      (if c = 0 then [] else [\<lparr>out_value = c, script_pubkey = cs\<rparr>])\<rparr>),
      lib_htlc_timeout_tx_weight = (\<lambda>a. if a then 666 else 663),
      lib_htlc_success_tx_weight = (\<lambda>a. if a then 706 else 703),
      lib_build_htlc_transaction = (\<lambda>_ _ _ _ _ _ _ _. example_tx),
      lib_segwit_sighash = (\<lambda>_ _ _ _ _. []), lib_public_key = (\<lambda>k. 2 # k),
      lib_derive_public_key = (\<lambda>a b. Some (a @ b)), lib_derive_public_revocation_key = (@),
      lib_derive_private_key = (@), lib_derive_private_revocation_key = (@),
      lib_derive_tx_keys = (\<lambda>p a b c d. \<lparr>per_commitment_point = p, revocation_key = c,
         broadcaster_htlc_key = b, countersignatory_htlc_key = d, broadcaster_delayed_payment_key = a\<rparr>),
      lib_release_commitment_secret = (\<lambda>seed idx. derive_secret rev seed 48 idx),
      lib_get_per_commitment_point = (\<lambda>seed idx. 2 # derive_secret rev seed 48 idx),
      lib_secret_key_valid = (\<lambda>_. True),
      lib_new_commitment_tx = (\<lambda>_ n _ _ _ _ _ ks _ hs _.
         \<lparr>ct_transaction = example_tx, ct_htlcs = hs, ct_commitment_number = n, ct_keys = ks\<rparr>),
      lib_with_non_zero_fee_anchors = id,
      lib_sign_counterparty_commitment = (\<lambda>_ _. Some ([1], [])),
      lib_sign_holder_commitment = (\<lambda>_ _. Some ([1], [])), lib_sign_closing = (\<lambda>_ _. Some [1]),
      lib_sign_ecdsa = (\<lambda>_ _. [1]), lib_verify_ecdsa = (\<lambda>_ _ _. True),
      lib_get_htlc_redeemscript = (\<lambda>_ _ _. []), lib_get_revokeable_redeemscript = (\<lambda>r d k. r @ k),
      lib_serialize_der = id, lib_dust_value = (\<lambda>_. 294), lib_txout_len = (\<lambda>_. 31),
      lib_varint_len = (\<lambda>n. if n < 253 then 1 else 3), lib_sha256d = rev\<rparr>"

definition example_keys :: signer_keys where
  "example_keys = \<lparr>holder_pubkeys = counterparty_points example_setup,
     counterparty_pubkeys = counterparty_points example_setup, commitment_seed = replicate 32 3,
     funding_key = [], revocation_base_key = [], payment_key = [], delayed_payment_base_key = [],
     htlc_base_key = []\<rparr>"

section \<open>transaction\_utils.rs\<close>

definition MIN_DUST_LIMIT_SATOSHIS :: u64 where
  "MIN_DUST_LIMIT_SATOSHIS = 330"

definition MIN_CHAN_DUST_LIMIT_SATOSHIS :: u64 where
  "MIN_CHAN_DUST_LIMIT_SATOSHIS = 354"

definition expected_commitment_tx_weight :: "bool \<Rightarrow> nat \<Rightarrow> nat" where
  "expected_commitment_tx_weight opt_anchors num_untrimmed_htlc =
     (if opt_anchors then 1124 else 724) + num_untrimmed_htlc * 172"

definition mutual_close_tx_weight :: "lib \<Rightarrow> transaction \<Rightarrow> nat" where
  "mutual_close_tx_weight L unsigned_tx =
     lib_weight L unsigned_tx +
     (2 + 1 + 4 + 72 + 72 + 1 + 1 + 33 + 1 + 33 + 1 + 1)"

text \<open>Division by a zero weight panics; the result is cut to 32 bits.\<close>

definition estimate_feerate_per_kw :: "u64 \<Rightarrow> u64 \<Rightarrow> ('e, u32) outcome" where
  "estimate_feerate_per_kw total_fee weight =
     bindo (asserts (weight \<noteq> 0)) (\<lambda>_. Ok (ucast ((total_fee * 1000 + 999) div weight)))"

text \<open>Later input transactions with the same id replace earlier ones in the map.\<close>

fun inputs_segwit :: "lib \<Rightarrow> (bytes, transaction) amap \<Rightarrow> tx_in list \<Rightarrow> bool" where
  "inputs_segwit L in_tx_map [] = True"
| "inputs_segwit L in_tx_map (inp # inps) =
     (case map_of in_tx_map (op_txid (previous_output inp)) of
        None \<Rightarrow> False
      | Some in_tx \<Rightarrow>
          if unat (op_vout (previous_output inp)) < length (tx_outputs in_tx) then
            (if lib_is_witness_program L
                  (script_pubkey (tx_outputs in_tx ! unat (op_vout (previous_output inp))))
             then inputs_segwit L in_tx_map inps else False)
          else False)"

definition is_tx_non_malleable :: "lib \<Rightarrow> transaction \<Rightarrow> transaction list \<Rightarrow> bool" where
  "is_tx_non_malleable L tx input_txs =
     inputs_segwit L (rev (map (\<lambda>t. (lib_txid L t, t)) input_txs)) (tx_inputs tx)"

text \<open>
  \<^verbatim>\<open>maybe_add_change_output\<close>: the code computes the fee in \<^verbatim>\<open>i64\<close>; weights (at most four million)
  times a 32 bit rate stay inside that range, so the arithmetic is that of \<open>int\<close>.
\<close>

definition MAX_VALUE_MSAT :: u64 where
  "MAX_VALUE_MSAT = 2100000000000000000"

definition output_sum_below :: "u64 \<Rightarrow> tx_out list \<Rightarrow> (unit, u64) outcome" where
  "output_sum_below input_value outs =
     foldo (\<lambda>out s. let s' = s + out_value out in if s' \<ge> input_value then Err () else Ok s') outs 0"

definition fee_for_weight :: "int \<Rightarrow> u32 \<Rightarrow> int" where
  "fee_for_weight w feerate = (w * uint feerate) div 1000"

definition maybe_add_change_output ::
    "lib \<Rightarrow> transaction \<Rightarrow> u64 \<Rightarrow> nat \<Rightarrow> u32 \<Rightarrow> script \<Rightarrow> (unit, transaction) outcome" where
  "maybe_add_change_output L tx input_value witness_max_weight feerate change_destination_script =
     (if input_value > MAX_VALUE_MSAT div 1000 then Err ()
      else
        bindo (output_sum_below input_value (tx_outputs tx)) (\<lambda>output_value.
        let dust_value = lib_dust_value L change_destination_script;
            change_output = \<lparr>out_value = 0, script_pubkey = change_destination_script\<rparr>;
            change_len = lib_txout_len L change_output;
            n = length (tx_outputs tx);
            base_weight = int (lib_weight L tx) + 2 + int witness_max_weight;
            weight_with_change = base_weight + int change_len * 4
              + (int (lib_varint_len L (n + 1)) - int (lib_varint_len L n)) * 4;
            change_value = uint (input_value - output_value) - fee_for_weight weight_with_change feerate
        in if change_value \<ge> uint dust_value then
             Ok (tx\<lparr>tx_outputs := tx_outputs tx @ [change_output\<lparr>out_value := of_int change_value\<rparr>]\<rparr>)
           else if uint (input_value - output_value) - fee_for_weight base_weight feerate < 0 then Err ()
           else Ok tx))"

definition add_holder_sig ::
    "lib \<Rightarrow> signature \<Rightarrow> signature \<Rightarrow> pubkey \<Rightarrow> pubkey \<Rightarrow> transaction \<Rightarrow> ('e, transaction) outcome" where
  "add_holder_sig L holder_sig counterparty_sig holder_funding_key counterparty_funding_key tx =
     (let funding_redeemscript = lib_make_funding_redeemscript L holder_funding_key counterparty_funding_key;
          ser_holder_sig = lib_serialize_der L holder_sig @ [1];
          ser_cp_sig = lib_serialize_der L counterparty_sig @ [1];
          holder_sig_first = holder_funding_key < counterparty_funding_key;
          stack = [[]] @ (if holder_sig_first then [ser_holder_sig, ser_cp_sig] else [ser_cp_sig, ser_holder_sig])
                  @ [funding_redeemscript]
      in case tx_inputs tx of
           [] \<Rightarrow> Panic
         | inp # inps \<Rightarrow> Ok (tx\<lparr>tx_inputs := inp\<lparr>witness := witness inp @ stack\<rparr> # inps\<rparr>))"

section \<open>Channels\<close>

type_synonym channel_id = bytes

record channel_stub =
  stub_keys :: signer_keys
  stub_id0 :: channel_id
  stub_blockheight :: u32

record channel =
  chan_keys :: signer_keys
  enforcement_state :: enforcement_state
  chan_setup :: channel_setup
  chan_id0 :: channel_id
  chan_id :: "channel_id option"

datatype channel_slot = Stub channel_stub | Ready channel

definition slot_id :: "channel_slot \<Rightarrow> channel_id" where
  "slot_id s = (case s of Stub st \<Rightarrow> stub_id0 st | Ready c \<Rightarrow> chan_id0 c)"

definition channel_id_of :: "channel \<Rightarrow> channel_id" where
  "channel_id_of c = (case chan_id c of Some i \<Rightarrow> i | None \<Rightarrow> chan_id0 c)"

text \<open>The wallet that validators consult (\<^verbatim>\<open>vls-core/src/wallet.rs\<close>).\<close>

record 's wallet =
  can_spend :: "u32 list \<Rightarrow> script \<Rightarrow> ('s, bool) outcome"
  allowlist_contains_payee :: "pubkey \<Rightarrow> bool"
  allowlist_contains :: "script \<Rightarrow> u32 list \<Rightarrow> bool"

section \<open>Fee rates\<close>

lemma estimate_feerate_exact:
  assumes "unat fee * 1000 + 999 < 2 ^ 64" and "0 < w" and "(unat fee * 1000 + 999) div unat w < 2 ^ 32"
  shows "\<exists>r. estimate_feerate_per_kw fee w = (Ok r :: ('e, u32) outcome) \<and>
             unat r = (unat fee * 1000 + 999) div unat w"
proof -
  have "unat (fee * 1000 + 999) = unat fee * 1000 + 999"
    using assms(1) by (simp add: unat_word_ariths)
  then have "unat ((fee * 1000 + 999) div w) = (unat fee * 1000 + 999) div unat w"
    by (simp add: unat_div)
  then have "unat (ucast ((fee * 1000 + 999) div w) :: u32) = (unat fee * 1000 + 999) div unat w"
    using assms(3) by (simp add: unsigned_ucast_eq take_bit_nat_eq_self_iff)
  then show ?thesis using assms(2) by (auto simp: estimate_feerate_per_kw_def asserts_def)
qed

text \<open>
  Without the bounds the rate is too small: the conversion to \<^verbatim>\<open>u32\<close> drops the high bits.  A fee
  of about 26 bitcoin on a transaction of weight 600 is taken for a rate below the minimum.
\<close>

lemma estimate_feerate_truncates:
  "estimate_feerate_per_kw 2576980378 600 = (Ok 2 :: (unit, u32) outcome)"
  by (simp add: estimate_feerate_per_kw_def asserts_def)

end
