(* ===== verification/Tx_Script.thy ===== *)
theory Tx_Script
  imports Policy_Core Transactions
begin

text \<open>
  \<^verbatim>\<open>vls-core/src/tx/script.rs\<close> and the phase 1 part of \<^verbatim>\<open>vls-core/src/tx/tx.rs\<close>: the parsers of the
  output scripts of a commitment transaction and \<^verbatim>\<open>CommitmentInfo\<close>, which collects what they
  find.  The iterator over a script's instructions is the list that remains to be read (\<open>None\<close> is
  an item that does not decode); a parser returns what it read and the rest.
\<close>

section \<open>Reading instructions\<close>

type_synonym instrs = "instruction option list"
type_synonym 'a parser = "instrs \<Rightarrow> (validation_error, 'a \<times> instrs) outcome"

definition bindp :: "'a parser \<Rightarrow> ('a \<Rightarrow> 'b parser) \<Rightarrow> 'b parser" where
  "bindp p f = (\<lambda>iter. bindo (p iter) (\<lambda>(a, iter'). f a iter'))"

definition returnp :: "'a \<Rightarrow> 'a parser" where
  "returnp a = (\<lambda>iter. Ok (a, iter))"

definition failp :: "validation_error \<Rightarrow> 'a parser" where
  "failp e = (\<lambda>iter. Err e)"

fun expect_next :: "instruction parser" where
  "expect_next [] = Err (Mismatch ''unexpected end'')"
| "expect_next (None # iter) = Err (Mismatch ''unparseable opcode'')"
| "expect_next (Some ins # iter) = Ok (ins, iter)"

definition expect_op :: "u8 \<Rightarrow> unit parser" where
  "expect_op opc = bindp expect_next (\<lambda>ins. case ins of
     Op c \<Rightarrow> if c = opc then returnp () else failp (Mismatch ''expected op {}, saw {}'')
   | PushBytes d \<Rightarrow> failp (Mismatch ''expected op, saw {:?}''))"

definition expect_number :: "lib \<Rightarrow> int parser" where
  "expect_number L = bindp expect_next (\<lambda>ins. case ins of
     Op c \<Rightarrow> (case lib_classify_pushnum L c of
        Some i \<Rightarrow> returnp i
      | None \<Rightarrow> failp (Mismatch ''expected PushNum, saw {:?}''))
   | PushBytes d \<Rightarrow> (case lib_read_scriptint L d of
        Some i \<Rightarrow> returnp i
      | None \<Rightarrow> failp (Mismatch ''read_scriptint failed: {:?}'')))"

definition expect_script_end :: "unit parser" where
  "expect_script_end = (\<lambda>iter. if iter = [] then Ok ((), iter)
     else Err (Mismatch ''expected script end, saw {:?}''))"

definition expect_data :: "bytes parser" where
  "expect_data = bindp expect_next (\<lambda>ins. case ins of
     PushBytes d \<Rightarrow> returnp d
   | Op c \<Rightarrow> failp (Mismatch ''expected data, saw {:?}''))"

abbreviation "OP_PUSHNUM_1 \<equiv> 0x51 :: u8"
abbreviation "OP_PUSHNUM_2 \<equiv> 0x52 :: u8"
abbreviation "OP_PUSHNUM_16 \<equiv> 0x60 :: u8"
abbreviation "OP_IF \<equiv> 0x63 :: u8"
abbreviation "OP_NOTIF \<equiv> 0x64 :: u8"
abbreviation "OP_ELSE \<equiv> 0x67 :: u8"
abbreviation "OP_ENDIF \<equiv> 0x68 :: u8"
abbreviation "OP_IFDUP \<equiv> 0x73 :: u8"
abbreviation "OP_DROP \<equiv> 0x75 :: u8"
abbreviation "OP_DUP \<equiv> 0x76 :: u8"
abbreviation "OP_SWAP \<equiv> 0x7c :: u8"
abbreviation "OP_SIZE \<equiv> 0x82 :: u8"
abbreviation "OP_EQUAL \<equiv> 0x87 :: u8"
abbreviation "OP_EQUALVERIFY \<equiv> 0x88 :: u8"
abbreviation "OP_HASH160 \<equiv> 0xa9 :: u8"
abbreviation "OP_CHECKSIG \<equiv> 0xac :: u8"
abbreviation "OP_CHECKSIGVERIFY \<equiv> 0xad :: u8"
abbreviation "OP_CHECKMULTISIG \<equiv> 0xae :: u8"
abbreviation "OP_CLTV \<equiv> 0xb1 :: u8"
abbreviation "OP_CSV \<equiv> 0xb2 :: u8"

text \<open>A run of expected opcodes.\<close>

primrec expect_ops :: "u8 list \<Rightarrow> unit parser" where
  "expect_ops [] = returnp ()"
| "expect_ops (opc # opcs) = bindp (expect_op opc) (\<lambda>_. expect_ops opcs)"

definition run_parser :: "lib \<Rightarrow> script \<Rightarrow> 'a parser \<Rightarrow> (validation_error, 'a) outcome" where
  "run_parser L scr p = bindo (p (lib_instructions L scr)) (\<lambda>(a, _). Ok a)"

section \<open>The script templates\<close>

definition parse_received_htlc_script ::
    "lib \<Rightarrow> script \<Rightarrow> bool \<Rightarrow> (validation_error, bytes \<times> bytes \<times> bytes \<times> bytes \<times> int) outcome" where
  "parse_received_htlc_script L scr anchors = run_parser L scr (
     bindp (expect_ops [OP_DUP, OP_HASH160]) (\<lambda>_.
     bindp expect_data (\<lambda>revocation_hash.
     bindp (expect_ops [OP_EQUAL, OP_IF, OP_CHECKSIG, OP_ELSE]) (\<lambda>_.
     bindp expect_data (\<lambda>remote_htlc_pubkey.
     bindp (expect_ops [OP_SWAP, OP_SIZE]) (\<lambda>_.
     bindp (expect_number L) (\<lambda>thirty_two.
     bindp (if thirty_two \<noteq> 32 then failp (Mismatch ''expected 32, saw {}'') else returnp ()) (\<lambda>_.
     bindp (expect_ops [OP_EQUAL, OP_IF, OP_HASH160]) (\<lambda>_.
     bindp expect_data (\<lambda>payment_hash_vec.
     bindp (expect_ops [OP_EQUALVERIFY, OP_PUSHNUM_2, OP_SWAP]) (\<lambda>_.
     bindp expect_data (\<lambda>local_htlc_pubkey.
     bindp (expect_ops [OP_PUSHNUM_2, OP_CHECKMULTISIG, OP_ELSE, OP_DROP]) (\<lambda>_.
     bindp (expect_number L) (\<lambda>cltv_expiry.
     bindp (expect_ops [OP_CLTV, OP_DROP, OP_CHECKSIG, OP_ENDIF]) (\<lambda>_.
     bindp (if anchors then expect_ops [OP_PUSHNUM_1, OP_CSV, OP_DROP] else returnp ()) (\<lambda>_.
     bindp (expect_ops [OP_ENDIF]) (\<lambda>_.
     bindp expect_script_end (\<lambda>_.
     returnp (revocation_hash, remote_htlc_pubkey, payment_hash_vec, local_htlc_pubkey,
              cltv_expiry)))))))))))))))))))"

definition parse_offered_htlc_script ::
    "lib \<Rightarrow> script \<Rightarrow> bool \<Rightarrow> (validation_error, bytes \<times> bytes \<times> bytes \<times> bytes) outcome" where
  "parse_offered_htlc_script L scr anchors = run_parser L scr (
     bindp (expect_ops [OP_DUP, OP_HASH160]) (\<lambda>_.
     bindp expect_data (\<lambda>revocation_hash.
     bindp (expect_ops [OP_EQUAL, OP_IF, OP_CHECKSIG, OP_ELSE]) (\<lambda>_.
     bindp expect_data (\<lambda>remote_htlc_pubkey.
     bindp (expect_ops [OP_SWAP, OP_SIZE]) (\<lambda>_.
     bindp (expect_number L) (\<lambda>thirty_two.
     bindp (if thirty_two \<noteq> 32 then failp (Mismatch ''expected 32, saw {}'') else returnp ()) (\<lambda>_.
     bindp (expect_ops [OP_EQUAL, OP_NOTIF, OP_DROP, OP_PUSHNUM_2, OP_SWAP]) (\<lambda>_.
     bindp expect_data (\<lambda>local_htlc_pubkey.
     bindp (expect_ops [OP_PUSHNUM_2, OP_CHECKMULTISIG, OP_ELSE, OP_HASH160]) (\<lambda>_.
     bindp expect_data (\<lambda>payment_hash_vec.
     bindp (expect_ops [OP_EQUALVERIFY, OP_CHECKSIG, OP_ENDIF]) (\<lambda>_.
     bindp (if anchors then expect_ops [OP_PUSHNUM_1, OP_CSV, OP_DROP] else returnp ()) (\<lambda>_.
     bindp (expect_ops [OP_ENDIF]) (\<lambda>_.
     bindp expect_script_end (\<lambda>_.
     returnp (revocation_hash, remote_htlc_pubkey, local_htlc_pubkey,
              payment_hash_vec)))))))))))))))))"

definition parse_to_broadcaster_script ::
    "lib \<Rightarrow> script \<Rightarrow> (validation_error, bytes \<times> int \<times> bytes) outcome" where
  "parse_to_broadcaster_script L scr = run_parser L scr (
     bindp (expect_ops [OP_IF]) (\<lambda>_.
     bindp expect_data (\<lambda>revocation_pubkey.
     bindp (expect_ops [OP_ELSE]) (\<lambda>_.
     bindp (expect_number L) (\<lambda>delay.
     bindp (expect_ops [OP_CSV, OP_DROP]) (\<lambda>_.
     bindp expect_data (\<lambda>delayed_pubkey.
     bindp (expect_ops [OP_ENDIF, OP_CHECKSIG]) (\<lambda>_.
     bindp expect_script_end (\<lambda>_.
     returnp (revocation_pubkey, delay, delayed_pubkey))))))))))"

definition parse_revokeable_redeemscript ::
    "lib \<Rightarrow> script \<Rightarrow> bool \<Rightarrow> (validation_error, bytes \<times> int \<times> bytes) outcome" where
  "parse_revokeable_redeemscript L scr anchors = run_parser L scr (
     bindp (expect_ops [OP_IF]) (\<lambda>_.
     bindp expect_data (\<lambda>revocation_key.
     bindp (expect_ops [OP_ELSE]) (\<lambda>_.
     bindp (expect_number L) (\<lambda>contest_delay.
     bindp (expect_ops [OP_CSV, OP_DROP]) (\<lambda>_.
     bindp expect_data (\<lambda>delayed_pubkey.
     bindp (expect_ops [OP_ENDIF, OP_CHECKSIG]) (\<lambda>_.
     bindp expect_script_end (\<lambda>_.
     returnp (revocation_key, contest_delay, delayed_pubkey))))))))))"

definition parse_to_countersigner_delayed_script ::
    "lib \<Rightarrow> script \<Rightarrow> (validation_error, bytes) outcome" where
  "parse_to_countersigner_delayed_script L scr = run_parser L scr (
     bindp expect_data (\<lambda>pubkey_data.
     bindp (expect_ops [OP_CHECKSIGVERIFY, OP_PUSHNUM_1, OP_CSV]) (\<lambda>_.
     bindp expect_script_end (\<lambda>_.
     returnp pubkey_data))))"

definition parse_anchor_script :: "lib \<Rightarrow> script \<Rightarrow> (validation_error, bytes) outcome" where
  "parse_anchor_script L scr = run_parser L scr (
     bindp expect_data (\<lambda>to_pubkey_data.
     bindp (expect_ops [OP_CHECKSIG, OP_IFDUP, OP_NOTIF, OP_PUSHNUM_16, OP_CSV, OP_ENDIF]) (\<lambda>_.
     bindp expect_script_end (\<lambda>_.
     returnp to_pubkey_data))))"

section \<open>Collecting the outputs\<close>

definition ANCHOR_SAT :: u64 where
  "ANCHOR_SAT = 330"

definition MAX_DELAY :: int where
  "MAX_DELAY = 2016"

record htlc_info =
  hi_value_sat :: u64
  hi_payment_hash_hash :: bytes
  hi_cltv_expiry :: u32

record commitment_info =
  ci_is_counterparty_broadcaster :: bool
  ci_to_countersigner_address :: "bytes option"
  ci_to_countersigner_pubkey :: "pubkey option"
  ci_to_countersigner_value_sat :: u64
  ci_to_countersigner_anchor_count :: u16
  ci_revocation_pubkey :: "pubkey option"
  ci_to_broadcaster_delayed_pubkey :: "pubkey option"
  ci_to_broadcaster_value_sat :: u64
  ci_to_self_delay :: u16
  ci_to_broadcaster_anchor_count :: u16
  ci_offered_htlcs :: "htlc_info list"
  ci_received_htlcs :: "htlc_info list"

definition commitment_info_new :: "bool \<Rightarrow> commitment_info" where
  "commitment_info_new cp =
     \<lparr>ci_is_counterparty_broadcaster = cp, ci_to_countersigner_address = None,
      ci_to_countersigner_pubkey = None, ci_to_countersigner_value_sat = 0,
      ci_to_countersigner_anchor_count = 0, ci_revocation_pubkey = None,
      ci_to_broadcaster_delayed_pubkey = None, ci_to_broadcaster_value_sat = 0,
      ci_to_self_delay = 0, ci_to_broadcaster_anchor_count = 0, ci_offered_htlcs = [],
      ci_received_htlcs = []\<rparr>"

definition has_to_broadcaster :: "commitment_info \<Rightarrow> bool" where
  "has_to_broadcaster i \<longleftrightarrow> ci_to_broadcaster_delayed_pubkey i \<noteq> None"

definition has_to_countersigner :: "commitment_info \<Rightarrow> bool" where
  "has_to_countersigner i \<longleftrightarrow>
     ci_to_countersigner_address i \<noteq> None \<or> ci_to_countersigner_pubkey i \<noteq> None"

definition to_broadcaster_anchor_value_sat :: "commitment_info \<Rightarrow> u64" where
  "to_broadcaster_anchor_value_sat i =
     (if ci_to_broadcaster_anchor_count i = 1 then ANCHOR_SAT else 0)"

definition to_countersigner_anchor_value_sat :: "commitment_info \<Rightarrow> u64" where
  "to_countersigner_anchor_value_sat i =
     (if ci_to_countersigner_anchor_count i = 1 then ANCHOR_SAT else 0)"

definition handle_to_broadcaster_output ::
    "lib \<Rightarrow> tx_out \<Rightarrow> bytes \<times> int \<times> bytes \<Rightarrow> commitment_info \<Rightarrow> (validation_error, commitment_info) outcome" where
  "handle_to_broadcaster_output L out vals i =
     (let (revocation_pk, delay, delayed_pk) = vals in
      bindo (guarded (has_to_broadcaster i)
        (Err (TransactionFormat ''more than one to_broadcaster output''))) (\<lambda>_.
      bindo (guarded (delay < 0) (Err (ScriptFormat ''negative delay''))) (\<lambda>_.
      bindo (guarded (delay > MAX_DELAY) (Err (ScriptFormat ''delay too large: {} > {}''))) (\<lambda>_.
      bindo (ok_or (Mismatch ''delayed_pubkey malformed: {}'') (lib_parse_pubkey L delayed_pk)) (\<lambda>dpk.
      bindo (ok_or (Mismatch ''revocation_pubkey malformed: {}'') (lib_parse_pubkey L revocation_pk)) (\<lambda>rpk.
      Ok (i\<lparr>ci_to_self_delay := of_int delay, ci_to_broadcaster_value_sat := out_value out,
            ci_to_broadcaster_delayed_pubkey := Some dpk, ci_revocation_pubkey := Some rpk\<rparr>)))))))"

definition handle_to_countersigner_delayed_output ::
    "lib \<Rightarrow> tx_out \<Rightarrow> bytes \<Rightarrow> commitment_info \<Rightarrow> (validation_error, commitment_info) outcome" where
  "handle_to_countersigner_delayed_output L out data i =
     bindo (guarded (has_to_countersigner i)
        (Err (TransactionFormat ''more than one to_countersigner output''))) (\<lambda>_.
     bindo (ok_or (Mismatch ''to_countersigner delayed pubkey malformed: {}'') (lib_parse_pubkey L data)) (\<lambda>pk.
     Ok (i\<lparr>ci_to_countersigner_pubkey := Some pk, ci_to_countersigner_value_sat := out_value out\<rparr>)))"

definition handle_received_htlc_output ::
    "tx_out \<Rightarrow> bytes \<times> bytes \<times> bytes \<times> bytes \<times> int \<Rightarrow> commitment_info \<Rightarrow>
     (validation_error, commitment_info) outcome" where
  "handle_received_htlc_output out vals i =
     (let (_, _, payment_hash_vec, _, cltv_expiry) = vals in
      bindo (guarded (length payment_hash_vec \<noteq> 20)
        (Err (Mismatch ''payment hash RIPEMD160 must be length 20''))) (\<lambda>_.
      bindo (guarded (cltv_expiry < 0) (Err (ScriptFormat ''negative CLTV''))) (\<lambda>_.
      Ok (i\<lparr>ci_received_htlcs := ci_received_htlcs i @
             [\<lparr>hi_value_sat = out_value out, hi_payment_hash_hash = payment_hash_vec,
               hi_cltv_expiry = of_int cltv_expiry\<rparr>]\<rparr>))))"

definition handle_offered_htlc_output ::
    "tx_out \<Rightarrow> bytes \<times> bytes \<times> bytes \<times> bytes \<Rightarrow> commitment_info \<Rightarrow>
     (validation_error, commitment_info) outcome" where
  "handle_offered_htlc_output out vals i =
     (let (_, _, _, payment_hash_vec) = vals in
      bindo (guarded (length payment_hash_vec \<noteq> 20)
        (Err (Mismatch ''payment hash RIPEMD160 must be length 20''))) (\<lambda>_.
      Ok (i\<lparr>ci_offered_htlcs := ci_offered_htlcs i @
             [\<lparr>hi_value_sat = out_value out, hi_payment_hash_hash = payment_hash_vec,
               hi_cltv_expiry = 0\<rparr>]\<rparr>)))"

definition handle_anchor_output ::
    "lib \<Rightarrow> signer_keys \<Rightarrow> tx_out \<Rightarrow> bytes \<Rightarrow> commitment_info \<Rightarrow> (validation_error, commitment_info) outcome" where
  "handle_anchor_output L keys out data i =
     bindo (ok_or (Mismatch ''anchor to_pubkey malformed: {}'') (lib_parse_pubkey L data)) (\<lambda>to_pubkey.
     let (bcast_pk, csign_pk) =
       (if ci_is_counterparty_broadcaster i
        then (funding_pubkey (counterparty_pubkeys keys), funding_pubkey (holder_pubkeys keys))
        else (funding_pubkey (holder_pubkeys keys), funding_pubkey (counterparty_pubkeys keys)))
     in
     bindo (guarded (out_value out \<noteq> ANCHOR_SAT) (Err (Mismatch ''anchor wrong size: {}''))) (\<lambda>_.
     if to_pubkey = bcast_pk then
       Ok (i\<lparr>ci_to_broadcaster_anchor_count := ci_to_broadcaster_anchor_count i + 1\<rparr>)
     else if to_pubkey = csign_pk then
       Ok (i\<lparr>ci_to_countersigner_anchor_count := ci_to_countersigner_anchor_count i + 1\<rparr>)
     else Err (Mismatch ''anchor to_pubkey {} doesn't match local or remote'')))"

text \<open>\<^verbatim>\<open>vals.is_ok()\<close> then \<^verbatim>\<open>return\<close>, otherwise go on: the parsers are tried in order.\<close>

definition or_parse :: "(validation_error, 'a) outcome \<Rightarrow> ('a \<Rightarrow> (validation_error, 'b) outcome) \<Rightarrow>
    (validation_error, 'b) outcome \<Rightarrow> (validation_error, 'b) outcome" where
  "or_parse m f k = (case m of Ok a \<Rightarrow> f a | Err e \<Rightarrow> k | Panic \<Rightarrow> Panic)"

definition handle_output ::
    "lib \<Rightarrow> signer_keys \<Rightarrow> channel_setup \<Rightarrow> tx_out \<Rightarrow> bytes \<Rightarrow> commitment_info \<Rightarrow>
     (validation_error, commitment_info) outcome" where
  "handle_output L keys setup out script_bytes i =
     (if lib_is_v0_p2wpkh L (script_pubkey out) then
        bindo (guarded (is_anchors setup)
          (Err (TransactionFormat ''p2wpkh to_countersigner not valid with anchors''))) (\<lambda>_.
        bindo (guarded (has_to_countersigner i)
          (Err (TransactionFormat ''more than one to_countersigner output''))) (\<lambda>_.
        Ok (i\<lparr>ci_to_countersigner_address := lib_payload_from_script L (script_pubkey out),
              ci_to_countersigner_value_sat := out_value out\<rparr>)))
      else if lib_is_v0_p2wsh L (script_pubkey out) then
        bindo (guarded (script_bytes = [])
          (Err (TransactionFormat ''missing witscript for p2wsh''))) (\<lambda>_.
        bindo (guarded (script_pubkey out \<noteq> lib_to_v0_p2wsh L script_bytes)
          (Err (TransactionFormat ''script pubkey doesn't match inner script''))) (\<lambda>_.
        or_parse (parse_to_broadcaster_script L script_bytes)
          (\<lambda>vals. handle_to_broadcaster_output L out vals i)
        (or_parse (parse_received_htlc_script L script_bytes (is_anchors setup))
          (\<lambda>vals. handle_received_htlc_output out vals i)
        (or_parse (parse_offered_htlc_script L script_bytes (is_anchors setup))
          (\<lambda>vals. handle_offered_htlc_output out vals i)
        (or_parse (parse_anchor_script L script_bytes)
          (\<lambda>vals. handle_anchor_output L keys out vals i)
        (if is_anchors setup then
           or_parse (parse_to_countersigner_delayed_script L script_bytes)
             (\<lambda>vals. handle_to_countersigner_delayed_output L out vals i)
           (Err (TransactionFormat ''unknown p2wsh script''))
         else Err (TransactionFormat ''unknown p2wsh script'')))))))
      else Err (TransactionFormat ''unknown output type''))"

section \<open>What the parsers accept\<close>

named_theorems parser_simps

lemma bindp_Ok_iff [parser_simps]:
  "bindp p f s = Ok r \<longleftrightarrow> (\<exists>a s'. p s = Ok (a, s') \<and> f a s' = Ok r)"
  by (auto simp: bindp_def bindo_Ok_iff split: prod.splits)

lemma returnp_Ok_iff [parser_simps]: "returnp a s = Ok (b, t) \<longleftrightarrow> b = a \<and> t = s"
  by (auto simp: returnp_def)

lemma failp_not_Ok [parser_simps]: "failp e s \<noteq> Ok r"
  by (simp add: failp_def)

lemma expect_next_Ok_iff: "expect_next s = Ok (i, t) \<longleftrightarrow> s = Some i # t"
  by (cases s rule: expect_next.cases) auto

lemma expect_op_Ok_iff: "expect_op c s = Ok (u, t) \<longleftrightarrow> s = Some (Op c) # t"
  by (cases s rule: expect_next.cases)
    (auto simp: expect_op_def bindp_def returnp_def failp_def split: instruction.splits)

lemma expect_data_Ok_iff [parser_simps]: "expect_data s = Ok (d, t) \<longleftrightarrow> s = Some (PushBytes d) # t"
  by (cases s rule: expect_next.cases)
    (auto simp: expect_data_def bindp_def returnp_def failp_def split: instruction.splits)

lemma expect_script_end_Ok_iff [parser_simps]: "expect_script_end s = Ok (u, t) \<longleftrightarrow> s = [] \<and> t = []"
  by (auto simp: expect_script_end_def)

definition instr_number :: "lib \<Rightarrow> instruction \<Rightarrow> int option" where
  "instr_number L i = (case i of Op c \<Rightarrow> lib_classify_pushnum L c | PushBytes d \<Rightarrow> lib_read_scriptint L d)"

lemma expect_number_Ok_iff [parser_simps]:
  "expect_number L s = Ok (n, t) \<longleftrightarrow> (\<exists>i. s = Some i # t \<and> instr_number L i = Some n)"
  by (cases s rule: expect_next.cases)
    (auto simp: expect_number_def instr_number_def bindp_def returnp_def failp_def
      split: instruction.splits option.splits)

lemma expect_ops_Ok_iff [parser_simps]:
  "expect_ops cs s = Ok (u, t) \<longleftrightarrow> s = map (Some \<circ> Op) cs @ t"
  by (induction cs arbitrary: s) (auto simp: parser_simps expect_op_Ok_iff)

declare expect_ops.simps [simp del]

lemma run_parser_Ok_iff:
  "run_parser L scr p = Ok a \<longleftrightarrow> (\<exists>t. p (lib_instructions L scr) = Ok (a, t))"
  by (auto simp: run_parser_def bindo_Ok_iff split: prod.splits)

lemma if_parser_Ok_iff [parser_simps]:
  "(if b then p else q) s = Ok r \<longleftrightarrow> (if b then p s = Ok r else q s = Ok r)"
  by simp

text \<open>
  C24: The parser of received-HTLC scripts accepts exactly the BOLT 3 template (with the extra
  one-block delay when anchors are in use), and returns the hashes, keys and expiry in it.
\<close>

theorem parse_received_htlc_script_iff:
  "parse_received_htlc_script L scr anchors = Ok (rh, rk, ph, lk, cltv) \<longleftrightarrow>
     (\<exists>n c. instr_number L n = Some 32 \<and> instr_number L c = Some cltv \<and>
       lib_instructions L scr = map Some (
         [Op OP_DUP, Op OP_HASH160, PushBytes rh, Op OP_EQUAL, Op OP_IF, Op OP_CHECKSIG, Op OP_ELSE,
          PushBytes rk, Op OP_SWAP, Op OP_SIZE, n, Op OP_EQUAL, Op OP_IF, Op OP_HASH160,
          PushBytes ph, Op OP_EQUALVERIFY, Op OP_PUSHNUM_2, Op OP_SWAP, PushBytes lk,
          Op OP_PUSHNUM_2, Op OP_CHECKMULTISIG, Op OP_ELSE, Op OP_DROP, c, Op OP_CLTV, Op OP_DROP,
          Op OP_CHECKSIG, Op OP_ENDIF] @
         (if anchors then [Op OP_PUSHNUM_1, Op OP_CSV, Op OP_DROP] else []) @ [Op OP_ENDIF]))"
  unfolding parse_received_htlc_script_def run_parser_Ok_iff
  by (cases anchors) (auto simp: parser_simps split: if_splits)

text \<open>
  C25: The parser of offered-HTLC scripts accepts exactly the BOLT 3 template, and returns the
  hashes and keys in it.
\<close>

theorem parse_offered_htlc_script_iff:
  "parse_offered_htlc_script L scr anchors = Ok (rh, rk, lk, ph) \<longleftrightarrow>
     (\<exists>n. instr_number L n = Some 32 \<and>
       lib_instructions L scr = map Some (
         [Op OP_DUP, Op OP_HASH160, PushBytes rh, Op OP_EQUAL, Op OP_IF, Op OP_CHECKSIG, Op OP_ELSE,
          PushBytes rk, Op OP_SWAP, Op OP_SIZE, n, Op OP_EQUAL, Op OP_NOTIF, Op OP_DROP,
          Op OP_PUSHNUM_2, Op OP_SWAP, PushBytes lk, Op OP_PUSHNUM_2, Op OP_CHECKMULTISIG,
          Op OP_ELSE, Op OP_HASH160, PushBytes ph, Op OP_EQUALVERIFY, Op OP_CHECKSIG, Op OP_ENDIF] @
         (if anchors then [Op OP_PUSHNUM_1, Op OP_CSV, Op OP_DROP] else []) @ [Op OP_ENDIF]))"
  unfolding parse_offered_htlc_script_def run_parser_Ok_iff
  by (cases anchors) (auto simp: parser_simps split: if_splits)

lemma parse_received_offered_disjoint:
  "parse_received_htlc_script L scr a = Ok v \<Longrightarrow> parse_offered_htlc_script L scr b \<noteq> Ok w"
proof -
  assume r: "parse_received_htlc_script L scr a = Ok v"
  obtain rh rk ph lk c where "v = (rh, rk, ph, lk, c)" by (cases v)
  with r have "lib_instructions L scr ! 12 = Some (Op OP_IF)"
    by (auto simp: parse_received_htlc_script_def run_parser_Ok_iff parser_simps split: if_splits)
  moreover have "lib_instructions L scr ! 12 = Some (Op OP_NOTIF)"
    if "parse_offered_htlc_script L scr b = Ok w"
    using that by (cases w) (auto simp: parse_offered_htlc_script_def run_parser_Ok_iff parser_simps split: if_splits)
  ultimately show ?thesis by auto
qed

section \<open>No output is lost or counted twice\<close>

definition ci_anchors :: "commitment_info \<Rightarrow> nat" where
  "ci_anchors i = unat (ci_to_broadcaster_anchor_count i) + unat (ci_to_countersigner_anchor_count i)"

definition ci_total :: "commitment_info \<Rightarrow> nat" where
  "ci_total i =
     unat (ci_to_broadcaster_value_sat i) + unat (ci_to_countersigner_value_sat i) +
     sum_list (map (unat \<circ> hi_value_sat) (ci_offered_htlcs i)) +
     sum_list (map (unat \<circ> hi_value_sat) (ci_received_htlcs i)) +
     unat ANCHOR_SAT * ci_anchors i"

definition ci_wf :: "commitment_info \<Rightarrow> bool" where
  "ci_wf i \<longleftrightarrow> (\<not> has_to_broadcaster i \<longrightarrow> ci_to_broadcaster_value_sat i = 0) \<and>
             (\<not> has_to_countersigner i \<longrightarrow> ci_to_countersigner_value_sat i = 0)"

text \<open>Documented behaviour of \<^verbatim>\<open>Payload::from_script\<close>: it succeeds on a P2WPKH script.\<close>

definition payload_total :: "lib \<Rightarrow> bool" where
  "payload_total L \<longleftrightarrow> (\<forall>scr. lib_is_v0_p2wpkh L scr \<longrightarrow> lib_payload_from_script L scr \<noteq> None)"

definition adds_output :: "tx_out \<Rightarrow> commitment_info \<Rightarrow> commitment_info \<Rightarrow> bool" where
  "adds_output out i i' \<longleftrightarrow>
     ci_wf i' \<and> ci_total i' = ci_total i + unat (out_value out) \<and> ci_anchors i' \<le> ci_anchors i + 1"

lemmas total_simps = adds_output_def ci_total_def ci_anchors_def ci_wf_def has_to_broadcaster_def
  has_to_countersigner_def

lemma to_broadcaster_adds:
  "handle_to_broadcaster_output L out vals i = Ok i' \<Longrightarrow> ci_wf i \<Longrightarrow> adds_output out i i'"
  by (auto simp: handle_to_broadcaster_output_def bindo_Ok_iff guarded_iff ok_or_iff total_simps
      split: prod.splits)

lemma to_countersigner_delayed_adds:
  "handle_to_countersigner_delayed_output L out d i = Ok i' \<Longrightarrow> ci_wf i \<Longrightarrow> adds_output out i i'"
  by (auto simp: handle_to_countersigner_delayed_output_def bindo_Ok_iff guarded_iff ok_or_iff total_simps)

lemma received_htlc_adds:
  "handle_received_htlc_output out vals i = Ok i' \<Longrightarrow> ci_wf i \<Longrightarrow> adds_output out i i'"
  by (auto simp: handle_received_htlc_output_def bindo_Ok_iff guarded_iff total_simps split: prod.splits)

lemma offered_htlc_adds:
  "handle_offered_htlc_output out vals i = Ok i' \<Longrightarrow> ci_wf i \<Longrightarrow> adds_output out i i'"
  by (auto simp: handle_offered_htlc_output_def bindo_Ok_iff guarded_iff total_simps split: prod.splits)

lemma unat_u16_succ: "unat c + 1 < 2 ^ 16 \<Longrightarrow> unat (c + 1 :: u16) = unat c + 1"
  by (simp add: unat_word_ariths)

lemma anchor_adds:
  assumes "handle_anchor_output L keys out d i = Ok i'" and "ci_wf i" and "ci_anchors i + 1 < 2 ^ 16"
  shows "adds_output out i i'"
proof -
  have u: "unat (ci_to_broadcaster_anchor_count i + 1) = unat (ci_to_broadcaster_anchor_count i) + 1"
    "unat (ci_to_countersigner_anchor_count i + 1) = unat (ci_to_countersigner_anchor_count i) + 1"
    using assms(3) unat_u16_succ by (simp_all add: ci_anchors_def)
  from assms(1) have out: "out_value out = ANCHOR_SAT"
    and cases: "i' = i\<lparr>ci_to_broadcaster_anchor_count := ci_to_broadcaster_anchor_count i + 1\<rparr> \<or>
      i' = i\<lparr>ci_to_countersigner_anchor_count := ci_to_countersigner_anchor_count i + 1\<rparr>"
    by (auto simp: handle_anchor_output_def bindo_Ok_iff guarded_iff ok_or_iff Let_def
        split: prod.splits if_splits)
  then show ?thesis
    using assms(2) u by (auto simp: total_simps algebra_simps)
qed

lemma or_parse_Ok_iff:
  "or_parse m f k = Ok r \<longleftrightarrow> (\<exists>a. m = Ok a \<and> f a = Ok r) \<or> (\<exists>e. m = Err e \<and> k = Ok r)"
  by (cases m) (auto simp: or_parse_def)

lemma handle_output_adds:
  assumes "handle_output L keys setup out bs i = Ok i'" and "ci_wf i" and "ci_anchors i + 1 < 2 ^ 16"
    and "payload_total L"
  shows "adds_output out i i'"
proof (cases "lib_is_v0_p2wpkh L (script_pubkey out)")
  case True
  with assms show ?thesis
    by (auto simp: handle_output_def bindo_Ok_iff guarded_iff total_simps payload_total_def)
next
  case False
  with assms(1) show ?thesis
    by (auto simp: handle_output_def bindo_Ok_iff guarded_iff or_parse_Ok_iff split: if_splits
        intro: to_broadcaster_adds [OF _ assms(2)] received_htlc_adds [OF _ assms(2)]
          offered_htlc_adds [OF _ assms(2)] anchor_adds [OF _ assms(2,3)]
          to_countersigner_delayed_adds [OF _ assms(2)])
qed

end
