(* ===== verification/Simple_Validator.thy ===== *)
theory Simple_Validator
  imports Velocity Validator Tx_Script
begin

text \<open>
  \<^verbatim>\<open>vls-core/src/policy/simple_validator.rs\<close>: the policy parameters and the checks that every
  signing request has to pass.  Logging and the function names in front of messages are not
  modelled; messages are the format strings of the source.
\<close>

section \<open>Policy\<close>

record simple_policy =
  min_delay :: u16
  max_delay :: u16
  max_channel_size_sat :: u64
  epsilon_sat :: u64
  max_htlcs :: nat
  max_htlc_value_sat :: u64
  use_chain_state :: bool
  min_feerate_per_kw :: u32
  max_feerate_per_kw :: u32
  enforce_balance :: bool
  max_routing_fee_msat :: u64
  disable_beneficial_balance_checks :: "bool option"
  pol_filter :: policy_filter
  global_velocity_control :: velocity_control_spec
  max_channels :: nat
  max_invoices :: nat
  fee_velocity_control :: velocity_control_spec

definition MAX_ONCHAIN_TX_SIZE :: nat where
  "MAX_ONCHAIN_TX_SIZE = 32 * 1024"

definition DEFAULT_FEE_VELOCITY_CONTROL :: velocity_control_spec where
  "DEFAULT_FEE_VELOCITY_CONTROL = \<lparr>limit_msat = 1000000000, interval_type = Daily\<rparr>"

definition MAX_CHAIN_LAG :: u32 where
  "MAX_CHAIN_LAG = 2"

datatype network = Bitcoin | Testnet | Signet | Regtest

definition make_simple_policy :: "network \<Rightarrow> simple_policy" where
  "make_simple_policy network =
     (if network = Bitcoin then
        \<lparr>min_delay = 144, max_delay = 2016, max_channel_size_sat = 1000000001, epsilon_sat = 10000,
         max_htlcs = 1000, max_htlc_value_sat = 16777216, use_chain_state = False,
         min_feerate_per_kw = 253, max_feerate_per_kw = 25000, enforce_balance = False,
         max_routing_fee_msat = 10000, disable_beneficial_balance_checks = None,
         pol_filter = default_filter, global_velocity_control = UNLIMITED, max_channels = 1000,
         max_invoices = 1000, fee_velocity_control = DEFAULT_FEE_VELOCITY_CONTROL\<rparr>
      else
        \<lparr>min_delay = 4, max_delay = 2016, max_channel_size_sat = 1000000001, epsilon_sat = 10000,
         max_htlcs = 1000, max_htlc_value_sat = 16777216, use_chain_state = False,
         min_feerate_per_kw = 253, max_feerate_per_kw = 151000, enforce_balance = False,
         max_routing_fee_msat = 120000, disable_beneficial_balance_checks = None,
         pol_filter = default_filter, global_velocity_control = UNLIMITED, max_channels = 1000,
         max_invoices = 1000, fee_velocity_control = DEFAULT_FEE_VELOCITY_CONTROL\<rparr>)"

abbreviation sperr :: "simple_policy \<Rightarrow> string \<Rightarrow> string \<Rightarrow> (validation_error, unit) outcome" where
  "sperr P tag msg \<equiv> policy_error_with_filter tag msg (pol_filter P)"

type_synonym node_wallet = "status wallet"

section \<open>Shared checks\<close>

definition validate_delay :: "simple_policy \<Rightarrow> string \<Rightarrow> u32 \<Rightarrow> (validation_error, unit) outcome" where
  "validate_delay P name delay = checks
     [guarded (delay < ucast (min_delay P))
        (sperr P (''policy-channel-contest-delay-range-'' @ name) ''{} contest-delay too small: {} < {}''),
      guarded (delay > ucast (max_delay P))
        (sperr P (''policy-channel-contest-delay-range-'' @ name) ''{} contest-delay too large: {} > {}'')]"

definition validate_expiry ::
    "simple_policy \<Rightarrow> string \<Rightarrow> u32 \<Rightarrow> u32 \<Rightarrow> (validation_error, unit) outcome" where
  "validate_expiry P name expiry height = guarded (use_chain_state P) (checks
     [guarded (expiry < height + ucast (min_delay P))
        (sperr P ''policy-commitment-htlc-cltv-range'' ''{} expiry too early: {} < {}''),
      guarded (expiry > height + ucast (max_delay P))
        (sperr P ''policy-commitment-htlc-cltv-range'' ''{} expiry too late: {} > {}'')])"

definition validate_fee ::
    "simple_policy \<Rightarrow> string \<Rightarrow> u64 \<Rightarrow> u64 \<Rightarrow> nat \<Rightarrow> (validation_error, unit) outcome" where
  "validate_fee P tag sum_inputs sum_outputs weight =
     bindo (ok_or (Policy ''fee underflow: {} - {}'') (checked_sub sum_inputs sum_outputs)) (\<lambda>fee.
     bindo (estimate_feerate_per_kw fee (of_nat weight)) (\<lambda>feerate_perkw.
     checks
       [guarded (feerate_perkw < min_feerate_per_kw P)
          (sperr P tag ''feerate below minimum: {} < {}''),
        guarded (feerate_perkw > max_feerate_per_kw P)
          (sperr P tag ''feerate above maximum: {} > {}'')]))"

definition validate_beneficial_value ::
    "simple_policy \<Rightarrow> u64 \<Rightarrow> u64 \<Rightarrow> nat \<Rightarrow> (validation_error, u64) outcome" where
  "validate_beneficial_value P sum_our_inputs sum_our_outputs weight =
     bindo (ok_or (Policy ''non-beneficial value underflow: sum of our inputs {} < sum of our outputs {}'')
              (checked_sub sum_our_inputs sum_our_outputs)) (\<lambda>non_beneficial.
     bindo (estimate_feerate_per_kw non_beneficial (of_nat weight)) (\<lambda>feerate_perkw.
     bindo (guarded (feerate_perkw > max_feerate_per_kw P)
              (if disable_beneficial_balance_checks P = Some True then Ok ()
               else sperr P ''policy-onchain-fee-range''
                      ''non-beneficial value considered as fees is above maximum feerate: {} > {}'')) (\<lambda>_.
     Ok non_beneficial)))"

definition outside_epsilon_range :: "simple_policy \<Rightarrow> u64 \<Rightarrow> u64 \<Rightarrow> bool" where
  "outside_epsilon_range P value0 value1 =
     (if value0 > value1 then value0 - value1 > epsilon_sat P else value1 - value0 > epsilon_sat P)"

text \<open>The test that a script pays the wallet or the allowlist, with its error for each caller.\<close>

definition check_destination ::
    "simple_policy \<Rightarrow> node_wallet \<Rightarrow> string \<Rightarrow> string \<Rightarrow> u32 list \<Rightarrow> script \<Rightarrow> (validation_error, unit) outcome" where
  "check_destination P W tag msg path scr =
     bindo (map_err (\<lambda>_. Policy ''wallet can_spend error: {}'') (can_spend W path scr)) (\<lambda>ours.
     guarded (\<not> ours \<and> \<not> allowlist_contains W scr path) (sperr P tag msg))"

definition validate_sweep ::
    "simple_policy \<Rightarrow> node_wallet \<Rightarrow> transaction \<Rightarrow> u32 list \<Rightarrow> (validation_error, unit) outcome" where
  "validate_sweep P W tx wallet_path =
     bindo (guarded (tx_version tx \<noteq> 2) (Err (TransactionFormat ''bad version: {}''))) (\<lambda>_.
     checks (map (\<lambda>out. check_destination P W ''policy-sweep-destination-allowlisted''
                   ''destination is not in wallet or allowlist'' wallet_path (script_pubkey out))
              (tx_outputs tx)))"

section \<open>Channels and on-chain transactions\<close>

definition SAFE_COMMITMENT_TYPE :: "commitment_type list" where
  "SAFE_COMMITMENT_TYPE = [StaticRemoteKey, AnchorsZeroFeeHtlc]"

definition validate_ready_channel ::
    "simple_policy \<Rightarrow> node_wallet \<Rightarrow> channel_setup \<Rightarrow> u32 list \<Rightarrow> (validation_error, unit) outcome" where
  "validate_ready_channel P W setup holder_shutdown_key_path = checks
     [guarded (commitment_type setup \<notin> set SAFE_COMMITMENT_TYPE)
        (if commitment_type setup = Anchors
         then sperr P ''policy-channel-safe-type-anchors'' ''unsafe commitment type: plain anchors''
         else sperr P ''policy-channel-safe-type'' ''unsafe commitment type: {:?}''),
      validate_delay P ''holder'' (ucast (counterparty_selected_contest_delay setup)),
      validate_delay P ''counterparty'' (ucast (holder_selected_contest_delay setup)),
      (case holder_shutdown_script setup of
         None \<Rightarrow> Ok ()
       | Some scr \<Rightarrow> check_destination P W ''policy-mutual-destination-allowlisted''
           ''holder_shutdown_script is not in wallet or allowlist'' holder_shutdown_key_path scr)]"

definition validate_channel_value :: "simple_policy \<Rightarrow> channel_setup \<Rightarrow> (validation_error, unit) outcome" where
  "validate_channel_value P setup =
     guarded (channel_value_sat setup > max_channel_size_sat P)
       (sperr P ''policy-funding-max'' ''channel value {} too large'')"

definition index :: "'a list \<Rightarrow> nat \<Rightarrow> ('e, 'a) outcome" where
  "index xs i = (if i < length xs then Ok (xs ! i) else Panic)"

definition add_beneficial_output :: "u64 \<Rightarrow> u64 \<Rightarrow> (validation_error, u64) outcome" where
  "add_beneficial_output s v =
     ok_or (Policy ''beneficial outputs overflow: sum {} + {} {}'') (checked_add s v)"

text \<open>\<^verbatim>\<open>payload_for_p2wsh(script).script_pubkey()\<close>: the version byte and the pushed hash.\<close>

definition p2wsh_script_pubkey :: "lib \<Rightarrow> script \<Rightarrow> script" where
  "p2wsh_script_pubkey L scr = [0x00, 0x20] @ lib_sha256 L scr"

text \<open>An output that funds a channel: our share of it.\<close>

definition validate_funding_output ::
    "lib \<Rightarrow> simple_policy \<Rightarrow> tx_out \<Rightarrow> channel \<Rightarrow> (validation_error, u64) outcome" where
  "validate_funding_output L P out chan =
     (let scr = p2wsh_script_pubkey L (lib_make_funding_redeemscript L
                  (funding_pubkey (holder_pubkeys (chan_keys chan)))
                  (funding_pubkey (counterparty_pubkeys (chan_keys chan))));
          push_val_sat = push_value_msat (chan_setup chan) div 1000
      in
      bindo (checks
        [guarded (out_value out \<noteq> channel_value_sat (chan_setup chan))
           (sperr P ''policy-onchain-output-match-commitment''
              ''funding output amount mismatch w/ channel: {} != {}''),
         guarded (script_pubkey out \<noteq> scr)
           (sperr P ''policy-onchain-output-scriptpubkey''
              ''funding script_pubkey mismatch w/ channel: {} != {}''),
         guarded (next_holder_commit_num (enforcement_state chan) \<noteq> 1)
           (sperr P ''policy-onchain-initial-commitment-countersigned''
              ''initial holder commitment not validated''),
         guarded (\<not> is_outbound (chan_setup chan))
           (sperr P ''policy-onchain-no-fund-inbound''
              ''can't sign for inbound channel: dual-funding not supported yet''),
         guarded (push_val_sat > 0)
           (sperr P ''policy-onchain-no-channel-push''
              ''channel push not allowed: dual-funding not supported yet'')]) (\<lambda>_.
      unwrap (checked_sub (channel_value_sat (chan_setup chan)) push_val_sat)))"

definition validate_onchain_output ::
    "lib \<Rightarrow> simple_policy \<Rightarrow> node_wallet \<Rightarrow> channel_slot option list \<Rightarrow> tx_out list \<Rightarrow> u32 list list \<Rightarrow> nat \<Rightarrow>
     u64 \<times> nat list \<Rightarrow> (validation_error, u64 \<times> nat list) outcome" where
  "validate_onchain_output L P W channels outs opaths outndx acc =
     (let (beneficial_sum, unknowns) = acc in
      bindo (index outs outndx) (\<lambda>out.
      bindo (index opaths outndx) (\<lambda>opath.
      bindo (index channels outndx) (\<lambda>slot.
      if opath \<noteq> [] then
        bindo (map_err (\<lambda>_. Policy ''output[{}]: wallet_can_spend error: {}'')
                 (can_spend W opath (script_pubkey out))) (\<lambda>spendable.
        if spendable \<or> allowlist_contains W (script_pubkey out) opath then
          bindo (add_beneficial_output beneficial_sum (out_value out)) (\<lambda>s. Ok (s, unknowns))
        else
          bindo (sperr P ''policy-onchain-no-unknown-outputs'' ''output[{}] is unknown'') (\<lambda>_.
          Ok (beneficial_sum, unknowns)))
      else if allowlist_contains W (script_pubkey out) [] then
        bindo (add_beneficial_output beneficial_sum (out_value out)) (\<lambda>s. Ok (s, unknowns))
      else (case slot of
        Some (Ready chan) \<Rightarrow>
          bindo (validate_funding_output L P out chan) (\<lambda>our_value.
          bindo (add_beneficial_output beneficial_sum our_value) (\<lambda>s. Ok (s, unknowns)))
      | Some (Stub _) \<Rightarrow> Panic
      | None \<Rightarrow> Ok (beneficial_sum, unknowns @ [outndx]))))))"

definition sum_inputs_checked :: "u64 list \<Rightarrow> (validation_error, u64) outcome" where
  "sum_inputs_checked vals =
     foldo (\<lambda>v s. ok_or (Policy ''funding sum inputs overflow'') (checked_add s v)) vals 0"

definition validate_onchain_tx ::
    "lib \<Rightarrow> simple_policy \<Rightarrow> node_wallet \<Rightarrow> channel_slot option list \<Rightarrow> transaction \<Rightarrow> transaction list \<Rightarrow>
     u64 list \<Rightarrow> u32 list list \<Rightarrow> nat \<Rightarrow> (validation_error, u64) outcome" where
  "validate_onchain_tx L P W channels tx input_txs values_sat opaths weight_lower_bound =
     bindo (checks
       [guarded (tx_version tx \<noteq> 2)
          (sperr P ''policy-onchain-format-standard'' ''invalid version: {}''),
        guarded (lib_size L tx > MAX_ONCHAIN_TX_SIZE)
          (sperr P ''policy-onchain-max-size'' ''tx too large: {} > {}''),
        guarded ((\<exists>c \<in> set channels. c \<noteq> None) \<and> \<not> is_tx_non_malleable L tx input_txs)
          (sperr P ''policy-onchain-funding-non-malleable''
             ''funding tx has non-segwit-native input'')]) (\<lambda>_.
     bindo (foldo (validate_onchain_output L P W channels (tx_outputs tx) opaths)
              [0..<length (tx_outputs tx)] (0, [])) (\<lambda>(beneficial_sum, unknowns).
     if unknowns \<noteq> [] then Err (UnknownDestinations '''' unknowns)
     else
       bindo (sum_inputs_checked values_sat) (\<lambda>sum_inputs.
       map_err (prepend_msg ''{}: '')
         (validate_beneficial_value P sum_inputs beneficial_sum weight_lower_bound))))"

definition decode_commitment_tx ::
    "lib \<Rightarrow> simple_policy \<Rightarrow> signer_keys \<Rightarrow> channel_setup \<Rightarrow> bool \<Rightarrow> transaction \<Rightarrow> bytes list \<Rightarrow>
     (validation_error, commitment_info) outcome" where
  "decode_commitment_tx L P keys setup is_counterparty tx output_witscripts =
     bindo (guarded (tx_version tx \<noteq> 2)
       (sperr P ''policy-commitment-version'' ''bad commitment version: {}'')) (\<lambda>_.
     foldo (\<lambda>ind info.
         bindo (index output_witscripts ind) (\<lambda>ws.
         map_err (prepend_msg ''{}: tx output[{}]: '')
           (handle_output L keys setup (tx_outputs tx ! ind) ws info)))
       [0..<length (tx_outputs tx)] (commitment_info_new is_counterparty))"

section \<open>Commitments and revocations\<close>

definition offered_htlc_dust_limit :: "lib \<Rightarrow> channel_setup \<Rightarrow> commitment_info2 \<Rightarrow> u64" where
  "offered_htlc_dust_limit L setup info =
     (if is_zero_fee_htlc setup then MIN_CHAN_DUST_LIMIT_SATOSHIS
      else MIN_DUST_LIMIT_SATOSHIS
           + (ucast (feerate_per_kw info) * lib_htlc_timeout_tx_weight L (is_anchors setup) div 1000))"

definition received_htlc_dust_limit :: "lib \<Rightarrow> channel_setup \<Rightarrow> commitment_info2 \<Rightarrow> u64" where
  "received_htlc_dust_limit L setup info =
     (if is_zero_fee_htlc setup then MIN_CHAN_DUST_LIMIT_SATOSHIS
      else MIN_DUST_LIMIT_SATOSHIS
           + (ucast (feerate_per_kw info) * lib_htlc_success_tx_weight L (is_anchors setup) div 1000))"

text \<open>The loop over the offered, then over the received HTLCs: expiry, running sum, dust.\<close>

definition check_htlcs ::
    "simple_policy \<Rightarrow> string \<Rightarrow> u32 \<Rightarrow> u64 \<Rightarrow> htlc_info2 list \<Rightarrow> u64 \<Rightarrow> (validation_error, u64) outcome" where
  "check_htlcs P name height dust =
     foldo (\<lambda>htlc sum.
       bindo (validate_expiry P (name @ '' HTLC'') (cltv_expiry htlc) height) (\<lambda>_.
       bindo (ok_or (Policy (name @ '' HTLC value overflow'')) (checked_add sum (value_sat htlc))) (\<lambda>sum'.
       bindo (guarded (value_sat htlc < dust)
         (sperr P ''policy-commitment-outputs-trimmed'' (name @ '' htlc.value_sat {} less than dust limit {}''))) (\<lambda>_.
       Ok sum'))))"

definition validate_commitment_tx ::
    "lib \<Rightarrow> simple_policy \<Rightarrow> u64 \<Rightarrow> channel_setup \<Rightarrow> chain_state \<Rightarrow> commitment_info2 \<Rightarrow>
     (validation_error, unit) outcome" where
  "validate_commitment_tx L P commit_num setup cstate info =
     bindo (checks
       [guarded (to_broadcaster_value_sat info > 0 \<and> to_broadcaster_value_sat info < MIN_CHAN_DUST_LIMIT_SATOSHIS)
          (sperr P ''policy-commitment-outputs-trimmed'' ''to_broadcaster_value_sat {} less than dust limit {}''),
        guarded (to_countersigner_value_sat info > 0 \<and> to_countersigner_value_sat info < MIN_CHAN_DUST_LIMIT_SATOSHIS)
          (sperr P ''policy-commitment-outputs-trimmed'' ''to_countersigner_value_sat {} less than dust limit {}''),
        guarded (length (offered_htlcs info) + length (received_htlcs info) > max_htlcs P)
          (sperr P ''policy-commitment-htlc-count-limit'' ''too many HTLCs'')]) (\<lambda>_.
     bindo (check_htlcs P ''offered'' (current_height cstate) (offered_htlc_dust_limit L setup info)
              (offered_htlcs info) 0) (\<lambda>offered_sum.
     bindo (check_htlcs P ''received'' (current_height cstate) (received_htlc_dust_limit L setup info)
              (received_htlcs info) offered_sum) (\<lambda>htlc_value_sat.
     bindo (guarded (htlc_value_sat > max_htlc_value_sat P)
              (sperr P ''policy-commitment-htlc-inflight-limit'' ''sum of HTLC values {} too large'')) (\<lambda>_.
     bindo (ok_or (Policy ''channel value overflow'')
              (checked_add (to_broadcaster_value_sat info) (to_countersigner_value_sat info))) (\<lambda>main_sum.
     bindo (ok_or (Policy ''channel value overflow on HTLC'') (checked_add main_sum htlc_value_sat)) (\<lambda>sum_outputs.
     bindo (map_err (prepend_msg ''{}: '')
              (validate_fee P ''policy-commitment-fee-range'' (channel_value_sat setup) sum_outputs
                 (expected_commitment_tx_weight (is_anchors setup)
                    (length (offered_htlcs info) + length (received_htlcs info))))) (\<lambda>_.
     guarded (commit_num = 0) (checks
       [guarded (length (offered_htlcs info) + length (received_htlcs info) > 0)
          (sperr P ''policy-commitment-first-no-htlcs'' ''initial commitment may not have HTLCS''),
        guarded (is_outbound setup \<and> snd (value_to_parties info) > push_value_msat setup div 1000)
          (sperr P ''policy-commitment-initial-funding-value''
             ''initial commitment may only send push_value_msat ({}) to fundee'')]))))))))"

definition validate_counterparty_commitment_tx ::
    "lib \<Rightarrow> simple_policy \<Rightarrow> enforcement_state \<Rightarrow> u64 \<Rightarrow> pubkey \<Rightarrow> channel_setup \<Rightarrow> chain_state \<Rightarrow>
     commitment_info2 \<Rightarrow> (validation_error, unit) outcome" where
  "validate_counterparty_commitment_tx L P estate commit_num commitment_point setup cstate info2 =
     bindo (map_err (prepend_msg ''{}: '') (validate_commitment_tx L P commit_num setup cstate info2)) (\<lambda>_.
     bindo (guarded (to_self_delay info2 \<noteq> holder_selected_contest_delay setup)
       (sperr P ''policy-channel-contest-delay-range-holder'' ''holder_selected_contest_delay mismatch'')) (\<lambda>_.
     bindo (guarded (commit_num > next_counterparty_revoke_num estate + 1)
       (sperr P ''policy-commitment-previous-revoked''
          ''invalid attempt to sign counterparty commit_num {} with next_counterparty_revoke_num {}'')) (\<lambda>_.
     guarded (commit_num + 1 = next_counterparty_commit_num estate) (checks
       [(case current_counterparty_point estate of
           None \<Rightarrow> sperr P ''policy-commitment-retry-same''
             ''retry of sign_counterparty_commitment {} with no prev point: new {}''
         | Some prev \<Rightarrow> guarded (commitment_point \<noteq> prev)
             (sperr P ''policy-commitment-retry-same''
                ''retry of sign_counterparty_commitment {} with changed point: prev {} != new {}'')),
        guarded (Some info2 \<noteq> get_previous_counterparty_commit_info estate commit_num)
          (sperr P ''policy-commitment-retry-same''
             ''retry of sign_counterparty_commitment {} with changed info'')]))))"

definition validate_holder_commitment_tx ::
    "lib \<Rightarrow> simple_policy \<Rightarrow> enforcement_state \<Rightarrow> u64 \<Rightarrow> pubkey \<Rightarrow> channel_setup \<Rightarrow> chain_state \<Rightarrow>
     commitment_info2 \<Rightarrow> (validation_error, unit) outcome" where
  "validate_holder_commitment_tx L P estate commit_num commitment_point setup cstate info2 =
     bindo (map_err (prepend_msg ''{}: '') (validate_commitment_tx L P commit_num setup cstate info2)) (\<lambda>_.
     bindo (guarded (to_self_delay info2 \<noteq> counterparty_selected_contest_delay setup)
       (sperr P ''policy-channel-contest-delay-range-counterparty''
          ''counterparty_selected_contest_delay mismatch'')) (\<lambda>_.
     bindo (guarded (commit_num + 1 = next_holder_commit_num estate)
       (bindo (unwrap (current_holder_commit_info estate)) (\<lambda>holder_commit_info.
        guarded (info2 \<noteq> holder_commit_info)
          (sperr P ''policy-commitment-retry-same'' ''retry holder commitment {} with changed info'')))) (\<lambda>_.
     checks
       [guarded (commit_num + 2 \<le> next_holder_commit_num estate)
          (sperr P ''policy-commitment-holder-not-revoked''
             ''can't sign revoked commitment_number {}, next_holder_commit_num is {}''),
        guarded (commit_num = next_holder_commit_num estate \<and> channel_closed estate)
          (sperr P ''policy-commitment-spends-active-utxo'' ''channel is closing'')])))"

definition sv_validate_counterparty_revocation ::
    "lib \<Rightarrow> simple_policy \<Rightarrow> enforcement_state \<Rightarrow> u64 \<Rightarrow> secret \<Rightarrow> (validation_error, unit) outcome" where
  "sv_validate_counterparty_revocation L P state revoke_num commitment_secret = checks
     [guarded (revoke_num \<noteq> next_counterparty_revoke_num state \<and>
               revoke_num + 1 \<noteq> next_counterparty_revoke_num state)
        (sperr P ''policy-commitment-previous-revoked''
           ''invalid counterparty revoke_num {} with next_counterparty_revoke_num {}''),
      (case get_previous_counterparty_point state revoke_num of
         None \<Rightarrow> sperr P ''policy-commitment-previous-revoked''
           ''revocation commit point mismatch for commit_num {}: supplied {}, previous is None''
       | Some prev \<Rightarrow> guarded (lib_public_key L commitment_secret \<noteq> prev)
           (sperr P ''policy-commitment-previous-revoked''
              ''revocation commit point mismatch for commit_num {}: supplied {}, previous {}''))]"

section \<open>HTLC transactions, closing, sweeps\<close>

text \<open>\<^verbatim>\<open>SighashCache::segwit_signature_hash(..).unwrap()\<close> panics on an input that does not exist.\<close>

definition segwit_sighash ::
    "lib \<Rightarrow> transaction \<Rightarrow> nat \<Rightarrow> script \<Rightarrow> u64 \<Rightarrow> sighash_type \<Rightarrow> ('e, bytes) outcome" where
  "segwit_sighash L tx n redeemscript amount typ =
     bindo (asserts (n < length (tx_inputs tx))) (\<lambda>_. Ok (lib_segwit_sighash L tx n redeemscript amount typ))"

definition decode_and_validate_htlc_tx ::
    "lib \<Rightarrow> bool \<Rightarrow> channel_setup \<Rightarrow> tx_creation_keys \<Rightarrow> transaction \<Rightarrow> script \<Rightarrow> u64 \<Rightarrow>
     (validation_error, u32 \<times> htlc_in_commitment \<times> bytes \<times> sighash_type) outcome" where
  "decode_and_validate_htlc_tx L is_counterparty setup txkeys tx redeemscript htlc_amount_sat =
     (let delay = (if is_counterparty then holder_selected_contest_delay setup
                   else counterparty_selected_contest_delay setup);
          typ = (if is_counterparty \<and> is_anchors setup then SinglePlusAnyoneCanPay else SighashAll)
      in
      bindo (segwit_sighash L tx 0 redeemscript htlc_amount_sat typ) (\<lambda>original_tx_sighash.
      bindo (if is_ok (parse_offered_htlc_script L redeemscript (is_anchors setup)) then Ok True
             else if is_ok (parse_received_htlc_script L redeemscript (is_anchors setup)) then Ok False
             else Err (Policy ''invalid redeemscript'')) (\<lambda>is_offered.
      bindo (index (tx_inputs tx) 0) (\<lambda>inp0.
      bindo (index (tx_outputs tx) 0) (\<lambda>out0.
      let cltv = (if is_offered then lock_time tx else 0);
          total_fee = htlc_amount_sat - out_value out0
      in
      bindo (if is_zero_fee_htlc setup then Ok 0
             else estimate_feerate_per_kw total_fee
                    (if is_offered then lib_htlc_timeout_tx_weight L (is_anchors setup)
                     else lib_htlc_success_tx_weight L (is_anchors setup))) (\<lambda>build_feerate.
      let htlc = \<lparr>offered = is_offered, amount_msat = htlc_amount_sat * 1000, htlc_cltv_expiry = cltv,
                  htlc_payment_hash = replicate 32 0,
                  transaction_output_index = Some (op_vout (previous_output inp0))\<rparr>;
          recomposed_tx = lib_build_htlc_transaction L (op_txid (previous_output inp0)) build_feerate delay
                  htlc (is_anchors setup) (\<not> is_zero_fee_htlc setup)
                  (broadcaster_delayed_payment_key txkeys) (revocation_key txkeys)
      in
      bindo (segwit_sighash L recomposed_tx 0 redeemscript htlc_amount_sat typ) (\<lambda>recomposed_tx_sighash.
      if recomposed_tx_sighash \<noteq> original_tx_sighash then Err (Policy ''sighash mismatch'')
      else Ok (build_feerate, htlc, recomposed_tx_sighash, typ))))))))"

definition validate_htlc_tx ::
    "simple_policy \<Rightarrow> channel_setup \<Rightarrow> htlc_in_commitment \<Rightarrow> u32 \<Rightarrow> (validation_error, unit) outcome" where
  "validate_htlc_tx P setup htlc feerate = checks
     [guarded (offered htlc \<and> htlc_cltv_expiry htlc = 0)
        (sperr P ''policy-htlc-locktime'' ''offered lock_time must be non-zero''),
      guarded (\<not> is_zero_fee_htlc setup \<and> feerate < min_feerate_per_kw P)
        (sperr P ''policy-htlc-fee-range'' ''feerate_per_kw of {} is smaller than the minimum of {}''),
      guarded (feerate > max_feerate_per_kw P)
        (sperr P ''policy-htlc-fee-range'' ''feerate_per_kw of {} is larger than the maximum of {}'')]"

definition script_or_empty :: "script option \<Rightarrow> script" where
  "script_or_empty scr = (case scr of None \<Rightarrow> [] | Some x \<Rightarrow> x)"

definition validate_mutual_close_tx ::
    "lib \<Rightarrow> simple_policy \<Rightarrow> node_wallet \<Rightarrow> channel_setup \<Rightarrow> enforcement_state \<Rightarrow> u64 \<Rightarrow> u64 \<Rightarrow>
     script option \<Rightarrow> script option \<Rightarrow> u32 list \<Rightarrow> (validation_error, unit) outcome" where
  "validate_mutual_close_tx L P W setup estate to_holder to_counterparty holder_script
       counterparty_script holder_wallet_path_hint =
     bindo (ok_or (Policy ''current_holder_commit_info missing'') (current_holder_commit_info estate)) (\<lambda>holder_info.
     bindo (ok_or (Policy ''current_counterparty_commit_info missing'')
              (current_counterparty_commit_info estate)) (\<lambda>counterparty_info.
     bindo (checks
       [guarded (to_holder > 0 \<and> holder_script = None)
          (sperr P ''policy-mutual-destination-allowlisted''
             ''missing holder_script with {} to_holder_value_sat''),
        guarded (to_counterparty > 0 \<and> counterparty_script = None)
          (sperr P ''policy-mutual-destination-allowlisted''
             ''missing counterparty_script with {} to_counterparty_value_sat''),
        guarded (holder_shutdown_script setup \<noteq> None \<and> to_holder > 0 \<and>
                 holder_script \<noteq> holder_shutdown_script setup)
          (sperr P ''policy-mutual-destination-allowlisted''
             ''holder_script doesn't match upfront holder_shutdown_script''),
        guarded (\<not> htlcs_is_empty holder_info \<or> \<not> htlcs_is_empty counterparty_info)
          (sperr P ''policy-mutual-no-pending-htlcs'' ''cannot close with pending htlcs'')]) (\<lambda>_.
     let weight = mutual_close_tx_weight L (lib_closing_transaction L to_holder to_counterparty
                    (script_or_empty holder_script) (script_or_empty counterparty_script)
                    (funding_outpoint setup))
     in
     bindo (ok_or (Policy ''consumed overflow'') (checked_add to_holder to_counterparty)) (\<lambda>sum_outputs.
     bindo (map_err (prepend_msg ''{}: '')
              (validate_fee P ''policy-mutual-fee-range'' (channel_value_sat setup) sum_outputs weight)) (\<lambda>_.
     bindo (if is_outbound setup then checks
              [guarded (outside_epsilon_range P to_counterparty (to_broadcaster_value_sat counterparty_info))
                 (sperr P ''policy-mutual-value-matches-commitment''
                    ''to_counterparty_value {} is {} than counterparty_info.broadcaster_value_sat {}''),
               guarded (outside_epsilon_range P to_counterparty (to_countersigner_value_sat holder_info))
                 (sperr P ''policy-mutual-value-matches-commitment''
                    ''to_counterparty_value {} is {} than holder_info.countersigner_value_sat {}'')]
            else checks
              [guarded (outside_epsilon_range P to_holder (to_broadcaster_value_sat holder_info))
                 (sperr P ''policy-mutual-value-matches-commitment''
                    ''to_holder_value {} is {} than holder_info.broadcaster_value_sat {}''),
               guarded (outside_epsilon_range P to_holder (to_countersigner_value_sat counterparty_info))
                 (sperr P ''policy-mutual-value-matches-commitment''
                    ''to_holder_value {} is {} than counterparty_info.countersigner_value_sat {}'')]) (\<lambda>_.
     (case holder_script of
        None \<Rightarrow> Ok ()
      | Some scr \<Rightarrow> check_destination P W ''policy-mutual-destination-allowlisted''
          ''holder output not to wallet or in allowlist'' holder_wallet_path_hint scr)))))))"

text \<open>
  \<^verbatim>\<open>decode_and_validate_mutual_close_tx\<close>: the outputs are assigned to the two sides in the likely
  order first and in the other order when that fails; the error is then that of the first try.
\<close>

record validate_args =
  va_to_holder :: u64
  va_to_counterparty :: u64
  va_holder_script :: "script option"
  va_counterparty_script :: "script option"
  va_wallet_path :: "u32 list"

definition option_gt :: "u64 option \<Rightarrow> u64 option \<Rightarrow> bool" where
  "option_gt a b = (case (a, b) of
     (Some x, Some y) \<Rightarrow> x > y | (Some _, None) \<Rightarrow> True | (None, _) \<Rightarrow> False)"

definition mutual_close_candidates ::
    "bool \<Rightarrow> tx_out list \<Rightarrow> u32 list list \<Rightarrow> ('e, validate_args \<times> validate_args) outcome" where
  "mutual_close_candidates holder_larger outs paths =
     (if length outs = 1 then
        bindo (index outs 0) (\<lambda>o0.
        bindo (index paths 0) (\<lambda>p0.
        let holders = \<lparr>va_to_holder = out_value o0, va_to_counterparty = 0,
                       va_holder_script = Some (script_pubkey o0), va_counterparty_script = None,
                       va_wallet_path = p0\<rparr>;
            cpartys = \<lparr>va_to_holder = 0, va_to_counterparty = out_value o0, va_holder_script = None,
                       va_counterparty_script = Some (script_pubkey o0), va_wallet_path = []\<rparr>
        in Ok (if holder_larger then (holders, cpartys) else (cpartys, holders))))
      else
        bindo (index outs 0) (\<lambda>o0. bindo (index outs 1) (\<lambda>o1.
        bindo (index paths 0) (\<lambda>p0. bindo (index paths 1) (\<lambda>p1.
        let holder_first = \<lparr>va_to_holder = out_value o0, va_to_counterparty = out_value o1,
              va_holder_script = Some (script_pubkey o0), va_counterparty_script = Some (script_pubkey o1),
              va_wallet_path = p0\<rparr>;
            cparty_first = \<lparr>va_to_holder = out_value o1, va_to_counterparty = out_value o0,
              va_holder_script = Some (script_pubkey o1), va_counterparty_script = Some (script_pubkey o0),
              va_wallet_path = p1\<rparr>
        in Ok (if holder_larger then (cparty_first, holder_first) else (holder_first, cparty_first)))))))"

definition decode_and_validate_mutual_close_tx ::
    "lib \<Rightarrow> simple_policy \<Rightarrow> node_wallet \<Rightarrow> channel_setup \<Rightarrow> enforcement_state \<Rightarrow> transaction \<Rightarrow> u32 list list \<Rightarrow>
     (validation_error, transaction) outcome" where
  "decode_and_validate_mutual_close_tx L P W setup estate tx wallet_paths =
     bindo (guarded (length (tx_outputs tx) > 2)
              (Err (TransactionFormat ''invalid number of outputs: {}''))) (\<lambda>_.
     bindo (asserts (length wallet_paths = length (tx_outputs tx))) (\<lambda>_.
     bindo (checks
       [guarded (current_holder_commit_info estate = None)
          (sperr P ''policy-mutual-other'' ''current_holder_commit_info missing''),
        guarded (current_counterparty_commit_info estate = None)
          (sperr P ''policy-mutual-other'' ''current_counterparty_commit_info missing'')]) (\<lambda>_.
     bindo (mutual_close_candidates
              (option_gt (minimum_to_holder_value estate (epsilon_sat P))
                         (minimum_to_counterparty_value estate (epsilon_sat P)))
              (tx_outputs tx) wallet_paths) (\<lambda>(likely, unlikely).
     let validate = (\<lambda>a. validate_mutual_close_tx L P W setup estate (va_to_holder a)
           (va_to_counterparty a) (va_holder_script a) (va_counterparty_script a) (va_wallet_path a))
     in
     bindo (case validate likely of
              Ok _ \<Rightarrow> Ok likely
            | Panic \<Rightarrow> Panic
            | Err e \<Rightarrow> (case validate unlikely of Ok _ \<Rightarrow> Ok unlikely | Panic \<Rightarrow> Panic | Err _ \<Rightarrow> Err e)) (\<lambda>good.
     let recomposed_tx = lib_closing_transaction L (va_to_holder good) (va_to_counterparty good)
           (script_or_empty (va_holder_script good)) (script_or_empty (va_counterparty_script good))
           (funding_outpoint setup)
     in
     bindo (guarded (recomposed_tx \<noteq> tx)
              (sperr P ''policy-onchain-format-standard'' ''recomposed tx mismatch'')) (\<lambda>_.
     Ok recomposed_tx))))))"

definition ANCHOR_SEQS :: "u32 list" where
  "ANCHOR_SEQS = [0x00000001]"

definition NON_ANCHOR_SEQS :: "u32 list" where
  "NON_ANCHOR_SEQS = [0x00000000, 0xfffffffd, 0xffffffff]"

definition validate_delayed_sweep ::
    "simple_policy \<Rightarrow> node_wallet \<Rightarrow> channel_setup \<Rightarrow> chain_state \<Rightarrow> transaction \<Rightarrow> u32 list \<Rightarrow>
     (validation_error, unit) outcome" where
  "validate_delayed_sweep P W setup cstate tx wallet_path =
     bindo (map_err (prepend_msg ''{}: '') (validate_sweep P W tx wallet_path)) (\<lambda>_.
     bindo (guarded (lock_time tx > current_height cstate + MAX_CHAIN_LAG)
              (Err (TransactionFormat ''bad locktime: {} > {}''))) (\<lambda>_.
     bindo (index (tx_inputs tx) 0) (\<lambda>inp0.
     guarded (tx_sequence inp0 \<noteq> ucast (counterparty_selected_contest_delay setup))
       (Err (TransactionFormat ''bad sequence: {} != {}'')))))"

definition validate_counterparty_htlc_sweep ::
    "lib \<Rightarrow> simple_policy \<Rightarrow> node_wallet \<Rightarrow> channel_setup \<Rightarrow> chain_state \<Rightarrow> transaction \<Rightarrow> script \<Rightarrow> u32 list \<Rightarrow>
     (validation_error, unit) outcome" where
  "validate_counterparty_htlc_sweep L P W setup cstate tx redeemscript wallet_path =
     bindo (map_err (prepend_msg ''{}: '') (validate_sweep P W tx wallet_path)) (\<lambda>_.
     bindo (case parse_received_htlc_script L redeemscript (is_anchors setup) of
              Ok (_, _, _, _, cltv) \<Rightarrow>
                bindo (guarded (cltv < 0 \<or> cltv > 2 ^ 32 - 1)
                         (Err (TransactionFormat ''bad cltv_expiry: {}''))) (\<lambda>_.
                guarded (lock_time tx > of_int cltv) (Err (TransactionFormat ''bad locktime: {} > {}'')))
            | Panic \<Rightarrow> Panic
            | Err _ \<Rightarrow>
                if is_ok (parse_offered_htlc_script L redeemscript (is_anchors setup)) then
                  guarded (lock_time tx > current_height cstate + MAX_CHAIN_LAG)
                    (Err (TransactionFormat ''bad locktime: {} > {}''))
                else Err (TransactionFormat ''bad redeemscript: {}'')) (\<lambda>_.
     bindo (index (tx_inputs tx) 0) (\<lambda>inp0.
     guarded (tx_sequence inp0 \<notin> set (if is_anchors setup then ANCHOR_SEQS else NON_ANCHOR_SEQS))
       (Err (TransactionFormat ''bad sequence: {} not in {:?}'')))))"

definition validate_justice_sweep ::
    "simple_policy \<Rightarrow> node_wallet \<Rightarrow> chain_state \<Rightarrow> transaction \<Rightarrow> u32 list \<Rightarrow> (validation_error, unit) outcome" where
  "validate_justice_sweep P W cstate tx wallet_path =
     bindo (map_err (prepend_msg ''{}: '') (validate_sweep P W tx wallet_path)) (\<lambda>_.
     bindo (guarded (lock_time tx > current_height cstate + MAX_CHAIN_LAG)
              (Err (TransactionFormat ''bad locktime: {} > {}''))) (\<lambda>_.
     bindo (index (tx_inputs tx) 0) (\<lambda>inp0.
     guarded (tx_sequence inp0 \<notin> set NON_ANCHOR_SEQS)
       (Err (TransactionFormat ''bad sequence: {} not in {:?}'')))))"

definition validate_payment_balance ::
    "simple_policy \<Rightarrow> u64 \<Rightarrow> u64 \<Rightarrow> u64 option \<Rightarrow> (validation_error, unit) outcome" where
  "validate_payment_balance P incoming_msat outgoing_msat invoiced_amount_msat =
     (let max_to_invoice_msat = (case invoiced_amount_msat of
            Some a \<Rightarrow> a + max_routing_fee_msat P | None \<Rightarrow> 0)
      in guarded (incoming_msat + max_to_invoice_msat < outgoing_msat)
           (sperr P ''policy-routing-balanced''
              ''incoming_msat + max_to_invoice_msat < outgoing_msat: {} + {} < {}''))"

definition minimum_initial_balance :: "u64 \<Rightarrow> u64" where
  "minimum_initial_balance holder_value_msat = holder_value_msat div 1000"

end
