(* ===== verification/Onchain_Validator.thy ===== *)
theory Onchain_Validator
  imports Simple_Validator
begin

text \<open>
  The trait \<^verbatim>\<open>Validator\<close> as a record of functions (the code calls it through
  \<^verbatim>\<open>Arc<dyn Validator>\<close>), its instance \<^verbatim>\<open>SimpleValidator\<close>, and
  \<^verbatim>\<open>vls-core/src/policy/onchain_validator.rs\<close>: \<^verbatim>\<open>OnchainValidator\<close>, which wraps another validator
  and adds the checks on the confirmation of the funding transaction.
\<close>

section \<open>The trait\<close>

record validator =
  v_filter :: policy_filter
  v_validate_ready_channel :: "node_wallet \<Rightarrow> channel_setup \<Rightarrow> u32 list \<Rightarrow> (validation_error, unit) outcome"
  v_validate_channel_value :: "channel_setup \<Rightarrow> (validation_error, unit) outcome"
  v_validate_onchain_tx :: "node_wallet \<Rightarrow> channel_slot option list \<Rightarrow> transaction \<Rightarrow> transaction list \<Rightarrow>
      u64 list \<Rightarrow> u32 list list \<Rightarrow> nat \<Rightarrow> (validation_error, u64) outcome"
  v_decode_commitment_tx :: "signer_keys \<Rightarrow> channel_setup \<Rightarrow> bool \<Rightarrow> transaction \<Rightarrow> bytes list \<Rightarrow>
      (validation_error, commitment_info) outcome"
  v_validate_counterparty_commitment_tx :: "enforcement_state \<Rightarrow> u64 \<Rightarrow> pubkey \<Rightarrow> channel_setup \<Rightarrow>
      chain_state \<Rightarrow> commitment_info2 \<Rightarrow> (validation_error, unit) outcome"
  v_validate_holder_commitment_tx :: "enforcement_state \<Rightarrow> u64 \<Rightarrow> pubkey \<Rightarrow> channel_setup \<Rightarrow>
      chain_state \<Rightarrow> commitment_info2 \<Rightarrow> (validation_error, unit) outcome"
  v_validate_counterparty_revocation :: "enforcement_state \<Rightarrow> u64 \<Rightarrow> secret \<Rightarrow> (validation_error, unit) outcome"
  v_decode_and_validate_htlc_tx :: "bool \<Rightarrow> channel_setup \<Rightarrow> tx_creation_keys \<Rightarrow> transaction \<Rightarrow> script \<Rightarrow> u64 \<Rightarrow>
      (validation_error, u32 \<times> htlc_in_commitment \<times> bytes \<times> sighash_type) outcome"
  v_validate_htlc_tx :: "channel_setup \<Rightarrow> htlc_in_commitment \<Rightarrow> u32 \<Rightarrow> (validation_error, unit) outcome"
  v_decode_and_validate_mutual_close_tx :: "node_wallet \<Rightarrow> channel_setup \<Rightarrow> enforcement_state \<Rightarrow>
      transaction \<Rightarrow> u32 list list \<Rightarrow> (validation_error, transaction) outcome"
  v_validate_mutual_close_tx :: "node_wallet \<Rightarrow> channel_setup \<Rightarrow> enforcement_state \<Rightarrow> u64 \<Rightarrow> u64 \<Rightarrow>
      script option \<Rightarrow> script option \<Rightarrow> u32 list \<Rightarrow> (validation_error, unit) outcome"
  v_validate_delayed_sweep :: "node_wallet \<Rightarrow> channel_setup \<Rightarrow> chain_state \<Rightarrow> transaction \<Rightarrow> u32 list \<Rightarrow>
      (validation_error, unit) outcome"
  v_validate_counterparty_htlc_sweep :: "node_wallet \<Rightarrow> channel_setup \<Rightarrow> chain_state \<Rightarrow> transaction \<Rightarrow>
      script \<Rightarrow> u32 list \<Rightarrow> (validation_error, unit) outcome"
  v_validate_justice_sweep :: "node_wallet \<Rightarrow> chain_state \<Rightarrow> transaction \<Rightarrow> u32 list \<Rightarrow>
      (validation_error, unit) outcome"
  v_validate_payment_balance :: "u64 \<Rightarrow> u64 \<Rightarrow> u64 option \<Rightarrow> (validation_error, unit) outcome"
  v_enforce_balance :: bool
  v_minimum_initial_balance :: "u64 \<Rightarrow> u64"

definition simple_validator :: "lib \<Rightarrow> simple_policy \<Rightarrow> validator" where
  "simple_validator L P =
     \<lparr>v_filter = pol_filter P,
      v_validate_ready_channel = validate_ready_channel P,
      v_validate_channel_value = validate_channel_value P,
      v_validate_onchain_tx = validate_onchain_tx L P,
      v_decode_commitment_tx = decode_commitment_tx L P,
      v_validate_counterparty_commitment_tx = validate_counterparty_commitment_tx L P,
      v_validate_holder_commitment_tx = validate_holder_commitment_tx L P,
      v_validate_counterparty_revocation = sv_validate_counterparty_revocation L P,
      v_decode_and_validate_htlc_tx = decode_and_validate_htlc_tx L,
      v_validate_htlc_tx = validate_htlc_tx P,
      v_decode_and_validate_mutual_close_tx = decode_and_validate_mutual_close_tx L P,
      v_validate_mutual_close_tx = validate_mutual_close_tx L P,
      v_validate_delayed_sweep = validate_delayed_sweep P,
      v_validate_counterparty_htlc_sweep = validate_counterparty_htlc_sweep L P,
      v_validate_justice_sweep = validate_justice_sweep P,
      v_validate_payment_balance = validate_payment_balance P,
      v_enforce_balance = enforce_balance P,
      v_minimum_initial_balance = minimum_initial_balance\<rparr>"

section \<open>OnchainValidator\<close>

record onchain_policy =
  onchain_filter :: policy_filter
  min_funding_depth :: u16

definition make_onchain_policy :: "policy_filter \<Rightarrow> onchain_policy" where
  "make_onchain_policy f = \<lparr>onchain_filter = f, min_funding_depth = 1\<rparr>"

definition ensure_funding_buried_and_unspent ::
    "onchain_policy \<Rightarrow> u64 \<Rightarrow> chain_state \<Rightarrow> (validation_error, unit) outcome" where
  "ensure_funding_buried_and_unspent OP commit_num cstate =
     guarded (commit_num > 0) (checks
       [guarded (funding_depth cstate < ucast (min_funding_depth OP))
          (temporary_policy_error_with_filter ''policy-commitment-spends-active-utxo''
             ''tried commitment {} when funding is not buried at depth {}, our height {}'' (onchain_filter OP)),
        guarded (closing_depth cstate > 0)
          (policy_error_with_filter ''policy-commitment-spends-active-utxo''
             ''tried commitment {} after closed on-chain at depth {}'' (onchain_filter OP))])"

definition ov_validate_counterparty_commitment_tx ::
    "onchain_policy \<Rightarrow> validator \<Rightarrow> enforcement_state \<Rightarrow> u64 \<Rightarrow> pubkey \<Rightarrow> channel_setup \<Rightarrow> chain_state \<Rightarrow>
     commitment_info2 \<Rightarrow> (validation_error, unit) outcome" where
  "ov_validate_counterparty_commitment_tx OP inner estate commit_num point setup cstate info2 =
     bindo (ensure_funding_buried_and_unspent OP commit_num cstate) (\<lambda>_.
     v_validate_counterparty_commitment_tx inner estate commit_num point setup cstate info2)"

definition ov_validate_holder_commitment_tx ::
    "onchain_policy \<Rightarrow> validator \<Rightarrow> enforcement_state \<Rightarrow> u64 \<Rightarrow> pubkey \<Rightarrow> channel_setup \<Rightarrow> chain_state \<Rightarrow>
     commitment_info2 \<Rightarrow> (validation_error, unit) outcome" where
  "ov_validate_holder_commitment_tx OP inner estate commit_num point setup cstate info2 =
     bindo (guarded (next_holder_commit_num estate \<le> commit_num)
              (ensure_funding_buried_and_unspent OP commit_num cstate)) (\<lambda>_.
     v_validate_holder_commitment_tx inner estate commit_num point setup cstate info2)"

text \<open>
  Every other method delegates; \<^verbatim>\<open>enforce_balance\<close> is not overridden, so the default of the
  trait applies.
\<close>

definition onchain_validator :: "onchain_policy \<Rightarrow> validator \<Rightarrow> validator" where
  "onchain_validator OP inner = inner
     \<lparr>v_filter := onchain_filter OP,
      v_validate_counterparty_commitment_tx := ov_validate_counterparty_commitment_tx OP inner,
      v_validate_holder_commitment_tx := ov_validate_holder_commitment_tx OP inner,
      v_enforce_balance := False\<rparr>"

text \<open>\<^verbatim>\<open>OnchainValidatorFactory::make_validator\<close> copies the filter of the inner policy.\<close>

definition make_onchain_validator :: "lib \<Rightarrow> simple_policy option \<Rightarrow> network \<Rightarrow> validator" where
  "make_onchain_validator L pol network =
     onchain_validator
       (make_onchain_policy (case pol of Some p \<Rightarrow> pol_filter p | None \<Rightarrow> default_filter))
       (simple_validator L (case pol of Some p \<Rightarrow> p | None \<Rightarrow> make_simple_policy network))"

section \<open>What accepted commitments satisfy\<close>

text \<open>The sum of the HTLCs is computed without overflow.\<close>

lemma check_htlcs_sum:
  "check_htlcs P name h dust hs s = Ok r \<Longrightarrow> unat r = unat s + sum_sat hs"
proof (induction hs arbitrary: s)
  case Nil
  then show ?case by (simp add: check_htlcs_def)
next
  case (Cons x hs)
  from Cons.prems obtain s' where "checked_add s (value_sat x) = Some s'"
    and r: "check_htlcs P name h dust hs s' = Ok r"
    by (auto simp: check_htlcs_def bindo_Ok_iff ok_or_iff)
  then show ?case using Cons.IH [OF r] checked_add_unat by simp
qed

lemma check_htlcs_dust:
  assumes "check_htlcs P name h dust hs s = Ok r" and "enforced (pol_filter P) ''policy-commitment-outputs-trimmed''"
  shows "\<forall>x \<in> set hs. dust \<le> value_sat x"
  using assms(1)
proof (induction hs arbitrary: s)
  case (Cons x hs)
  then show ?case
    using assms(2) by (auto simp: check_htlcs_def bindo_Ok_iff policy_simps not_less)
qed simp

lemma validate_fee_Ok:
  assumes "validate_fee P tag i out w = Ok u"
  shows "out \<le> i"
  using assms by (auto simp: validate_fee_def bindo_Ok_iff ok_or_iff checked_sub_Some_iff)

lemma validate_commitment_tx_sum:
  assumes "validate_commitment_tx L P n setup cs info = Ok u"
  obtains s where "unat s = output_total info"
    "validate_fee P ''policy-commitment-fee-range'' (channel_value_sat setup) s
       (expected_commitment_tx_weight (is_anchors setup)
          (length (offered_htlcs info) + length (received_htlcs info))) = Ok ()"
proof -
  from assms obtain a b m s where
    a: "check_htlcs P ''offered'' (current_height cs) (offered_htlc_dust_limit L setup info)
          (offered_htlcs info) 0 = Ok a" and
    b: "check_htlcs P ''received'' (current_height cs) (received_htlc_dust_limit L setup info)
          (received_htlcs info) a = Ok b" and
    m: "checked_add (to_broadcaster_value_sat info) (to_countersigner_value_sat info) = Some m" and
    s: "checked_add m b = Some s" and
    fee: "validate_fee P ''policy-commitment-fee-range'' (channel_value_sat setup) s
       (expected_commitment_tx_weight (is_anchors setup)
          (length (offered_htlcs info) + length (received_htlcs info))) = Ok ()"
    unfolding validate_commitment_tx_def by (auto simp: bindo_Ok_iff ok_or_iff map_err_Ok_iff)
  have "unat s = output_total info"
    using check_htlcs_sum [OF a] check_htlcs_sum [OF b] checked_add_unat [OF m] checked_add_unat [OF s]
    by (simp add: output_total_def)
  with fee show thesis by (rule that [rotated -1])
qed

lemma validate_commitment_tx_fits:
  assumes "validate_commitment_tx L P n setup cs info = Ok u"
  shows "output_total info \<le> unat (channel_value_sat setup)"
proof -
  from assms obtain s where "unat s = output_total info" and
    "validate_fee P ''policy-commitment-fee-range'' (channel_value_sat setup) s
       (expected_commitment_tx_weight (is_anchors setup)
          (length (offered_htlcs info) + length (received_htlcs info))) = Ok ()"
    by (rule validate_commitment_tx_sum)
  with validate_fee_Ok show ?thesis by (metis word_le_nat_alt)
qed

definition example_cstate :: chain_state where
  "example_cstate = \<lparr>current_height = 100, funding_depth = 6, funding_double_spent_depth = 0,
     closing_depth = 0\<rparr>"

abbreviation example_policy :: simple_policy where
  "example_policy \<equiv> make_simple_policy Testnet"

lemma example_commitment_ok:
  "validate_commitment_tx example_lib example_policy 1 example_setup example_cstate example_info = Ok ()"
  by (simp add: validate_commitment_tx_def example_info_def commitment_info2_new_def example_setup_def
      example_lib_def example_cstate_def make_simple_policy_def guarded_def check_htlcs_def
      validate_expiry_def checked_add_def checked_sub_def ok_or_def MIN_CHAN_DUST_LIMIT_SATOSHIS_def
      MIN_DUST_LIMIT_SATOSHIS_def offered_htlc_dust_limit_def received_htlc_dust_limit_def
      is_zero_fee_htlc_def is_anchors_def validate_fee_def estimate_feerate_per_kw_def asserts_def
      expected_commitment_tx_weight_def)



end
