(* ===== verification/Validator_Safety.thy ===== *)
theory Validator_Safety
  imports Onchain_Validator
begin

text \<open>
  What the checks of \<^verbatim>\<open>SimpleValidator\<close> and \<^verbatim>\<open>OnchainValidator\<close> establish about the transactions that
  pass them: fees in range, our money going only to the wallet, to the allowlist or into a
  properly countersigned channel, and closing transactions that pay us what the latest
  commitments promise.
\<close>

section \<open>Fees\<close>

definition feerate_exact :: "nat \<Rightarrow> nat \<Rightarrow> bool" where
  "feerate_exact fee w \<longleftrightarrow> fee * 1000 + 999 < 2 ^ 64 \<and> 0 < w \<and> w < 2 ^ 64 \<and> (fee * 1000 + 999) div w < 2 ^ 32"

lemma estimate_feerate_Ok:
  assumes "estimate_feerate_per_kw fee (of_nat w) = (Ok r :: ('e, u32) outcome)" and "feerate_exact (unat fee) w"
  shows "unat r = (unat fee * 1000 + 999) div w"
proof -
  have w: "unat (of_nat w :: u64) = w" using assms(2) by (simp add: feerate_exact_def unat_of_nat)
  then have "0 < (of_nat w :: u64)"
    using assms(2) by (simp add: word_less_nat_alt feerate_exact_def)
  with estimate_feerate_exact [of fee "of_nat w", where ?'e = 'e] assms w show ?thesis
    by (auto simp: feerate_exact_def)
qed

lemma validate_fee_range:
  assumes "validate_fee P tag i out w = Ok u" and "enforced (pol_filter P) tag"
    and "feerate_exact (unat i - unat out) w"
  shows "unat (min_feerate_per_kw P) * w \<le> (unat i - unat out) * 1000 + 999"
    and "(unat i - unat out) * 1000 + 999 < (unat (max_feerate_per_kw P) + 1) * w"
proof -
  from assms(1) obtain fee r where fee: "checked_sub i out = Some fee"
    and r: "estimate_feerate_per_kw fee (of_nat w) = (Ok r :: (validation_error, u32) outcome)"
    and range: "min_feerate_per_kw P \<le> r" "r \<le> max_feerate_per_kw P"
    using assms(2) by (auto simp: validate_fee_def bindo_Ok_iff ok_or_iff policy_simps not_less)
  have f: "unat fee = unat i - unat out" using checked_sub_unat [OF fee] by simp
  have ur: "unat r = ((unat i - unat out) * 1000 + 999) div w"
    using estimate_feerate_Ok [OF r] assms(3) f by simp
  have w: "0 < w" using assms(3) by (simp add: feerate_exact_def)
  from range(1) have "unat (min_feerate_per_kw P) \<le> ((unat i - unat out) * 1000 + 999) div w"
    by (simp add: word_le_nat_alt ur)
  then show "unat (min_feerate_per_kw P) * w \<le> (unat i - unat out) * 1000 + 999"
    using w by (simp add: less_eq_div_iff_mult_less_eq)
  from range(2) have "((unat i - unat out) * 1000 + 999) div w < unat (max_feerate_per_kw P) + 1"
    by (simp add: word_le_nat_alt ur)
  then show "(unat i - unat out) * 1000 + 999 < (unat (max_feerate_per_kw P) + 1) * w"
    using w by (simp add: div_less_iff_less_mult)
qed

abbreviation commitment_weight :: "channel_setup \<Rightarrow> commitment_info2 \<Rightarrow> nat" where
  "commitment_weight setup info \<equiv> expected_commitment_tx_weight (is_anchors setup)
     (length (offered_htlcs info) + length (received_htlcs info))"

lemma feerate_exact_small:
  assumes "fee \<le> 3000000000" and "724 \<le> w" and "w < 2 ^ 64"
  shows "feerate_exact fee w"
proof -
  have "(fee * 1000 + 999) div w \<le> (fee * 1000 + 999) div 724"
    using assms(2) by (intro div_le_mono2) auto
  also have "\<dots> \<le> (3000000000 * 1000 + 999) div 724"
    using assms(1) by (intro div_le_mono) auto
  also have "\<dots> < 2 ^ 32" by simp
  finally show ?thesis using assms by (simp add: feerate_exact_def)
qed



section \<open>The first commitment\<close>



section \<open>Sweeps\<close>

definition pays_us :: "node_wallet \<Rightarrow> u32 list \<Rightarrow> script \<Rightarrow> bool" where
  "pays_us W path scr \<longleftrightarrow> can_spend W path scr = Ok True \<or> allowlist_contains W scr path"

lemma check_destination_Ok:
  assumes "check_destination P W tag msg path scr = Ok u" and "enforced (pol_filter P) tag"
  shows "pays_us W path scr"
  using assms by (auto simp: check_destination_def bindo_Ok_iff map_err_Ok_iff policy_simps pays_us_def)

lemma validate_sweep_Ok:
  assumes "validate_sweep P W tx path = Ok u"
    and "enforced (pol_filter P) ''policy-sweep-destination-allowlisted''"
  shows "\<forall>out \<in> set (tx_outputs tx). pays_us W path (script_pubkey out)"
  using assms by (auto simp: validate_sweep_def bindo_Ok_iff checks_Ok_iff intro: check_destination_Ok)

text \<open>
  C10: A sweep pays only us.  Every output of a transaction accepted by one of the three sweep
  validations goes to a script the wallet can spend or that is on the allowlist.
\<close>

theorem sweeps_pay_us:
  assumes "validate_delayed_sweep P W setup cs tx path = Ok () \<or>
           validate_counterparty_htlc_sweep L P W setup cs tx redeemscript path = Ok () \<or>
           validate_justice_sweep P W cs tx path = Ok ()"
    and "enforced (pol_filter P) ''policy-sweep-destination-allowlisted''"
    and "out \<in> set (tx_outputs tx)"
  shows "pays_us W path (script_pubkey out)"
proof -
  have "validate_sweep P W tx path = Ok ()"
    using assms(1) by (auto simp: validate_delayed_sweep_def validate_counterparty_htlc_sweep_def
        validate_justice_sweep_def bindo_Ok_iff map_err_Ok_iff)
  with validate_sweep_Ok assms(2,3) show ?thesis by blast
qed

definition example_wallet :: node_wallet where
  "example_wallet = \<lparr>can_spend = (\<lambda>path scr. Ok (path = [1])), allowlist_contains_payee = (\<lambda>_. False),
     allowlist_contains = (\<lambda>_ _. False)\<rparr>"

theorem sweeps_pay_us_witness: "pays_us example_wallet [1] [0, 20, 1]"
  using sweeps_pay_us [of example_policy example_wallet example_setup example_cstate example_tx "[1]"
      example_lib "[]" "\<lparr>out_value = 2000000, script_pubkey = [0, 20, 1]\<rparr>"]
  by (simp add: validate_justice_sweep_def validate_sweep_def check_destination_def example_tx_def
      example_wallet_def example_cstate_def make_simple_policy_def guarded_def index_def MAX_CHAIN_LAG_def
      NON_ANCHOR_SEQS_def)

section \<open>Mutual close\<close>

lemma within_epsilon:
  assumes "\<not> outside_epsilon_range P a b"
  shows "unat a \<le> unat b + unat (epsilon_sat P)" and "unat b \<le> unat a + unat (epsilon_sat P)"
  using assms
  by (auto simp: outside_epsilon_range_def not_less word_le_nat_alt word_less_nat_alt unat_sub
      split: if_splits)

lemma validate_mutual_close_tx_Ok:
  assumes "validate_mutual_close_tx L P W setup estate h c hs cs path = Ok u"
  obtains hi ci s where "current_holder_commit_info estate = Some hi"
    "current_counterparty_commit_info estate = Some ci" "checked_add h c = Some s"
    "validate_fee P ''policy-mutual-fee-range'' (channel_value_sat setup) s
       (mutual_close_tx_weight L (lib_closing_transaction L h c (script_or_empty hs) (script_or_empty cs)
          (funding_outpoint setup))) = Ok ()"
    "enforced (pol_filter P) ''policy-mutual-no-pending-htlcs'' \<Longrightarrow> htlcs_is_empty hi \<and> htlcs_is_empty ci"
    "enforced (pol_filter P) ''policy-mutual-destination-allowlisted'' \<Longrightarrow> h > 0 \<Longrightarrow>
       \<exists>scr. hs = Some scr \<and> pays_us W path scr \<and>
         (holder_shutdown_script setup \<noteq> None \<longrightarrow> holder_shutdown_script setup = Some scr)"
    "enforced (pol_filter P) ''policy-mutual-value-matches-commitment'' \<Longrightarrow> is_outbound setup \<Longrightarrow>
       \<not> outside_epsilon_range P c (to_broadcaster_value_sat ci) \<and>
       \<not> outside_epsilon_range P c (to_countersigner_value_sat hi)"
    "enforced (pol_filter P) ''policy-mutual-value-matches-commitment'' \<Longrightarrow> \<not> is_outbound setup \<Longrightarrow>
       \<not> outside_epsilon_range P h (to_broadcaster_value_sat hi) \<and>
       \<not> outside_epsilon_range P h (to_countersigner_value_sat ci)"
proof -
  from assms obtain hi ci s where *: "current_holder_commit_info estate = Some hi"
    "current_counterparty_commit_info estate = Some ci" "checked_add h c = Some s"
    "validate_fee P ''policy-mutual-fee-range'' (channel_value_sat setup) s
       (mutual_close_tx_weight L (lib_closing_transaction L h c (script_or_empty hs) (script_or_empty cs)
          (funding_outpoint setup))) = Ok ()"
    unfolding validate_mutual_close_tx_def
    by (auto simp: bindo_Ok_iff ok_or_iff map_err_Ok_iff Let_def)
  show thesis
  proof (rule that [OF *])
    show "htlcs_is_empty hi \<and> htlcs_is_empty ci"
      if "enforced (pol_filter P) ''policy-mutual-no-pending-htlcs''"
      using assms that * by (auto simp: validate_mutual_close_tx_def bindo_Ok_iff ok_or_iff policy_simps Let_def)
    show "\<exists>scr. hs = Some scr \<and> pays_us W path scr \<and>
         (holder_shutdown_script setup \<noteq> None \<longrightarrow> holder_shutdown_script setup = Some scr)"
      if "enforced (pol_filter P) ''policy-mutual-destination-allowlisted''" and "h > 0"
      using assms that *
      by (auto simp: validate_mutual_close_tx_def bindo_Ok_iff ok_or_iff policy_simps Let_def
          split: option.splits intro: check_destination_Ok)
    show "\<not> outside_epsilon_range P c (to_broadcaster_value_sat ci) \<and>
       \<not> outside_epsilon_range P c (to_countersigner_value_sat hi)"
      if "enforced (pol_filter P) ''policy-mutual-value-matches-commitment''" and "is_outbound setup"
      using assms that * by (auto simp: validate_mutual_close_tx_def bindo_Ok_iff ok_or_iff policy_simps Let_def)
    show "\<not> outside_epsilon_range P h (to_broadcaster_value_sat hi) \<and>
       \<not> outside_epsilon_range P h (to_countersigner_value_sat ci)"
      if "enforced (pol_filter P) ''policy-mutual-value-matches-commitment''" and "\<not> is_outbound setup"
      using assms that * by (auto simp: validate_mutual_close_tx_def bindo_Ok_iff ok_or_iff policy_simps Let_def)
  qed
qed

definition all_enforced :: "policy_filter \<Rightarrow> bool" where
  "all_enforced f \<longleftrightarrow> filter_rules f = []"

lemma all_enforcedD [simp]: "all_enforced f \<Longrightarrow> enforced f t"
  by (simp add: all_enforced_def policy_filter_filter_def)

lemma budget:
  fixes h c d a e F :: nat
  assumes "c \<le> a + e" and "d * 1000 < F"
  shows "(h + c + d) * 1000 < (h + a + e) * 1000 + F"
proof -
  have "(h + c) * 1000 \<le> (h + a + e) * 1000" using assms(1) by simp
  from this assms(2) show ?thesis unfolding add_mult_distrib [of "h + c"] by (rule add_le_less_mono)
qed

text \<open>
  C8: A mutual close pays us what the latest commitments promise.  With every policy enforced,
  an accepted closing transaction leaves no HTLC pending, sends our output to the wallet, to the
  allowlist or to the shutdown script fixed at the opening, and gives us our value: when the
  counterparty pays the fee, our output is within epsilon of our balance in both commitments;
  when we pay it, our output is at least the channel value minus the counterparty's balance,
  epsilon and the maximal fee.
\<close>

theorem mutual_close_pays_us:
  assumes "validate_mutual_close_tx L P W setup estate h c hs cs path = Ok ()"
    and "all_enforced (pol_filter P)"
    and "w = mutual_close_tx_weight L (lib_closing_transaction L h c (script_or_empty hs) (script_or_empty cs)
               (funding_outpoint setup))"
    and "feerate_exact (unat (channel_value_sat setup) - (unat h + unat c)) w"
  shows "\<exists>hi ci. current_holder_commit_info estate = Some hi \<and>
     current_counterparty_commit_info estate = Some ci \<and>
     htlcs_is_empty hi \<and> htlcs_is_empty ci \<and>
     (h > 0 \<longrightarrow> (\<exists>scr. hs = Some scr \<and> pays_us W path scr \<and>
        (holder_shutdown_script setup \<noteq> None \<longrightarrow> holder_shutdown_script setup = Some scr))) \<and>
     (if is_outbound setup
      then unat (channel_value_sat setup) * 1000 <
             (unat h + unat (to_countersigner_value_sat hi) + unat (epsilon_sat P)) * 1000
             + (unat (max_feerate_per_kw P) + 1) * w
      else unat (to_broadcaster_value_sat hi) \<le> unat h + unat (epsilon_sat P) \<and>
           unat (to_countersigner_value_sat ci) \<le> unat h + unat (epsilon_sat P))"
proof -
  from assms(1) obtain hi ci s where r: "current_holder_commit_info estate = Some hi"
    "current_counterparty_commit_info estate = Some ci" "checked_add h c = Some s"
    "validate_fee P ''policy-mutual-fee-range'' (channel_value_sat setup) s w = Ok ()"
    "htlcs_is_empty hi" "htlcs_is_empty ci"
    "h > 0 \<longrightarrow> (\<exists>scr. hs = Some scr \<and> pays_us W path scr \<and>
         (holder_shutdown_script setup \<noteq> None \<longrightarrow> holder_shutdown_script setup = Some scr))"
    "is_outbound setup \<longrightarrow> \<not> outside_epsilon_range P c (to_countersigner_value_sat hi)"
    "\<not> is_outbound setup \<longrightarrow> \<not> outside_epsilon_range P h (to_broadcaster_value_sat hi) \<and>
       \<not> outside_epsilon_range P h (to_countersigner_value_sat ci)"
    by (rule validate_mutual_close_tx_Ok) (use assms(2,3) in auto)
  have s: "unat s = unat h + unat c" by (rule checked_add_unat [OF r(3)])
  have le: "unat s \<le> unat (channel_value_sat setup)"
    using validate_fee_Ok [OF r(4)] by (simp add: word_le_nat_alt)
  have fee: "(unat (channel_value_sat setup) - unat s) * 1000 < (unat (max_feerate_per_kw P) + 1) * w"
    using validate_fee_range(2) [OF r(4)] assms(2,4) s by simp
  have "unat (channel_value_sat setup) * 1000 <
      (unat h + unat (to_countersigner_value_sat hi) + unat (epsilon_sat P)) * 1000
      + (unat (max_feerate_per_kw P) + 1) * w" if "is_outbound setup"
  proof -
    have "unat c \<le> unat (to_countersigner_value_sat hi) + unat (epsilon_sat P)"
      using within_epsilon(1) r(8) that by blast
    moreover obtain d where d: "unat (channel_value_sat setup) = unat s + d"
      using le by (auto simp: le_iff_add)
    moreover define F where "F = (unat (max_feerate_per_kw P) + 1) * w"
    ultimately have "d * 1000 < F" using fee by simp
    with \<open>unat c \<le> _\<close> show ?thesis
      unfolding d s F_def [symmetric] by (rule budget)
  qed
  with r within_epsilon(2) show ?thesis by auto
qed

theorem mutual_close_pays_us_witness:
  "\<exists>hi ci. current_holder_commit_info
       ((enforcement_state_new 0)\<lparr>current_holder_commit_info := Some example_initial_info,
          current_counterparty_commit_info := Some (example_initial_info\<lparr>is_counterparty_broadcaster := True,
             to_countersigner_value_sat := 2999000, to_broadcaster_value_sat := 0\<rparr>)\<rparr>) = Some hi \<and>
     htlcs_is_empty hi \<and> htlcs_is_empty ci \<and> pays_us example_wallet [1] [0, 20, 1]"
proof -
  let ?st = "(enforcement_state_new 0)\<lparr>current_holder_commit_info := Some example_initial_info,
     current_counterparty_commit_info := Some (example_initial_info\<lparr>is_counterparty_broadcaster := True,
        to_countersigner_value_sat := 2999000, to_broadcaster_value_sat := 0\<rparr>)\<rparr>"
  have ok: "validate_mutual_close_tx example_lib example_policy example_wallet example_setup ?st
      2999500 0 (Some [0, 20, 1]) None [1] = Ok ()"
    by (simp add: validate_mutual_close_tx_def example_lib_def example_setup_def example_wallet_def
        make_simple_policy_def guarded_def ok_or_def checked_add_def checked_sub_def validate_fee_def
        estimate_feerate_per_kw_def asserts_def mutual_close_tx_weight_def outside_epsilon_range_def
        check_destination_def htlcs_is_empty_def example_initial_info_def commitment_info2_new_def)
  have en: "all_enforced (pol_filter example_policy)"
    by (simp add: all_enforced_def make_simple_policy_def default_filter_def)
  have ex: "feerate_exact (unat (channel_value_sat example_setup) - (unat (2999500 :: u64) + unat (0 :: u64)))
      (mutual_close_tx_weight example_lib (lib_closing_transaction example_lib 2999500 0
         (script_or_empty (Some [0, 20, 1])) (script_or_empty None) (funding_outpoint example_setup)))"
    by (simp add: feerate_exact_def mutual_close_tx_weight_def example_lib_def example_setup_def)
  from mutual_close_pays_us [OF ok en refl ex] show ?thesis by auto
qed

section \<open>On-chain transactions\<close>

text \<open>
  An output is ours when it pays the wallet or the allowlist, or when it funds exactly a channel
  whose first commitment the counterparty has signed, which we open and with nothing pushed.
\<close>

definition funds_channel :: "lib \<Rightarrow> tx_out \<Rightarrow> channel \<Rightarrow> bool" where
  "funds_channel L out chan \<longleftrightarrow>
     out_value out = channel_value_sat (chan_setup chan) \<and>
     script_pubkey out = p2wsh_script_pubkey L (lib_make_funding_redeemscript L
       (funding_pubkey (holder_pubkeys (chan_keys chan)))
       (funding_pubkey (counterparty_pubkeys (chan_keys chan)))) \<and>
     next_holder_commit_num (enforcement_state chan) = 1 \<and>
     is_outbound (chan_setup chan) \<and> push_value_msat (chan_setup chan) div 1000 = 0"

definition our_output ::
    "lib \<Rightarrow> node_wallet \<Rightarrow> channel_slot option list \<Rightarrow> tx_out list \<Rightarrow> u32 list list \<Rightarrow> nat \<Rightarrow> bool" where
  "our_output L W channels outs opaths i \<longleftrightarrow>
     (if opaths ! i \<noteq> [] then pays_us W (opaths ! i) (script_pubkey (outs ! i))
      else allowlist_contains W (script_pubkey (outs ! i)) [] \<or>
           (\<exists>chan. channels ! i = Some (Ready chan) \<and> funds_channel L (outs ! i) chan))"

lemma validate_funding_output_Ok:
  assumes "validate_funding_output L P out chan = Ok v" and "all_enforced (pol_filter P)"
  shows "funds_channel L out chan \<and> v = out_value out"
  using assms
  by (auto simp: validate_funding_output_def Let_def bindo_Ok_iff policy_simps funds_channel_def
      unwrap_iff checked_sub_Some_iff word_gt_0)

lemma validate_onchain_output_Ok:
  assumes "validate_onchain_output L P W channels outs opaths i (s, us) = Ok (s', us')"
    and "all_enforced (pol_filter P)"
  shows "(us' = us @ [i] \<and> s' = s) \<or>
         (us' = us \<and> our_output L W channels outs opaths i \<and> unat s' = unat s + unat (out_value (outs ! i)))"
  using assms
  by (auto simp: validate_onchain_output_def index_def bindo_Ok_iff map_err_Ok_iff add_beneficial_output_def
      ok_or_iff policy_simps our_output_def pays_us_def checked_add_unat
      split: if_splits option.splits channel_slot.splits dest!: validate_funding_output_Ok)

lemma onchain_outputs_Ok:
  assumes "foldo (validate_onchain_output L P W channels outs opaths) [0..<n] (0, []) = Ok (s, [])"
    and "all_enforced (pol_filter P)"
  shows "(\<forall>i < n. our_output L W channels outs opaths i) \<and>
         unat s = (\<Sum>i<n. unat (out_value (outs ! i)))"
  using assms(1)
proof (induction n arbitrary: s)
  case (Suc n)
  then obtain s1 us1 where s1: "foldo (validate_onchain_output L P W channels outs opaths) [0..<n] (0, []) = Ok (s1, us1)"
    and step: "validate_onchain_output L P W channels outs opaths n (s1, us1) = Ok (s, [])"
    by (auto simp: foldo_append bindo_Ok_iff)
  from validate_onchain_output_Ok [OF step assms(2)]
  have "us1 = []" "our_output L W channels outs opaths n" "unat s = unat s1 + unat (out_value (outs ! n))"
    by auto
  with Suc.IH s1 show ?case by (auto simp: less_Suc_eq)
qed simp

lemma sum_inputs_checked_Ok:
  "sum_inputs_checked vs = Ok s \<Longrightarrow> unat s = sum_list (map unat vs)"
proof -
  have "foldo (\<lambda>v s. ok_or (Policy ''funding sum inputs overflow'') (checked_add s v)) vs a = Ok s \<Longrightarrow>
      unat s = unat a + sum_list (map unat vs)" for a
    by (induction vs arbitrary: a) (auto simp: bindo_Ok_iff ok_or_iff dest!: checked_add_unat)
  then show "sum_inputs_checked vs = Ok s \<Longrightarrow> unat s = sum_list (map unat vs)"
    by (fastforce simp: sum_inputs_checked_def)
qed

text \<open>
  C9: An accepted on-chain transaction loses only the fee.  With every policy enforced, every
  output of the transaction is ours (wallet, allowlist, or the exact funding output of a channel
  whose first commitment is countersigned), and the value reported as not beneficial is exactly
  the inputs minus the outputs; when any channel is funded, all inputs are native segwit.
\<close>

theorem onchain_tx_loses_only_fee:
  assumes "validate_onchain_tx L P W channels tx input_txs values_sat opaths weight = Ok nb"
    and "all_enforced (pol_filter P)"
  shows "(\<forall>i < length (tx_outputs tx). our_output L W channels (tx_outputs tx) opaths i) \<and>
         sum_list (map unat values_sat) = sum_list (map (unat \<circ> out_value) (tx_outputs tx)) + unat nb \<and>
         ((\<exists>c \<in> set channels. c \<noteq> None) \<longrightarrow> is_tx_non_malleable L tx input_txs)"
proof -
  from assms(1) obtain s si where outs: "foldo (validate_onchain_output L P W channels (tx_outputs tx) opaths)
      [0..<length (tx_outputs tx)] (0, []) = Ok (s, [])"
    and si: "sum_inputs_checked values_sat = Ok si"
    and nb: "validate_beneficial_value P si s weight = Ok nb"
    by (auto simp: validate_onchain_tx_def bindo_Ok_iff map_err_Ok_iff split: if_splits)
  have "(\<Sum>i<length (tx_outputs tx). unat (out_value (tx_outputs tx ! i))) =
      sum_list (map (unat \<circ> out_value) (tx_outputs tx))"
    by (simp add: sum_list_sum_nth lessThan_atLeast0)
  moreover from nb have "unat si = unat s + unat nb"
    by (auto simp: validate_beneficial_value_def bindo_Ok_iff ok_or_iff dest!: checked_sub_unat)
  moreover have "(\<exists>c \<in> set channels. c \<noteq> None) \<longrightarrow> is_tx_non_malleable L tx input_txs"
    using assms by (auto simp: validate_onchain_tx_def bindo_Ok_iff policy_simps)
  ultimately show ?thesis
    using onchain_outputs_Ok [OF outs assms(2)] sum_inputs_checked_Ok [OF si] by simp
qed

theorem onchain_tx_loses_only_fee_witness:
  "our_output example_lib example_wallet [None] (tx_outputs example_tx) [[1]] 0 \<and>
   unat (2001000 :: u64) = unat (2000000 :: u64) + unat (1000 :: u64)"
proof -
  have ok: "validate_onchain_tx example_lib example_policy example_wallet [None] example_tx [] [2001000] [[1]] 600
      = Ok 1000"
    by (simp add: validate_onchain_tx_def validate_onchain_output_def index_def example_tx_def
        example_wallet_def example_lib_def make_simple_policy_def guarded_def add_beneficial_output_def
        ok_or_def checked_add_def checked_sub_def sum_inputs_checked_def validate_beneficial_value_def
        estimate_feerate_per_kw_def asserts_def MAX_ONCHAIN_TX_SIZE_def)
  have en: "all_enforced (pol_filter example_policy)"
    by (simp add: all_enforced_def make_simple_policy_def default_filter_def)
  from onchain_tx_loses_only_fee [OF ok en] show ?thesis by (simp add: example_tx_def)
qed

section \<open>Decoding a commitment transaction\<close>

text \<open>
  C0: Decoding a commitment transaction accounts for every output.  The values that
  \<^verbatim>\<open>decode_commitment_tx\<close> collects (to the broadcaster, to the countersigner, the HTLCs and the
  anchors) add up to the sum of the transaction's outputs, so no output is ignored and none is
  counted twice.
\<close>

theorem decode_commitment_tx_conserves:
  assumes "decode_commitment_tx L P keys setup cp tx ws = Ok info"
    and "payload_total L" and "length (tx_outputs tx) < 2 ^ 16"
  shows "ci_total info = sum_list (map (unat \<circ> out_value) (tx_outputs tx))"
proof -
  let ?step = "\<lambda>ind info. bindo (index ws ind) (\<lambda>w. map_err (prepend_msg ''{}: tx output[{}]: '')
       (handle_output L keys setup (tx_outputs tx ! ind) w info))"
  have *: "ci_wf i \<and> ci_anchors i \<le> n \<and> ci_total i = (\<Sum>k<n. unat (out_value (tx_outputs tx ! k)))"
    if "foldo ?step [0..<n] (commitment_info_new cp) = Ok i" and "n \<le> length (tx_outputs tx)" for n i
    using that
  proof (induction n arbitrary: i)
    case 0
    then show ?case by (auto simp: commitment_info_new_def total_simps)
  next
    case (Suc n)
    then obtain i0 w where i0: "foldo ?step [0..<n] (commitment_info_new cp) = Ok i0"
      and step: "handle_output L keys setup (tx_outputs tx ! n) w i0 = Ok i"
      by (auto simp: foldo_append bindo_Ok_iff map_err_Ok_iff)
    with Suc have IH: "ci_wf i0" "ci_anchors i0 \<le> n"
      "ci_total i0 = (\<Sum>k<n. unat (out_value (tx_outputs tx ! k)))" by auto
    moreover have "ci_anchors i0 + 1 < 2 ^ 16" using IH(2) Suc.prems(2) assms(3) by linarith
    ultimately have "adds_output (tx_outputs tx ! n) i0 i"
      using handle_output_adds [OF step] assms(2) by blast
    with IH show ?case by (simp add: adds_output_def)
  qed
  from assms(1) have "foldo ?step [0..<length (tx_outputs tx)] (commitment_info_new cp) = Ok info"
    by (auto simp: decode_commitment_tx_def bindo_Ok_iff)
  from * [OF this] show ?thesis by (simp add: sum_list_sum_nth lessThan_atLeast0)
qed

theorem decode_commitment_tx_conserves_witness:
  "\<exists>info. decode_commitment_tx example_lib example_policy example_keys example_setup True example_tx [[]] = Ok info \<and>
     ci_total info = 2000000"
proof -
  have "\<exists>info. decode_commitment_tx example_lib example_policy example_keys example_setup True example_tx [[]]
      = Ok info"
    by (simp add: decode_commitment_tx_def example_tx_def guarded_def index_def handle_output_def
        example_lib_def example_setup_def is_anchors_def commitment_info_new_def has_to_countersigner_def)
  then obtain info where "decode_commitment_tx example_lib example_policy example_keys example_setup True
      example_tx [[]] = Ok info" by blast
  with decode_commitment_tx_conserves [OF this] show ?thesis
    by (simp add: payload_total_def example_lib_def example_tx_def)
qed

section \<open>The contract of a validator\<close>

text \<open>
  What the channel relies on from any validator: accepted commitments fit the channel, are not
  revoked and do not advance a channel that is closing; a retry repeats the same commitment; a
  revocation is backed by the point recorded for that commitment.
\<close>

locale commitment_validator =
  fixes L :: lib and V :: validator
  assumes holder_fits: "v_validate_holder_commitment_tx V es n pt setup cs info = Ok u \<Longrightarrow>
      output_total info \<le> unat (channel_value_sat setup)"
    and counterparty_fits: "v_validate_counterparty_commitment_tx V es n pt setup cs info = Ok u \<Longrightarrow>
      output_total info \<le> unat (channel_value_sat setup)"
    and holder_not_revoked: "v_validate_holder_commitment_tx V es n pt setup cs info = Ok u \<Longrightarrow>
      next_holder_commit_num es < n + 2"
    and holder_not_closing: "v_validate_holder_commitment_tx V es n pt setup cs info = Ok u \<Longrightarrow>
      channel_closed es \<Longrightarrow> n \<noteq> next_holder_commit_num es"
    and holder_retry_same: "v_validate_holder_commitment_tx V es n pt setup cs info = Ok u \<Longrightarrow>
      n + 1 = next_holder_commit_num es \<Longrightarrow> current_holder_commit_info es = Some info"
    and counterparty_retry_same: "v_validate_counterparty_commitment_tx V es n pt setup cs info = Ok u \<Longrightarrow>
      n + 1 = next_counterparty_commit_num es \<Longrightarrow>
      current_counterparty_commit_info es = Some info \<and> current_counterparty_point es = Some pt"
    and revocation_backed: "v_validate_counterparty_revocation V es n s = Ok u \<Longrightarrow>
      get_previous_counterparty_point es n = Some (lib_public_key L s)"
    and revocation_num: "v_validate_counterparty_revocation V es n s = Ok u \<Longrightarrow>
      n = next_counterparty_revoke_num es \<or> n + 1 = next_counterparty_revoke_num es"
    and tags_enforced: "enforced (v_filter V) t"

lemma simple_validator_contract:
  assumes "all_enforced (pol_filter P)"
  shows "commitment_validator L (simple_validator L P)"
proof
  fix es n pt su cs info u s t
  show "output_total info \<le> unat (channel_value_sat su)"
    if "v_validate_holder_commitment_tx (simple_validator L P) es n pt su cs info = Ok u"
    using that by (auto simp: simple_validator_def validate_holder_commitment_tx_def bindo_Ok_iff
        map_err_Ok_iff intro: validate_commitment_tx_fits)
  show "output_total info \<le> unat (channel_value_sat su)"
    if "v_validate_counterparty_commitment_tx (simple_validator L P) es n pt su cs info = Ok u"
    using that by (auto simp: simple_validator_def validate_counterparty_commitment_tx_def bindo_Ok_iff
        map_err_Ok_iff intro: validate_commitment_tx_fits)
  show "next_holder_commit_num es < n + 2"
    if "v_validate_holder_commitment_tx (simple_validator L P) es n pt su cs info = Ok u"
    using that assms by (auto simp: simple_validator_def validate_holder_commitment_tx_def bindo_Ok_iff
        policy_simps not_le)
  show "n \<noteq> next_holder_commit_num es"
    if "v_validate_holder_commitment_tx (simple_validator L P) es n pt su cs info = Ok u" "channel_closed es"
    using that assms by (auto simp: simple_validator_def validate_holder_commitment_tx_def bindo_Ok_iff
        policy_simps)
  show "current_holder_commit_info es = Some info"
    if "v_validate_holder_commitment_tx (simple_validator L P) es n pt su cs info = Ok u"
      "n + 1 = next_holder_commit_num es"
    using that assms by (auto simp: simple_validator_def validate_holder_commitment_tx_def bindo_Ok_iff
        policy_simps guarded_iff unwrap_iff)
  show "current_counterparty_commit_info es = Some info \<and> current_counterparty_point es = Some pt"
    if "v_validate_counterparty_commitment_tx (simple_validator L P) es n pt su cs info = Ok u"
      "n + 1 = next_counterparty_commit_num es"
    using that assms by (auto simp: simple_validator_def validate_counterparty_commitment_tx_def bindo_Ok_iff
        policy_simps guarded_iff get_previous_counterparty_commit_info_def split: option.splits)
  show "get_previous_counterparty_point es n = Some (lib_public_key L s)"
    if "v_validate_counterparty_revocation (simple_validator L P) es n s = Ok u"
    using that assms by (auto simp: simple_validator_def sv_validate_counterparty_revocation_def bindo_Ok_iff
        policy_simps split: option.splits)
  show "n = next_counterparty_revoke_num es \<or> n + 1 = next_counterparty_revoke_num es"
    if "v_validate_counterparty_revocation (simple_validator L P) es n s = Ok u"
    using that assms by (auto simp: simple_validator_def sv_validate_counterparty_revocation_def bindo_Ok_iff
        policy_simps)
  show "enforced (v_filter (simple_validator L P)) t"
    using assms by (simp add: simple_validator_def)
qed

lemma onchain_validator_contract:
  assumes V: "commitment_validator L V" and f: "all_enforced (onchain_filter OP)"
  shows "commitment_validator L (onchain_validator OP V)"
proof
  fix es n pt su cs info u s t
  have inner: "v_validate_holder_commitment_tx V es n pt su cs info = Ok u"
    if "v_validate_holder_commitment_tx (onchain_validator OP V) es n pt su cs info = Ok u"
    using that by (auto simp: onchain_validator_def ov_validate_holder_commitment_tx_def bindo_Ok_iff)
  have inner_cp: "v_validate_counterparty_commitment_tx V es n pt su cs info = Ok u"
    if "v_validate_counterparty_commitment_tx (onchain_validator OP V) es n pt su cs info = Ok u"
    using that by (auto simp: onchain_validator_def ov_validate_counterparty_commitment_tx_def bindo_Ok_iff)
  show "output_total info \<le> unat (channel_value_sat su)"
    if "v_validate_holder_commitment_tx (onchain_validator OP V) es n pt su cs info = Ok u"
    by (rule commitment_validator.holder_fits [OF V inner [OF that]])
  show "output_total info \<le> unat (channel_value_sat su)"
    if "v_validate_counterparty_commitment_tx (onchain_validator OP V) es n pt su cs info = Ok u"
    by (rule commitment_validator.counterparty_fits [OF V inner_cp [OF that]])
  show "next_holder_commit_num es < n + 2"
    if "v_validate_holder_commitment_tx (onchain_validator OP V) es n pt su cs info = Ok u"
    by (rule commitment_validator.holder_not_revoked [OF V inner [OF that]])
  show "n \<noteq> next_holder_commit_num es"
    if "v_validate_holder_commitment_tx (onchain_validator OP V) es n pt su cs info = Ok u" "channel_closed es"
    by (rule commitment_validator.holder_not_closing [OF V inner [OF that(1)] that(2)])
  show "current_holder_commit_info es = Some info"
    if "v_validate_holder_commitment_tx (onchain_validator OP V) es n pt su cs info = Ok u"
      "n + 1 = next_holder_commit_num es"
    by (rule commitment_validator.holder_retry_same [OF V inner [OF that(1)] that(2)])
  show "current_counterparty_commit_info es = Some info \<and> current_counterparty_point es = Some pt"
    if "v_validate_counterparty_commitment_tx (onchain_validator OP V) es n pt su cs info = Ok u"
      "n + 1 = next_counterparty_commit_num es"
    by (rule commitment_validator.counterparty_retry_same [OF V inner_cp [OF that(1)] that(2)])
  show "get_previous_counterparty_point es n = Some (lib_public_key L s)"
    if "v_validate_counterparty_revocation (onchain_validator OP V) es n s = Ok u"
    using that commitment_validator.revocation_backed [OF V] by (simp add: onchain_validator_def)
  show "n = next_counterparty_revoke_num es \<or> n + 1 = next_counterparty_revoke_num es"
    if "v_validate_counterparty_revocation (onchain_validator OP V) es n s = Ok u"
    using that commitment_validator.revocation_num [OF V] by (simp add: onchain_validator_def)
  show "enforced (v_filter (onchain_validator OP V)) t"
    using f by (simp add: onchain_validator_def)
qed

lemma default_policy_enforced: "all_enforced (pol_filter (make_simple_policy net))"
  by (simp add: all_enforced_def make_simple_policy_def default_filter_def)

interpretation sv: commitment_validator L "simple_validator L (make_simple_policy net)" for L net
  by (rule simple_validator_contract [OF default_policy_enforced])

interpretation ov: commitment_validator L "make_onchain_validator L None net" for L net
  unfolding make_onchain_validator_def
  by (rule onchain_validator_contract)
    (auto intro: simple_validator_contract [OF default_policy_enforced]
      simp: make_onchain_policy_def all_enforced_def default_filter_def)

section \<open>Funding confirmation\<close>

text \<open>
  C12: The on-chain validator signs no further counterparty commitment of a channel whose funding
  is not confirmed or that is closed on chain: for a commitment number above zero, acceptance
  implies at least one confirmation of the funding and no confirmation of a closing transaction,
  and that the wrapped validator accepts too.
\<close>

theorem onchain_counterparty_commitment_buried:
  assumes "v_validate_counterparty_commitment_tx (make_onchain_validator L (Some P) net) es n pt su cs info = Ok ()"
    and "all_enforced (pol_filter P)" and "n > 0"
  shows "funding_depth cs > 0 \<and> closing_depth cs = 0 \<and>
         validate_counterparty_commitment_tx L P es n pt su cs info = Ok ()"
  using assms
  by (auto simp: make_onchain_validator_def onchain_validator_def ov_validate_counterparty_commitment_tx_def
      ensure_funding_buried_and_unspent_def bindo_Ok_iff policy_simps guarded_iff simple_validator_def
      make_onchain_policy_def not_less word_gt_0)

theorem onchain_counterparty_commitment_buried_witness:
  "funding_depth example_cstate > 0 \<and> closing_depth example_cstate = 0 \<and>
   validate_counterparty_commitment_tx example_lib example_policy
     ((enforcement_state_new 0)\<lparr>next_counterparty_revoke_num := 1\<rparr>) 1 [] example_setup example_cstate example_info
     = Ok ()"
proof (rule onchain_counterparty_commitment_buried)
  have "validate_counterparty_commitment_tx example_lib example_policy
     ((enforcement_state_new 0)\<lparr>next_counterparty_revoke_num := 1\<rparr>) 1 [] example_setup example_cstate example_info
     = Ok ()"
    by (simp add: validate_counterparty_commitment_tx_def example_commitment_ok)
      (simp add: guarded_def example_info_def commitment_info2_new_def example_setup_def)
  then show "v_validate_counterparty_commitment_tx (make_onchain_validator example_lib (Some example_policy) Testnet)
     ((enforcement_state_new 0)\<lparr>next_counterparty_revoke_num := 1\<rparr>) 1 [] example_setup example_cstate example_info
     = Ok ()"
    by (simp add: make_onchain_validator_def onchain_validator_def ov_validate_counterparty_commitment_tx_def
        ensure_funding_buried_and_unspent_def simple_validator_def make_onchain_policy_def example_cstate_def
        guarded_def)
qed (simp_all add: default_policy_enforced)

text \<open>
  The setting \<^verbatim>\<open>enforce_balance\<close> of the simple policy has no effect behind the on-chain validator,
  which does not delegate that method.
\<close>

lemma onchain_ignores_enforce_balance:
  "v_enforce_balance (simple_validator L P) = enforce_balance P"
  "v_enforce_balance (make_onchain_validator L (Some P) net) = False"
  by (simp_all add: simple_validator_def make_onchain_validator_def onchain_validator_def)

end
