(* ===== verification/Node_State.thy ===== *)
theory Node_State
  imports Onchain_Validator
begin

text \<open>
  The enforcement state of a node, the struct \<^verbatim>\<open>NodeState\<close> of \<^verbatim>\<open>vls-core/src/node.rs\<close>: the
  invoices we pay, the invoices we issued, the in-flight amounts of every payment hash per channel
  (\<^verbatim>\<open>RoutedPayment\<close>), and the excess amount register.  The lemmas show that a validated update can
  be applied, that no invoice is overpaid, and what pruning may remove.  Maps are association
  lists; the iteration order of a \<^verbatim>\<open>HashMap\<close> or \<^verbatim>\<open>HashSet\<close> is the order of the list.
\<close>

section \<open>Payments\<close>

datatype payment_type = PayInvoice | PayKeysend

record payment_state =
  ps_invoice_hash :: bytes
  amount_msat :: u64
  payee :: pubkey
  duration_since_epoch :: duration
  expiry_duration :: duration
  ps_is_fulfilled :: bool
  payment_type :: payment_type

primrec payment_type_string :: "payment_type \<Rightarrow> string" where
  "payment_type_string PayInvoice = ''invoice''"
| "payment_type_string PayKeysend = ''keysend''"

record routed_payment =
  incoming :: "(channel_id, u64) amap"
  outgoing :: "(channel_id, u64) amap"
  preimage :: "bytes option"

definition routed_payment_new :: routed_payment where
  "routed_payment_new = \<lparr>incoming = [], outgoing = [], preimage = None\<rparr>"

definition is_fulfilled :: "routed_payment \<Rightarrow> bool" where
  "is_fulfilled p \<longleftrightarrow> preimage p \<noteq> None"

definition is_no_incoming :: "routed_payment \<Rightarrow> bool" where
  "is_no_incoming p \<longleftrightarrow> sum_u64 (values_of (incoming p)) = 0"

definition is_no_outgoing :: "routed_payment \<Rightarrow> bool" where
  "is_no_outgoing p \<longleftrightarrow> sum_u64 (values_of (outgoing p)) = 0"

definition updated_incoming_outgoing :: "routed_payment \<Rightarrow> channel_id \<Rightarrow> u64 \<Rightarrow> u64 \<Rightarrow> u64 \<times> u64" where
  "updated_incoming_outgoing p cid incoming_amount_sat outgoing_amount_sat =
     (sum_u64 (values_of (AList.update cid incoming_amount_sat (incoming p))),
      sum_u64 (values_of (AList.update cid outgoing_amount_sat (outgoing p))))"

definition incoming_outgoing :: "routed_payment \<Rightarrow> u64 \<times> u64" where
  "incoming_outgoing p = (sum_u64 (values_of (incoming p)), sum_u64 (values_of (outgoing p)))"

definition routed_payment_apply :: "channel_id \<Rightarrow> u64 \<Rightarrow> u64 \<Rightarrow> routed_payment \<Rightarrow> routed_payment" where
  "routed_payment_apply cid incoming_amount_sat outgoing_amount_sat p =
     p\<lparr>incoming := AList.update cid incoming_amount_sat (incoming p),
       outgoing := AList.update cid outgoing_amount_sat (outgoing p)\<rparr>"

section \<open>The state\<close>

record node_state =
  invoices :: "(payment_hash, payment_state) amap"
  issued_invoices :: "(payment_hash, payment_state) amap"
  payments :: "(payment_hash, routed_payment) amap"
  excess_amount :: u64
  log_prefix :: string
  ns_velocity_control :: velocity_control
  ns_fee_velocity_control :: velocity_control
  last_summary :: string

definition has_preimage :: "node_state \<Rightarrow> payment_hash \<Rightarrow> bool" where
  "has_preimage st h = (case map_of (payments st) h of None \<Rightarrow> False | Some p \<Rightarrow> preimage p \<noteq> None)"

definition node_state_new :: "velocity_control \<Rightarrow> velocity_control \<Rightarrow> node_state" where
  "node_state_new vc fee_vc =
     \<lparr>invoices = [], issued_invoices = [], payments = [], excess_amount = 0, log_prefix = '''',
      ns_velocity_control = vc, ns_fee_velocity_control = fee_vc, last_summary = ''''\<rparr>"

text \<open>\<^verbatim>\<open>collect\<close> into a map: a later entry with the same key replaces an earlier one.\<close>

definition collect_map :: "('k \<times> 'v) list \<Rightarrow> ('k, 'v) amap" where
  "collect_map xs = foldl (\<lambda>m (k, v). AList.update k v m) [] xs"

definition payment_hash_decode :: "bytes \<times> payment_state \<Rightarrow> ('e, payment_hash \<times> payment_state) outcome" where
  "payment_hash_decode kv = bindo (asserts (length (fst kv) = 32)) (\<lambda>_. Ok kv)"

definition node_state_restore ::
    "lib \<Rightarrow> (bytes \<times> payment_state) list \<Rightarrow> (bytes \<times> payment_state) list \<Rightarrow> bytes list \<Rightarrow> u64 \<Rightarrow>
     velocity_control \<Rightarrow> velocity_control \<Rightarrow> ('e, node_state) outcome" where
  "node_state_restore L invoices_v issued_invoices_v preimages excess vc fee_vc =
     bindo (foldo (\<lambda>kv acc. bindo (payment_hash_decode kv) (\<lambda>d. Ok (acc @ [d]))) invoices_v []) (\<lambda>inv.
     bindo (foldo (\<lambda>kv acc. bindo (payment_hash_decode kv) (\<lambda>d. Ok (acc @ [d]))) issued_invoices_v []) (\<lambda>iss.
     Ok \<lparr>invoices = collect_map inv, issued_invoices = collect_map iss,
         payments = collect_map (map (\<lambda>p. (lib_sha256 L p, routed_payment_new\<lparr>preimage := Some p\<rparr>)) preimages),
         excess_amount = excess, log_prefix = '''', ns_velocity_control = vc,
         ns_fee_velocity_control = fee_vc, last_summary = ''''\<rparr>))"

definition with_log_prefix :: "velocity_control \<Rightarrow> velocity_control \<Rightarrow> string \<Rightarrow> node_state \<Rightarrow> node_state" where
  "with_log_prefix vc fee_vc pre st =
     st\<lparr>log_prefix := pre, ns_velocity_control := vc, ns_fee_velocity_control := fee_vc,
        last_summary := ''''\<rparr>"

definition summary :: "node_state \<Rightarrow> (string \<times> bool) \<times> node_state" where
  "summary st =
     (let s = ''NodeState::summary '' @ log_prefix st @ '': '' @ show_nat (length (invoices st)) @
              '' invoices, '' @ show_nat (length (issued_invoices st)) @ '' issued_invoices, '' @
              show_nat (length (payments st)) @ '' payments, excess_amount '' @ show_nat (unat (excess_amount st))
      in if last_summary st \<noteq> s then ((s, True), st\<lparr>last_summary := s\<rparr>) else ((s, False), st))"

section \<open>Validating and applying payments\<close>

text \<open>\<^verbatim>\<open>BalanceDelta(old, new)\<close> is a pair of balances in satoshi.\<close>

type_synonym balance_delta = "u64 \<times> u64"

definition summary_hashes :: "summary \<Rightarrow> summary \<Rightarrow> payment_hash list" where
  "summary_hashes incoming_summary outgoing_summary =
     remdups (keys_of incoming_summary @ keys_of outgoing_summary)"

definition is_unbalanced ::
    "node_state \<Rightarrow> channel_id \<Rightarrow> summary \<Rightarrow> summary \<Rightarrow> validator \<Rightarrow> payment_hash \<Rightarrow> (validation_error, bool) outcome" where
  "is_unbalanced st cid incoming_summary outgoing_summary V hash =
     (let incoming_for_chan_sat = get_or 0 incoming_summary hash;
          outgoing_for_chan_sat = get_or 0 outgoing_summary hash;
          payment = map_of (payments st) hash;
          (incoming_sat, outgoing_sat) =
            (case payment of
               Some p \<Rightarrow> updated_incoming_outgoing p cid incoming_for_chan_sat outgoing_for_chan_sat
             | None \<Rightarrow> (incoming_for_chan_sat, outgoing_for_chan_sat));
          invoiced_amount = map_option amount_msat (map_of (invoices st) hash)
      in case v_validate_payment_balance V (incoming_sat * 1000) (outgoing_sat * 1000) invoiced_amount of
           Ok _ \<Rightarrow> Ok False
         | Err _ \<Rightarrow> Ok (\<not> (payment \<noteq> None \<and> invoiced_amount = None))
         | Panic \<Rightarrow> Panic)"

definition unbalanced_payments ::
    "node_state \<Rightarrow> channel_id \<Rightarrow> summary \<Rightarrow> summary \<Rightarrow> validator \<Rightarrow> (validation_error, payment_hash list) outcome" where
  "unbalanced_payments st cid incoming_summary outgoing_summary V =
     foldo (\<lambda>hash unbalanced.
              bindo (is_unbalanced st cid incoming_summary outgoing_summary V hash) (\<lambda>b.
              Ok (if b then unbalanced @ [hash] else unbalanced)))
       (summary_hashes incoming_summary outgoing_summary) []"

definition adjust_excess :: "node_state \<Rightarrow> balance_delta \<Rightarrow> ('e, u64 option) outcome" where
  "adjust_excess st delta =
     bindo (unwrap (checked_add (excess_amount st) (snd delta))) (\<lambda>s. Ok (checked_sub s (fst delta)))"

definition validate_payments ::
    "channel_id \<Rightarrow> summary \<Rightarrow> summary \<Rightarrow> balance_delta \<Rightarrow> validator \<Rightarrow> node_state \<Rightarrow> (validation_error, unit) outcome" where
  "validate_payments cid incoming_summary outgoing_summary delta V st =
     bindo (unbalanced_payments st cid incoming_summary outgoing_summary V) (\<lambda>unbalanced.
     bindo (guarded (unbalanced \<noteq> [])
              (policy_error_with_filter ''policy-commitment-htlc-routing-balance''
                 ''unbalanced payments on channel {}: {:?}'' (v_filter V))) (\<lambda>_.
     guarded (v_enforce_balance V)
       (bindo (adjust_excess st delta) (\<lambda>r.
        bindo (ok_or (Policy ''shortfall {} + {} - {}'') r) (\<lambda>_. Ok ())))))"

definition note_payment ::
    "node_state \<Rightarrow> channel_id \<Rightarrow> summary \<Rightarrow> summary \<Rightarrow> payment_hash \<Rightarrow>
     (payment_hash, routed_payment) amap \<times> payment_hash list \<Rightarrow>
     (payment_hash, routed_payment) amap \<times> payment_hash list" where
  "note_payment st cid incoming_summary outgoing_summary hash acc =
     (let (pays, fulfilled_issued_invoices) = acc;
          pays = or_insert hash routed_payment_new pays;
          payment = get_or routed_payment_new pays hash
      in case map_of (issued_invoices st) hash of
           None \<Rightarrow> (pays, fulfilled_issued_invoices)
         | Some issued \<Rightarrow>
             if \<not> is_fulfilled payment then
               (let (incoming_sat, outgoing_sat) = updated_incoming_outgoing payment cid
                      (get_or 0 incoming_summary hash) (get_or 0 outgoing_summary hash)
                in if incoming_sat \<ge> outgoing_sat + amount_msat issued div 1000
                   then (pays, fulfilled_issued_invoices @ [hash])
                   else (pays, fulfilled_issued_invoices))
             else (pays, fulfilled_issued_invoices))"

definition modify_payment ::
    "(routed_payment \<Rightarrow> routed_payment) \<Rightarrow> payment_hash \<Rightarrow> (payment_hash, routed_payment) amap \<Rightarrow>
     ('e, (payment_hash, routed_payment) amap) outcome" where
  "modify_payment f hash pays =
     bindo (unwrap (map_of pays hash)) (\<lambda>p. Ok (AList.update hash (f p) pays))"

definition apply_payments ::
    "channel_id \<Rightarrow> summary \<Rightarrow> summary \<Rightarrow> balance_delta \<Rightarrow> validator \<Rightarrow> node_state \<Rightarrow> ('e, node_state) outcome" where
  "apply_payments cid incoming_summary outgoing_summary delta V st =
     (let hashes = summary_hashes incoming_summary outgoing_summary;
          (pays, fulfilled_issued_invoices) =
            foldl (\<lambda>acc h. note_payment st cid incoming_summary outgoing_summary h acc) (payments st, []) hashes
      in
      bindo (if v_enforce_balance V then
               bindo (adjust_excess st delta) (\<lambda>r.
               bindo (unwrap r) (\<lambda>excess.
               bindo (foldo (modify_payment (\<lambda>p. p\<lparr>preimage := Some (replicate 32 0)\<rparr>))
                        fulfilled_issued_invoices pays) (\<lambda>pays.
               Ok (excess, pays))))
             else Ok (excess_amount st, pays)) (\<lambda>(excess, pays).
      bindo (foldo (\<lambda>h. modify_payment
                      (routed_payment_apply cid (get_or 0 incoming_summary h) (get_or 0 outgoing_summary h)) h)
               hashes pays) (\<lambda>pays.
      Ok (st\<lparr>payments := pays, excess_amount := excess\<rparr>))))"

definition htlc_fulfilled :: "lib \<Rightarrow> bytes \<Rightarrow> validator \<Rightarrow> node_state \<Rightarrow> ('e, bool \<times> node_state) outcome" where
  "htlc_fulfilled L pre V st =
     (let hash = lib_sha256 L pre in
      case map_of (payments st) hash of
        None \<Rightarrow> Ok (False, st)
      | Some payment \<Rightarrow>
          if preimage payment \<noteq> None then Ok (False, st)
          else
            let (incoming_sat, outgoing_sat) = incoming_outgoing payment in
            bindo (if map_of (invoices st) hash = None \<and> v_enforce_balance V then
                     bindo (unwrap (checked_add (excess_amount st) incoming_sat)) (\<lambda>e.
                     unwrap (checked_sub e outgoing_sat))
                   else Ok (excess_amount st)) (\<lambda>excess.
            Ok (True, st\<lparr>excess_amount := excess,
                         payments := AList.update hash (payment\<lparr>preimage := Some pre\<rparr>) (payments st)\<rparr>)))"

section \<open>Pruning\<close>

definition INVOICE_PRUNE_TIME :: duration where
  "INVOICE_PRUNE_TIME = from_secs (60 * 60 * 24)"

definition KEYSEND_PRUNE_TIME :: duration where
  "KEYSEND_PRUNE_TIME = from_secs 0"

definition prune_time :: "bool \<Rightarrow> payment_state \<Rightarrow> duration" where
  "prune_time timeless ps =
     (case payment_type ps of PayInvoice \<Rightarrow> INVOICE_PRUNE_TIME | PayKeysend \<Rightarrow> KEYSEND_PRUNE_TIME) +
     (if timeless then from_secs (2 * 60 * 60) else 0)"

text \<open>The end of life of an invoice; the additions of \<^verbatim>\<open>Duration\<close> panic on overflow.\<close>

definition prune_at :: "bool \<Rightarrow> payment_state \<Rightarrow> ('e, duration) outcome" where
  "prune_at timeless ps =
     bindo (dur_add (duration_since_epoch ps) (expiry_duration ps)) (\<lambda>d. dur_add d (prune_time timeless ps))"

text \<open>\<^verbatim>\<open>retain\<close> with a predicate that may panic.\<close>

definition retain :: "('k \<Rightarrow> 'v \<Rightarrow> ('e, bool) outcome) \<Rightarrow> ('k, 'v) amap \<Rightarrow> ('e, ('k, 'v) amap) outcome" where
  "retain keep m =
     foldo (\<lambda>(k, v) acc. bindo (keep k v) (\<lambda>b. Ok (if b then acc @ [(k, v)] else acc))) m []"

definition prune_issued_invoices :: "bool \<Rightarrow> duration \<Rightarrow> node_state \<Rightarrow> ('e, bool \<times> node_state) outcome" where
  "prune_issued_invoices timeless now st =
     bindo (retain (\<lambda>_ issued. bindo (prune_at timeless issued) (\<lambda>d. Ok (d > now))) (issued_invoices st)) (\<lambda>kept.
     Ok (length kept < length (issued_invoices st), st\<lparr>issued_invoices := kept\<rparr>))"

definition is_invoice_prunable ::
    "bool \<Rightarrow> duration \<Rightarrow> payment_state \<Rightarrow> routed_payment \<Rightarrow> ('e, bool) outcome" where
  "is_invoice_prunable timeless now state payment =
     (let is_payment_complete = is_fulfilled payment \<or> is_no_outgoing payment in
      bindo (prune_at timeless state) (\<lambda>d. Ok (now > d \<and> is_payment_complete)))"

definition prune_invoices :: "bool \<Rightarrow> duration \<Rightarrow> node_state \<Rightarrow> ('e, bool \<times> node_state) outcome" where
  "prune_invoices timeless now st =
     bindo (foldo (\<lambda>(hash, state) prune.
              bindo (unwrap (map_of (payments st) hash)) (\<lambda>p.
              bindo (is_invoice_prunable timeless now state p) (\<lambda>b.
              Ok (if b then prune @ [hash] else prune)))) (invoices st) []) (\<lambda>prune.
     let invs = filter (\<lambda>(h, _). h \<notin> set prune) (invoices st);
         pays = filter (\<lambda>(h, _). h \<notin> set prune) (payments st)
     in Ok (length invs < length (invoices st) \<or> length pays < length (payments st),
            st\<lparr>invoices := invs, payments := pays\<rparr>))"

definition is_forwarded_payment_prunable ::
    "payment_hash \<Rightarrow> (payment_hash, payment_state) amap \<Rightarrow> (payment_hash, payment_state) amap \<Rightarrow> routed_payment \<Rightarrow> bool" where
  "is_forwarded_payment_prunable hash invs issued payment \<longleftrightarrow>
     map_of invs hash = None \<and> map_of issued hash = None \<and> is_no_incoming payment \<and> is_no_outgoing payment"

definition prune_forwarded_payments :: "node_state \<Rightarrow> bool \<times> node_state" where
  "prune_forwarded_payments st =
     (let pays = filter (\<lambda>(hash, payment).
            \<not> is_forwarded_payment_prunable hash (invoices st) (issued_invoices st) payment) (payments st)
      in (length pays < length (payments st), st\<lparr>payments := pays\<rparr>))"

section \<open>Applying a validated update\<close>

lemma distinct_summary_hashes [simp]: "distinct (summary_hashes i out)"
  by (simp add: summary_hashes_def)

lemma set_summary_hashes: "set (summary_hashes i out) = dom (map_of i) \<union> dom (map_of out)"
  by (simp add: summary_hashes_def keys_of_dom)

lemma note_payment_fst:
  "map_of (fst (note_payment st cid i out h acc)) k =
     (if k = h \<and> map_of (fst acc) k = None then Some routed_payment_new else map_of (fst acc) k)"
  by (auto simp: note_payment_def Let_def amap_simps dom_def split: option.splits prod.splits if_splits)

lemma note_payment_snd:
  "snd (note_payment st cid i out h acc) = snd acc \<or> snd (note_payment st cid i out h acc) = snd acc @ [h]"
  by (auto simp: note_payment_def Let_def split: option.splits prod.splits)

lemma note_payments_fold:
  fixes f :: "payment_hash \<Rightarrow> (payment_hash, routed_payment) amap \<times> payment_hash list \<Rightarrow>
      (payment_hash, routed_payment) amap \<times> payment_hash list"
  assumes f: "f = note_payment st cid i out" and "distinct hs"
  shows "map_of (fst (foldl (\<lambda>acc h. f h acc) (m, []) hs)) k =
           (if k \<in> set hs \<and> map_of m k = None then Some routed_payment_new else map_of m k) \<and>
         set (snd (foldl (\<lambda>acc h. f h acc) (m, []) hs)) \<subseteq> set hs \<and>
         distinct (snd (foldl (\<lambda>acc h. f h acc) (m, []) hs))"
  using \<open>distinct hs\<close>
proof (induction hs arbitrary: k rule: rev_induct)
  case (snoc h hs)
  let ?acc = "foldl (\<lambda>acc h. f h acc) (m, []) hs"
  have ih: "map_of (fst ?acc) k = (if k \<in> set hs \<and> map_of m k = None then Some routed_payment_new else map_of m k)"
    "set (snd ?acc) \<subseteq> set hs" "distinct (snd ?acc)" for k
    using snoc by auto
  have "snd (f h ?acc) = snd ?acc \<or> snd (f h ?acc) = snd ?acc @ [h]"
    unfolding f by (rule note_payment_snd)
  with ih(2,3) snoc.prems have "set (snd (f h ?acc)) \<subseteq> set (hs @ [h]) \<and> distinct (snd (f h ?acc))"
    by auto
  moreover have "map_of (fst (f h ?acc)) k =
      (if k \<in> set (hs @ [h]) \<and> map_of m k = None then Some routed_payment_new else map_of m k)"
    unfolding f note_payment_fst ih(1) [unfolded f] by auto
  ultimately show ?case by simp
qed simp

lemma modify_payments_fold:
  assumes "distinct hs" and "set hs \<subseteq> dom (map_of m)"
  shows "\<exists>m'. foldo (\<lambda>h. modify_payment (f h) h) hs m = (Ok m' :: ('e, _) outcome) \<and>
           (\<forall>k. map_of m' k = (if k \<in> set hs then map_option (f k) (map_of m k) else map_of m k))"
  using assms
proof (induction hs arbitrary: m)
  case (Cons h hs)
  then obtain p where p: "map_of m h = Some p" by auto
  let ?m = "AList.update h (f h p) m"
  have "set hs \<subseteq> dom (map_of ?m)" using Cons.prems by (auto simp: amap_simps)
  with Cons.IH [of ?m] Cons.prems(1) obtain m' where
    "foldo (\<lambda>h. modify_payment (f h) h) hs ?m = (Ok m' :: ('e, _) outcome)"
    "\<forall>k. map_of m' k = (if k \<in> set hs then map_option (f k) (map_of ?m k) else map_of ?m k)"
    by auto
  moreover have "modify_payment (f h) h m = (Ok ?m :: ('e, _) outcome)"
    using p by (simp add: modify_payment_def unwrap_def)
  ultimately show ?case
    using p Cons.prems(1) by (auto simp: amap_simps)
qed simp

text \<open>The entry that an update of channel \<open>cid\<close> makes of the payment \<open>p\<close>.\<close>

definition payment_updated :: "channel_id \<Rightarrow> u64 \<Rightarrow> u64 \<Rightarrow> routed_payment \<Rightarrow> routed_payment \<Rightarrow> bool" where
  "payment_updated cid i out p q \<longleftrightarrow>
     incoming q = AList.update cid i (incoming p) \<and> outgoing q = AList.update cid out (outgoing p) \<and>
     (preimage p \<noteq> None \<longrightarrow> preimage q \<noteq> None)"

lemma set_preimages_fold:
  assumes "distinct hs" and "set hs \<subseteq> dom (map_of m)"
  shows "\<exists>m'. foldo (modify_payment (\<lambda>p. p\<lparr>preimage := Some d\<rparr>)) hs m = (Ok m' :: ('e, _) outcome) \<and>
           dom (map_of m') = dom (map_of m) \<and>
           (\<forall>k p. map_of m k = Some p \<longrightarrow> (\<exists>q. map_of m' k = Some q \<and> (k \<notin> set hs \<longrightarrow> q = p) \<and>
              incoming q = incoming p \<and> outgoing q = outgoing p \<and> (preimage p \<noteq> None \<longrightarrow> preimage q \<noteq> None)))"
proof -
  obtain m' where m': "foldo (modify_payment (\<lambda>p. p\<lparr>preimage := Some d\<rparr>)) hs m = (Ok m' :: ('e, _) outcome)"
    "\<forall>k. map_of m' k = (if k \<in> set hs then map_option (\<lambda>p. p\<lparr>preimage := Some d\<rparr>) (map_of m k) else map_of m k)"
    using modify_payments_fold [OF assms, where f = "\<lambda>_ p. p\<lparr>preimage := Some d\<rparr>" and ?'e = 'e] by auto
  have "dom (map_of m') = dom (map_of m)" using m'(2) by (auto simp: dom_def split: if_splits)
  with m' show ?thesis by auto
qed

lemma apply_payments_spec:
  assumes "v_enforce_balance V \<Longrightarrow> adjust_excess st delta = (Ok (Some e) :: ('e, u64 option) outcome)"
  shows "\<exists>pays. apply_payments cid i out delta V st =
            (Ok (st\<lparr>payments := pays, excess_amount := if v_enforce_balance V then e else excess_amount st\<rparr>)
               :: ('e, node_state) outcome) \<and>
          (\<forall>h. if h \<in> set (summary_hashes i out)
               then \<exists>q. map_of pays h = Some q \<and>
                      payment_updated cid (get_or 0 i h) (get_or 0 out h) (get_or routed_payment_new (payments st) h) q
               else map_of pays h = map_of (payments st) h)"
proof -
  let ?hs = "summary_hashes i out"
  let ?d = "replicate 32 (0 :: u8)"
  let ?f = "\<lambda>h. routed_payment_apply cid (get_or 0 i h) (get_or 0 out h)"
  obtain m1 ful where mf: "foldl (\<lambda>acc h. note_payment st cid i out h acc) (payments st, []) ?hs = (m1, ful)"
    by (cases "foldl (\<lambda>acc h. note_payment st cid i out h acc) (payments st, []) ?hs") auto
  have m1: "map_of m1 k = (if k \<in> set ?hs \<and> map_of (payments st) k = None then Some routed_payment_new
        else map_of (payments st) k)" and ful: "set ful \<subseteq> set ?hs" "distinct ful" for k
    using note_payments_fold [OF refl distinct_summary_hashes, of st cid i out "payments st" i out k] mf by auto
  have d1: "set ?hs \<subseteq> dom (map_of m1)" by (auto simp: m1 dom_def)
  define m2 :: "('e, _) outcome" where
    "m2 = (if v_enforce_balance V then foldo (modify_payment (\<lambda>p. p\<lparr>preimage := Some ?d\<rparr>)) ful m1 else Ok m1)"
  have "\<exists>m. m2 = Ok m \<and> dom (map_of m) = dom (map_of m1) \<and>
           (\<forall>k p. map_of m1 k = Some p \<longrightarrow> (\<exists>q. map_of m k = Some q \<and> (k \<notin> set ful \<longrightarrow> q = p) \<and>
              incoming q = incoming p \<and> outgoing q = outgoing p \<and> (preimage p \<noteq> None \<longrightarrow> preimage q \<noteq> None)))"
    using set_preimages_fold [OF ful(2), of m1 ?d, where ?'e = 'e] ful(1) d1 by (auto simp: m2_def)
  then obtain m where m: "m2 = Ok m" "dom (map_of m) = dom (map_of m1)"
      "\<And>k p. map_of m1 k = Some p \<Longrightarrow> \<exists>q. map_of m k = Some q \<and> (k \<notin> set ful \<longrightarrow> q = p) \<and>
          incoming q = incoming p \<and> outgoing q = outgoing p \<and> (preimage p \<noteq> None \<longrightarrow> preimage q \<noteq> None)"
    by blast
  obtain m3 where m3: "foldo (\<lambda>h. modify_payment (?f h) h) ?hs m = (Ok m3 :: ('e, _) outcome)"
      "\<And>k. map_of m3 k = (if k \<in> set ?hs then map_option (?f k) (map_of m k) else map_of m k)"
    using modify_payments_fold [of ?hs m ?f, where ?'e = 'e] d1 m(2) by auto
  have "apply_payments cid i out delta V st =
      (Ok (st\<lparr>payments := m3, excess_amount := if v_enforce_balance V then e else excess_amount st\<rparr>) :: ('e, _) outcome)"
    using assms m(1) m3(1) by (auto simp: apply_payments_def mf m2_def unwrap_def split: if_splits)
  moreover have "if h \<in> set ?hs
       then \<exists>q. map_of m3 h = Some q \<and>
              payment_updated cid (get_or 0 i h) (get_or 0 out h) (get_or routed_payment_new (payments st) h) q
       else map_of m3 h = map_of (payments st) h" for h
  proof (cases "h \<in> set ?hs")
    case True
    then have "map_of m1 h = Some (get_or routed_payment_new (payments st) h)"
      by (auto simp: m1 get_or_def split: option.splits)
    from m(3) [OF this] True show ?thesis
      by (auto simp: m3(2) payment_updated_def routed_payment_apply_def)
  next
    case False
    with ful(1) have "h \<notin> set ful" by auto
    have "map_of m h = map_of m1 h"
    proof (cases "map_of m1 h")
      case None
      with m(2) have "h \<notin> dom (map_of m)" by auto
      with None show ?thesis by (simp add: domIff)
    next
      case (Some a)
      from m(3) [OF Some] \<open>h \<notin> set ful\<close> Some show ?thesis by auto
    qed
    with False show ?thesis by (simp add: m1 m3(2))
  qed
  ultimately show ?thesis by blast
qed

lemma checked_sub_iff_unat: "checked_sub s d = Some e \<longleftrightarrow> unat e + unat d = unat s"
proof
  assume h: "unat e + unat d = unat s"
  then have "d \<le> s" by (simp add: word_le_nat_alt)
  moreover have "unat (s - d) = unat e" using h \<open>d \<le> s\<close> by (simp add: unat_sub)
  ultimately show "checked_sub s d = Some e" by (simp add: checked_sub_Some_iff word_unat_eq_iff)
qed (use checked_sub_unat in force)

lemma adjust_excess_Ok:
  "adjust_excess st delta = (Ok (Some e) :: ('e, u64 option) outcome) \<longleftrightarrow>
     unat (excess_amount st) + unat (snd delta) < 2 ^ 64 \<and>
     unat e + unat (fst delta) = unat (excess_amount st) + unat (snd delta)"
proof -
  have "unat (excess_amount st + snd delta) = unat (excess_amount st) + unat (snd delta)"
    if "unat (excess_amount st) + unat (snd delta) < 2 ^ 64"
    using that by (simp add: unat_word_ariths)
  then show ?thesis
    by (cases "unat (excess_amount st) + unat (snd delta) < 2 ^ 64")
      (simp_all add: adjust_excess_def bindo_Ok_iff unwrap_iff checked_add_Some_iff checked_sub_iff_unat)
qed

lemma validate_payments_Ok:
  assumes "validate_payments cid i out delta V st = Ok ()"
  shows "\<exists>unb. unbalanced_payments st cid i out V = Ok unb \<and>
          (unb = [] \<or> \<not> enforced (v_filter V) ''policy-commitment-htlc-routing-balance'')"
    and "v_enforce_balance V \<Longrightarrow> \<exists>e. adjust_excess st delta = (Ok (Some e) :: ('e, _) outcome)"
  using assms
  by (auto simp: validate_payments_def outcome_simps policy_simps adjust_excess_def)

text \<open>
  C0: A validated update can be applied.  When \<^verbatim>\<open>validate_payments\<close> accepts, \<^verbatim>\<open>apply_payments\<close> with
  the same arguments does not panic; with balance enforcement the excess register moves by exactly
  the change of the channel balance (never below zero), without it the register stays; every
  payment hash named by the update gets the amounts of this channel replaced, and no other
  payment, invoice or velocity control changes.
\<close>

theorem validated_payments_apply:
  assumes "validate_payments cid i out delta V st = Ok ()"
  shows "\<exists>st'. apply_payments cid i out delta V st = (Ok st' :: ('e, node_state) outcome) \<and>
          (if v_enforce_balance V
           then unat (excess_amount st') + unat (fst delta) = unat (excess_amount st) + unat (snd delta)
           else excess_amount st' = excess_amount st) \<and>
          st' = st\<lparr>payments := payments st', excess_amount := excess_amount st'\<rparr> \<and>
          (\<forall>h. if h \<in> set (summary_hashes i out)
               then \<exists>q. map_of (payments st') h = Some q \<and>
                      payment_updated cid (get_or 0 i h) (get_or 0 out h) (get_or routed_payment_new (payments st) h) q
               else map_of (payments st') h = map_of (payments st) h)"
proof -
  obtain e where e: "v_enforce_balance V \<Longrightarrow> adjust_excess st delta = (Ok (Some e) :: ('e, u64 option) outcome)"
    using validate_payments_Ok(2) [OF assms, where ?'e = 'e] by blast
  obtain pays where pays: "apply_payments cid i out delta V st =
      (Ok (st\<lparr>payments := pays, excess_amount := if v_enforce_balance V then e else excess_amount st\<rparr>) :: ('e, _) outcome)"
    "\<forall>h. if h \<in> set (summary_hashes i out)
        then \<exists>q. map_of pays h = Some q \<and>
               payment_updated cid (get_or 0 i h) (get_or 0 out h) (get_or routed_payment_new (payments st) h) q
        else map_of pays h = map_of (payments st) h"
    using apply_payments_spec [OF e] by blast
  have "unat e + unat (fst delta) = unat (excess_amount st) + unat (snd delta)" if "v_enforce_balance V"
    using e [OF that] by (simp add: adjust_excess_Ok)
  with pays show ?thesis by (intro exI [of _ "st\<lparr>payments := pays, excess_amount := if v_enforce_balance V then e else excess_amount st\<rparr>"]) simp
qed

definition example_velocity_control :: velocity_control where
  "example_velocity_control = \<lparr>start_sec = 0, bucket_interval = 300, buckets = replicate 12 0, limit = 100000000\<rparr>"

definition example_node_state :: node_state where
  "example_node_state = (node_state_new example_velocity_control example_velocity_control)
     \<lparr>invoices := [([1], \<lparr>ps_invoice_hash = [8], amount_msat = 5000000, payee = [2],
          duration_since_epoch = 0, expiry_duration = from_secs 3600, ps_is_fulfilled = False,
          payment_type = PayInvoice\<rparr>)],
      payments := [([1], routed_payment_new)], excess_amount := 10\<rparr>"

definition example_validator :: validator where
  "example_validator = simple_validator example_lib ((make_simple_policy Testnet)\<lparr>enforce_balance := True\<rparr>)"

lemma example_validate_payments:
  "validate_payments [9] [] [([1], 5000)] (8000, 8000) example_validator example_node_state = Ok ()"
  by (simp add: validate_payments_def unbalanced_payments_def summary_hashes_def keys_of_def is_unbalanced_def
      example_validator_def example_node_state_def node_state_new_def simple_validator_def
      validate_payment_balance_def updated_incoming_outgoing_def routed_payment_new_def get_or_def values_of_def
      sum_u64_def guarded_def make_simple_policy_def adjust_excess_def unwrap_def ok_or_def checked_add_def
      checked_sub_def)

theorem validated_payments_apply_witness:
  "\<exists>st'. apply_payments [9] [] [([1], 5000)] (8000, 8000) example_validator example_node_state =
           (Ok st' :: (unit, node_state) outcome) \<and>
         excess_amount st' = 10 \<and> invoices st' = invoices example_node_state \<and>
         map_option outgoing (map_of (payments st') [1]) = Some [([9], 5000)]"
proof -
  have v: "v_enforce_balance example_validator" by (simp add: example_validator_def simple_validator_def)
  obtain st' where st': "apply_payments [9] [] [([1], 5000)] (8000, 8000) example_validator example_node_state =
      (Ok st' :: (unit, node_state) outcome)"
    "unat (excess_amount st') + unat (8000 :: u64) = unat (excess_amount example_node_state) + unat (8000 :: u64)"
    "st' = example_node_state\<lparr>payments := payments st', excess_amount := excess_amount st'\<rparr>"
    and upd: "\<forall>h. if h \<in> set (summary_hashes [] [([1], 5000)])
       then \<exists>q. map_of (payments st') h = Some q \<and>
        payment_updated [9] (get_or 0 [] h) (get_or 0 [([1], 5000)] h)
          (get_or routed_payment_new (payments example_node_state) h) q
       else map_of (payments st') h = map_of (payments example_node_state) h"
    using validated_payments_apply [OF example_validate_payments, where ?'e = unit] v by auto
  obtain q where q: "map_of (payments st') [1] = Some q"
    "payment_updated [9] (get_or 0 ([] :: summary) [1]) (get_or 0 ([([1], 5000)] :: summary) [1])
          (get_or routed_payment_new (payments example_node_state) [1]) q"
    using spec [OF upd, of "[1]"] by (auto simp: summary_hashes_def keys_of_def)
  have "excess_amount st' = 10"
    using st'(2) by (simp add: example_node_state_def word_unat_eq_iff)
  moreover have "invoices st' = invoices example_node_state" by (subst st'(3)) simp
  ultimately show ?thesis
    using st'(1) q by (auto simp: payment_updated_def get_or_def example_node_state_def routed_payment_new_def)
qed

section \<open>No invoice is overpaid\<close>

text \<open>The amounts of a payment over all channels, in satoshi, without the wrap of \<^verbatim>\<open>sum::<u64>\<close>.\<close>

definition total_in :: "routed_payment \<Rightarrow> nat" where
  "total_in p = sum_list (map unat (values_of (incoming p)))"

definition total_out :: "routed_payment \<Rightarrow> nat" where
  "total_out p = sum_list (map unat (values_of (outgoing p)))"

text \<open>
  A payment for an invoice is balanced when what goes out is covered by what comes in, the
  invoiced amount and the routing fee allowance \<open>fee\<close> (in millisatoshi).  Payments whose outgoing
  total does not fit a \<^verbatim>\<open>u64\<close> of millisatoshi (more than 18 million bitcoin) are not constrained:
  there the multiplication of the code wraps.
\<close>

definition invoice_balanced :: "nat \<Rightarrow> payment_state \<Rightarrow> routed_payment \<Rightarrow> bool" where
  "invoice_balanced fee ps p \<longleftrightarrow>
     (1000 * total_out p < 2 ^ 64 \<longrightarrow> 1000 * total_out p \<le> 1000 * total_in p + unat (amount_msat ps) + fee)"

definition balanced_at :: "nat \<Rightarrow> node_state \<Rightarrow> payment_hash \<Rightarrow> bool" where
  "balanced_at fee st h \<longleftrightarrow>
     (\<forall>ps p. map_of (invoices st) h = Some ps \<and> map_of (payments st) h = Some p \<longrightarrow> invoice_balanced fee ps p)"

lemma unat_sum_le: "unat (sum_u64 xs) \<le> sum_list (map unat xs)"
  by (simp add: unat_sum_u64)

lemma msat_le: "unat (s * 1000 :: u64) \<le> 1000 * unat s"
  by (simp add: unat_word_ariths)

lemma msat_exact:
  assumes "1000 * sum_list (map unat xs) < 2 ^ 64"
  shows "unat (sum_u64 xs * 1000) = 1000 * sum_list (map unat xs)"
proof -
  have "unat (sum_u64 xs) = sum_list (map unat xs)" using assms by (intro unat_sum_u64_exact) simp
  with assms show ?thesis by (simp add: unat_word_ariths mult.commute)
qed

lemma values_of_singleton [simp]: "values_of (AList.update k v []) = [v]"
  by (simp add: values_of_def)

lemma unbalanced_fold_prefix:
  "foldo (\<lambda>hash unb. bindo (f hash) (\<lambda>b. Ok (if b then unb @ [hash] else unb))) hs acc = Ok r \<Longrightarrow>
     length acc \<le> length r"
proof (induction hs arbitrary: acc)
  case (Cons x hs)
  then show ?case by (auto simp: bindo_Ok_iff split: if_splits) fastforce
qed simp

lemma unbalanced_fold_Nil:
  assumes "foldo (\<lambda>hash unb. bindo (f hash) (\<lambda>b. Ok (if b then unb @ [hash] else unb))) hs acc = Ok []"
    and "h \<in> set hs"
  shows "f h = Ok False"
  using assms
proof (induction hs arbitrary: acc)
  case (Cons x hs)
  then obtain b where b: "f x = Ok b"
    "foldo (\<lambda>hash unb. bindo (f hash) (\<lambda>b. Ok (if b then unb @ [hash] else unb))) hs
       (if b then acc @ [x] else acc) = Ok []"
    by (auto simp: bindo_Ok_iff)
  from unbalanced_fold_prefix [OF b(2)] have "\<not> b" by (auto split: if_splits)
  with b Cons show ?case by auto
qed simp

text \<open>
  What the node relies on in a validator: a payment passes only when it is covered, and an
  unbalanced payment is an error and not a warning.
\<close>

locale payment_validator =
  fixes V :: validator and fee :: nat
  assumes payment_covered: "v_validate_payment_balance V i out ia = Ok () \<Longrightarrow>
      unat out \<le> unat i + (case ia of None \<Rightarrow> 0 | Some a \<Rightarrow> unat a + fee)"
    and no_panic: "v_validate_payment_balance V i out ia \<noteq> Panic"
    and balance_tag: "enforced (v_filter V) ''policy-commitment-htlc-routing-balance''"
begin

lemma is_unbalanced_not_Panic: "is_unbalanced st cid i out V h \<noteq> Panic"
  using no_panic by (auto simp: is_unbalanced_def Let_def split: outcome.splits prod.splits)

text \<open>An accepted update leaves every payment it names covered, unless it is a running forward.\<close>

lemma validated_covered:
  assumes "validate_payments cid i out delta V st = Ok ()" and "h \<in> set (summary_hashes i out)"
    and "map_of (invoices st) h = Some ps"
    and "payment_updated cid (get_or 0 i h) (get_or 0 out h) (get_or routed_payment_new (payments st) h) q"
  shows "invoice_balanced fee ps q"
proof -
  have "unbalanced_payments st cid i out V = Ok []"
    using validate_payments_Ok(1) [OF assms(1)] balance_tag by auto
  then have "is_unbalanced st cid i out V h = Ok False"
    using assms(2) unfolding unbalanced_payments_def by (rule unbalanced_fold_Nil)
  moreover have "updated_incoming_outgoing (get_or routed_payment_new (payments st) h) cid
      (get_or 0 i h) (get_or 0 out h) = (sum_u64 (values_of (incoming q)), sum_u64 (values_of (outgoing q)))"
    using assms(4) by (simp add: payment_updated_def updated_incoming_outgoing_def)
  moreover have "updated_incoming_outgoing routed_payment_new cid a b = (a, b)" for a b
    by (simp add: updated_incoming_outgoing_def routed_payment_new_def sum_u64_def values_of_def)
  ultimately have "v_validate_payment_balance V (sum_u64 (values_of (incoming q)) * 1000)
      (sum_u64 (values_of (outgoing q)) * 1000) (Some (amount_msat ps)) = Ok ()"
    using assms(3) by (auto simp: is_unbalanced_def Let_def get_or_def split: option.splits outcome.splits prod.splits)
  then have le: "unat (sum_u64 (values_of (outgoing q)) * 1000)
      \<le> unat (sum_u64 (values_of (incoming q)) * 1000) + (unat (amount_msat ps) + fee)"
    using payment_covered by fastforce
  have "unat (sum_u64 (values_of (incoming q)) * 1000) \<le> 1000 * total_in q"
    using msat_le [of "sum_u64 (values_of (incoming q))"] unat_sum_le [of "values_of (incoming q)"]
    unfolding total_in_def by linarith
  with le msat_exact [of "values_of (outgoing q)"] show ?thesis
    unfolding invoice_balanced_def total_out_def by fastforce
qed

lemma update_keeps_balanced:
  assumes "validate_payments cid i out delta V st = Ok ()"
    and "apply_payments cid i out delta V st = (Ok st' :: ('e, _) outcome)" and "balanced_at fee st h"
  shows "balanced_at fee st' h"
proof -
  obtain e where "v_enforce_balance V \<Longrightarrow> adjust_excess st delta = (Ok (Some e) :: ('e, u64 option) outcome)"
    using validate_payments_Ok(2) [OF assms(1), where ?'e = 'e] by blast
  from apply_payments_spec [OF this, of V cid i out] assms(2)
  have inv: "invoices st' = invoices st" and upd: "if h \<in> set (summary_hashes i out)
       then \<exists>q. map_of (payments st') h = Some q \<and>
              payment_updated cid (get_or 0 i h) (get_or 0 out h) (get_or routed_payment_new (payments st) h) q
       else map_of (payments st') h = map_of (payments st) h" for h
    by auto
  have "invoice_balanced fee ps q"
    if "map_of (invoices st') h = Some ps" and "map_of (payments st') h = Some q" for ps q
    using that upd [of h] validated_covered [OF assms(1), of h ps q] assms(3) inv
    by (auto simp: balanced_at_def split: if_splits)
  then show ?thesis by (auto simp: balanced_at_def)
qed

end

lemma simple_payment_validator:
  assumes "enforced (pol_filter P) ''policy-routing-balanced''"
    and "enforced f ''policy-commitment-htlc-routing-balance''"
    and "v_filter V = f" and "v_validate_payment_balance V = validate_payment_balance P"
  shows "payment_validator V (unat (max_routing_fee_msat P))"
proof
  fix i out :: u64 and ia
  show "v_validate_payment_balance V i out ia \<noteq> Panic"
    by (simp add: assms(4) validate_payment_balance_def Let_def guarded_iff policy_simps)
  show "enforced (v_filter V) ''policy-commitment-htlc-routing-balance''"
    using assms by simp
  have add: "unat (a + b :: u64) \<le> unat a + unat b" for a b by (simp add: unat_word_ariths)
  assume "v_validate_payment_balance V i out ia = Ok ()"
  then have le: "out \<le> i + (case ia of Some a \<Rightarrow> a + max_routing_fee_msat P | None \<Rightarrow> 0)"
    using assms by (auto simp: validate_payment_balance_def Let_def guarded_iff policy_simps not_less
        split: option.splits)
  show "unat out \<le> unat i + (case ia of None \<Rightarrow> 0 | Some a \<Rightarrow> unat a + unat (max_routing_fee_msat P))"
  proof (cases ia)
    case None
    with le show ?thesis by (simp add: word_le_nat_alt)
  next
    case (Some a)
    with le have "unat out \<le> unat (i + (a + max_routing_fee_msat P))" by (simp add: word_le_nat_alt)
    also have "\<dots> \<le> unat i + unat (a + max_routing_fee_msat P)" by (rule add)
    also have "\<dots> \<le> unat i + (unat a + unat (max_routing_fee_msat P))" using add by simp
    finally show ?thesis using Some by simp
  qed
qed

interpretation svp: payment_validator "simple_validator L (make_simple_policy net)"
    "unat (max_routing_fee_msat (make_simple_policy net))" for L net
  by (rule simple_payment_validator) (simp_all add: simple_validator_def make_simple_policy_def)

interpretation ovp: payment_validator "make_onchain_validator L None net"
    "unat (max_routing_fee_msat (make_simple_policy net))" for L net
  by (rule simple_payment_validator)
    (simp_all add: make_onchain_validator_def onchain_validator_def make_onchain_policy_def
      simple_validator_def make_simple_policy_def)

section \<open>Preimages\<close>

text \<open>
  C0: Fulfilling a payment.  The first preimage for a known payment hash is recorded; when the
  payment is a forward (no invoice of ours) and balances are enforced, the excess register grows
  by exactly what came in minus what went out.  A repeated preimage, or one for an unknown hash,
  changes nothing and reports \<open>False\<close>, so a forward is credited once.
\<close>

theorem htlc_fulfilled_once:
  assumes "htlc_fulfilled L pre V st = (Ok (b, st') :: ('e, _) outcome)"
  shows "(b \<longleftrightarrow> (\<exists>p. map_of (payments st) (lib_sha256 L pre) = Some p \<and> preimage p = None)) \<and>
         (\<not> b \<longrightarrow> st' = st) \<and>
         (b \<longrightarrow> map_option preimage (map_of (payments st') (lib_sha256 L pre)) = Some (Some pre) \<and>
               (\<forall>p. map_of (payments st) (lib_sha256 L pre) = Some p \<longrightarrow>
                  unat (excess_amount st') +
                    (if map_of (invoices st) (lib_sha256 L pre) = None \<and> v_enforce_balance V
                     then unat (snd (incoming_outgoing p)) else 0) =
                  unat (excess_amount st) +
                    (if map_of (invoices st) (lib_sha256 L pre) = None \<and> v_enforce_balance V
                     then unat (fst (incoming_outgoing p)) else 0))) \<and>
         htlc_fulfilled L pre V st' = (Ok (False, st') :: ('e, _) outcome)"
proof (cases "\<exists>p. map_of (payments st) (lib_sha256 L pre) = Some p \<and> preimage p = None")
  case True
  then obtain p where p: "map_of (payments st) (lib_sha256 L pre) = Some p" "preimage p = None" by blast
  define enf where "enf \<longleftrightarrow> map_of (invoices st) (lib_sha256 L pre) = None \<and> v_enforce_balance V"
  from assms p obtain e where e: "b" "st' = st\<lparr>excess_amount := e,
      payments := AList.update (lib_sha256 L pre) (p\<lparr>preimage := Some pre\<rparr>) (payments st)\<rparr>"
    "if enf then \<exists>s. checked_add (excess_amount st) (fst (incoming_outgoing p)) = Some s \<and>
        checked_sub s (snd (incoming_outgoing p)) = Some e else e = excess_amount st"
    by (cases "incoming_outgoing p") (auto simp: htlc_fulfilled_def Let_def bindo_Ok_iff unwrap_iff enf_def
        split: if_splits)
  have "unat e + (if enf then unat (snd (incoming_outgoing p)) else 0) =
        unat (excess_amount st) + (if enf then unat (fst (incoming_outgoing p)) else 0)"
    using e(3) by (auto simp: checked_sub_iff_unat dest!: checked_add_unat split: if_splits)
  with p e(1,2) show ?thesis
    unfolding enf_def [symmetric] by (simp add: amap_simps htlc_fulfilled_def)
next
  case False
  with assms show ?thesis
    by (auto simp: htlc_fulfilled_def Let_def split: option.splits)
qed

theorem htlc_fulfilled_once_witness:
  "\<exists>st'. htlc_fulfilled example_lib [1] example_validator example_node_state = (Ok (True, st') :: (unit, _) outcome) \<and>
         map_option preimage (map_of (payments st') [1]) = Some (Some [1]) \<and>
         htlc_fulfilled example_lib [1] example_validator st' = (Ok (False, st') :: (unit, _) outcome)"
proof -
  let ?st = "example_node_state\<lparr>payments := [([1], routed_payment_new\<lparr>preimage := Some [1]\<rparr>)]\<rparr>"
  have "htlc_fulfilled example_lib [1] example_validator example_node_state = (Ok (True, ?st) :: (unit, _) outcome)"
    by (simp add: htlc_fulfilled_def example_lib_def example_node_state_def routed_payment_new_def
        incoming_outgoing_def node_state_new_def Let_def)
  with htlc_fulfilled_once [OF this] show ?thesis by (simp add: example_lib_def)
qed

section \<open>What pruning removes\<close>

text \<open>Every invoice has its payment entry; \<^verbatim>\<open>prune_invoices\<close> panics otherwise.\<close>

definition payments_for_invoices :: "node_state \<Rightarrow> bool" where
  "payments_for_invoices st \<longleftrightarrow> dom (map_of (invoices st)) \<subseteq> dom (map_of (payments st))"

definition prune_end :: "bool \<Rightarrow> payment_state \<Rightarrow> nat" where
  "prune_end timeless ps = duration_since_epoch ps + expiry_duration ps + prune_time timeless ps"

definition invoice_done :: "bool \<Rightarrow> duration \<Rightarrow> node_state \<Rightarrow> payment_hash \<Rightarrow> bool" where
  "invoice_done timeless now st h \<longleftrightarrow>
     (\<exists>ps p. map_of (invoices st) h = Some ps \<and> map_of (payments st) h = Some p \<and>
        prune_end timeless ps < now \<and> (is_fulfilled p \<or> is_no_outgoing p))"

lemma prune_at_eq:
  "prune_at timeless ps = (if prune_end timeless ps < duration_max then Ok (prune_end timeless ps) else Panic)"
  by (auto simp: prune_at_def prune_end_def dur_add_def asserts_def)

text \<open>A loop that collects the keys for which a computed test holds.\<close>

lemma collect_fold_Ok:
  assumes "\<And>k v. (k, v) \<in> set m \<Longrightarrow> f k v = Ok (g k v)"
  shows "foldo (\<lambda>(k, v) acc. bindo (f k v) (\<lambda>b. Ok (if b then acc @ [k] else acc))) m acc =
         Ok (acc @ map fst (filter (\<lambda>(k, v). g k v) m))"
  using assms
proof (induction m arbitrary: acc)
  case (Cons a m)
  then show ?case by (cases a) auto
qed simp

lemma prune_invoices_eq:
  assumes "amap_wf (invoices st)" and "payments_for_invoices st"
    and "\<forall>(h, ps) \<in> set (invoices st). prune_end timeless ps < duration_max"
  shows "prune_invoices timeless now st =
    (let invs = filter (\<lambda>(h, _). \<not> invoice_done timeless now st h) (invoices st);
         pays = filter (\<lambda>(h, _). \<not> invoice_done timeless now st h) (payments st)
     in (Ok (length invs < length (invoices st) \<or> length pays < length (payments st),
            st\<lparr>invoices := invs, payments := pays\<rparr>) :: ('e, _) outcome))"
proof -
  let ?f = "\<lambda>h ps. bindo (unwrap (map_of (payments st) h)) (is_invoice_prunable timeless now ps) :: ('e, bool) outcome"
  have f: "?f h ps = Ok (invoice_done timeless now st h)" if "(h, ps) \<in> set (invoices st)" for h ps
  proof -
    have h: "map_of (invoices st) h = Some ps"
      using that assms(1) by (simp add: amap_wf_def keys_of_def)
    with assms(2) obtain p where "map_of (payments st) h = Some p"
      by (auto simp: payments_for_invoices_def dom_def)
    with h that assms(3) show ?thesis
      by (auto simp: is_invoice_prunable_def prune_at_eq invoice_done_def unwrap_def)
  qed
  let ?prune = "map fst (filter (\<lambda>(h, _). invoice_done timeless now st h) (invoices st))"
  have "foldo (\<lambda>(h, ps) prune. bindo (unwrap (map_of (payments st) h)) (\<lambda>p.
          bindo (is_invoice_prunable timeless now ps p) (\<lambda>b. Ok (if b then prune @ [h] else prune)))) (invoices st) []
        = (Ok ?prune :: ('e, _) outcome)"
    using collect_fold_Ok [of "invoices st" ?f "\<lambda>h _. invoice_done timeless now st h" "[]", OF f]
    by (simp add: bindo_assoc)
  moreover have "h \<in> set ?prune \<longleftrightarrow> invoice_done timeless now st h" for h
    by (force simp: invoice_done_def dest: map_of_SomeD)
  ultimately show ?thesis by (simp add: prune_invoices_def)
qed

lemma filter_keys_shorter: "length (filter (\<lambda>(k, _). \<not> Q k) m) < length m \<Longrightarrow> \<exists>k. Q k"
  by (rule contrapos_pp) (simp_all add: case_prod_beta)

text \<open>
  C0: Pruning invoices.  While every invoice has a payment entry and its end of life is a
  representable time, \<^verbatim>\<open>prune_invoices\<close> does not panic and removes exactly the invoices (with their
  payments) that are past their end of life and complete: one with an unfulfilled outgoing payment
  stays.  The result says whether anything was removed, and every remaining invoice still has its
  payment.
\<close>

theorem prune_invoices_exact:
  assumes "amap_wf (invoices st)" and "payments_for_invoices st"
    and "\<forall>(h, ps) \<in> set (invoices st). prune_end timeless ps < duration_max"
  shows "\<exists>b st'. prune_invoices timeless now st = (Ok (b, st') :: ('e, _) outcome) \<and>
          (\<forall>h. map_of (invoices st') h = (if invoice_done timeless now st h then None else map_of (invoices st) h)) \<and>
          (\<forall>h. map_of (payments st') h = (if invoice_done timeless now st h then None else map_of (payments st) h)) \<and>
          (b \<longleftrightarrow> (\<exists>h. invoice_done timeless now st h)) \<and> payments_for_invoices st'"
proof -
  let ?flt = "\<lambda>m. filter (\<lambda>(h, _). \<not> invoice_done timeless now st h) m"
  have "length (?flt (invoices st)) < length (invoices st) \<longleftrightarrow> (\<exists>h. invoice_done timeless now st h)"
  proof
    assume "\<exists>h. invoice_done timeless now st h"
    then obtain h ps where "invoice_done timeless now st h" "(h, ps) \<in> set (invoices st)"
      by (auto simp: invoice_done_def dest: map_of_SomeD)
    then show "length (?flt (invoices st)) < length (invoices st)"
      by (intro length_filter_less [of "(h, ps)"]) auto
  qed (rule filter_keys_shorter)
  moreover have "length (?flt (payments st)) < length (payments st) \<Longrightarrow> \<exists>h. invoice_done timeless now st h"
    by (rule filter_keys_shorter)
  ultimately show ?thesis
    using assms(2)
    by (auto simp: prune_invoices_eq [OF assms] Let_def payments_for_invoices_def map_of_filter_keys dom_def split: if_splits)
qed

theorem prune_invoices_exact_witness:
  "\<exists>b st'. prune_invoices False (from_secs 100000) example_node_state = (Ok (b, st') :: (unit, _) outcome) \<and>
     map_of (invoices st') [1] = None \<and> b"
proof -
  have "\<forall>(h, ps) \<in> set (invoices example_node_state). prune_end False ps < duration_max"
    by (simp add: example_node_state_def prune_end_def prune_time_def INVOICE_PRUNE_TIME_def from_secs_def
        duration_max_def)
  moreover have "amap_wf (invoices example_node_state)"
    by (simp add: example_node_state_def amap_wf_def keys_of_def)
  moreover have "payments_for_invoices example_node_state"
    by (simp add: example_node_state_def payments_for_invoices_def)
  moreover have "invoice_done False (from_secs 100000) example_node_state [1]"
    by (simp add: invoice_done_def example_node_state_def prune_end_def prune_time_def INVOICE_PRUNE_TIME_def
        from_secs_def is_no_outgoing_def routed_payment_new_def sum_u64_def values_of_def)
  ultimately show ?thesis
    using prune_invoices_exact [of example_node_state False "from_secs 100000", where ?'e = unit] by fastforce
qed

end
