(* ===== verification/Op_Monad.thy ===== *)
theory Op_Monad
  imports Policy_Core
begin

text \<open>
  Methods with \<^verbatim>\<open>&mut self\<close> that return \<^verbatim>\<open>Result<T, Status>\<close>: a function from the state to the
  outcome and the state the call leaves behind.  A call that fails or panics keeps the changes it
  made before, as in the code.  \<open>keeps P m\<close> says that the call preserves \<open>P\<close> however it ends.
\<close>

type_synonym ('s, 'a) op = "'s \<Rightarrow> (status, 'a) outcome \<times> 's"

definition returnS :: "'a \<Rightarrow> ('s, 'a) op" where
  "returnS a = (\<lambda>s. (Ok a, s))"

definition bindS :: "('s, 'a) op \<Rightarrow> ('a \<Rightarrow> ('s, 'b) op) \<Rightarrow> ('s, 'b) op" where
  "bindS m f = (\<lambda>s. case m s of
     (Ok a, s') \<Rightarrow> f a s' | (Err e, s') \<Rightarrow> (Err e, s') | (Panic, s') \<Rightarrow> (Panic, s'))"

definition liftS :: "(status, 'a) outcome \<Rightarrow> ('s, 'a) op" where
  "liftS r = (\<lambda>s. (r, s))"

definition getS :: "('s \<Rightarrow> 'a) \<Rightarrow> ('s, 'a) op" where
  "getS f = (\<lambda>s. (Ok (f s), s))"

definition modifyS :: "('s \<Rightarrow> 's) \<Rightarrow> ('s, unit) op" where
  "modifyS f = (\<lambda>s. (Ok (), f s))"

text \<open>A computation on the state that may fail without changing it, and one that updates it.\<close>

definition readS :: "('s \<Rightarrow> (status, 'a) outcome) \<Rightarrow> ('s, 'a) op" where
  "readS f = (\<lambda>s. (f s, s))"

definition updateS :: "('s \<Rightarrow> (status, 's) outcome) \<Rightarrow> ('s, unit) op" where
  "updateS f = (\<lambda>s. case f s of Ok s' \<Rightarrow> (Ok (), s') | Err e \<Rightarrow> (Err e, s) | Panic \<Rightarrow> (Panic, s))"

named_theorems op_simps

lemma returnS_iff [op_simps]: "returnS a s = (r, s') \<longleftrightarrow> r = Ok a \<and> s' = s"
  by (auto simp: returnS_def)

lemma getS_iff [op_simps]: "getS f s = (r, s') \<longleftrightarrow> r = Ok (f s) \<and> s' = s"
  by (auto simp: getS_def)

lemma liftS_iff [op_simps]: "liftS x s = (r, s') \<longleftrightarrow> r = x \<and> s' = s"
  by (auto simp: liftS_def)

lemma readS_iff [op_simps]: "readS f s = (r, s') \<longleftrightarrow> r = f s \<and> s' = s"
  by (auto simp: readS_def)

lemma modifyS_iff [op_simps]: "modifyS f s = (r, s') \<longleftrightarrow> r = Ok () \<and> s' = f s"
  by (auto simp: modifyS_def)

lemma updateS_Ok_iff [op_simps]: "updateS f s = (Ok u, s') \<longleftrightarrow> f s = Ok s'"
  by (auto simp: updateS_def split: outcome.splits)

lemma bindS_Ok_iff [op_simps]:
  "bindS m f s = (Ok b, s'') \<longleftrightarrow> (\<exists>a s'. m s = (Ok a, s') \<and> f a s' = (Ok b, s''))"
  by (auto simp: bindS_def split: prod.splits outcome.splits)

lemma bindS_assoc: "bindS (bindS m f) g = bindS m (\<lambda>x. bindS (f x) g)"
  by (auto simp: bindS_def fun_eq_iff split: prod.splits outcome.splits)

text \<open>Running a call whose first step succeeds.\<close>

named_theorems run_simps

lemma run_read [run_simps]: "f s = Ok a \<Longrightarrow> bindS (readS f) g s = g a s"
  by (simp add: bindS_def readS_def)

lemma run_lift [run_simps]: "bindS (liftS (Ok a)) g s = g a s"
  by (simp add: bindS_def liftS_def)

lemma run_get [run_simps]: "bindS (getS f) g s = g (f s) s"
  by (simp add: bindS_def getS_def)

lemma run_modify [run_simps]: "bindS (modifyS f) g s = g () (f s)"
  by (simp add: bindS_def modifyS_def)

lemma run_update [run_simps]: "f s = Ok s' \<Longrightarrow> bindS (updateS f) g s = g () s'"
  by (simp add: bindS_def updateS_def)

lemma run_return [run_simps]: "returnS a s = (Ok a, s)" "bindS (returnS a) g s = g a s"
  by (simp_all add: bindS_def returnS_def)

section \<open>Preservation\<close>

definition keeps :: "('s \<Rightarrow> bool) \<Rightarrow> ('s, 'a) op \<Rightarrow> bool" where
  "keeps P m \<longleftrightarrow> (\<forall>s r s'. P s \<longrightarrow> m s = (r, s') \<longrightarrow> P s')"

lemma keepsD: "keeps P m \<Longrightarrow> P s \<Longrightarrow> m s = (r, s') \<Longrightarrow> P s'"
  by (auto simp: keeps_def)

lemma keeps_return [simp, intro]: "keeps P (returnS a)"
  by (auto simp: keeps_def returnS_def)

lemma keeps_lift [simp, intro]: "keeps P (liftS a)"
  by (auto simp: keeps_def liftS_def)

lemma keeps_get [simp, intro]: "keeps P (getS f)"
  by (auto simp: keeps_def getS_def)

lemma keeps_read [simp, intro]: "keeps P (readS f)"
  by (auto simp: keeps_def readS_def)

lemma keeps_modify [intro]: "(\<And>s. P s \<Longrightarrow> P (f s)) \<Longrightarrow> keeps P (modifyS f)"
  by (auto simp: keeps_def modifyS_def)

lemma keeps_update [intro]: "(\<And>s s'. P s \<Longrightarrow> f s = Ok s' \<Longrightarrow> P s') \<Longrightarrow> keeps P (updateS f)"
  by (auto simp: keeps_def updateS_def split: outcome.splits)

lemma keeps_bind [intro]:
  assumes "keeps P m" and "\<And>a. keeps P (f a)"
  shows "keeps P (bindS m f)"
  unfolding keeps_def
proof (intro allI impI)
  fix s r s'
  assume P: "P s" and b: "bindS m f s = (r, s')"
  obtain x s1 where m: "m s = (x, s1)" by (cases "m s")
  with assms(1) P have s1: "P s1" by (rule keepsD)
  show "P s'"
  proof (cases x)
    case (Ok a)
    with b m have "f a s1 = (r, s')" by (simp add: bindS_def)
    with assms(2) s1 show ?thesis by (rule keepsD)
  qed (use b m s1 in \<open>simp_all add: bindS_def\<close>)
qed

lemma keeps_if [intro]: "keeps P m \<Longrightarrow> keeps P m' \<Longrightarrow> keeps P (if b then m else m')"
  by simp

section \<open>Weakest preconditions\<close>

text \<open>
  \<open>wp m Q s\<close>: running \<open>m\<close> from \<open>s\<close> ends, in whatever way, with an outcome and a state that
  satisfy \<open>Q\<close>.  The rules push it through a sequence of calls, so the simplifier generates the
  verification conditions of an operation.
\<close>

definition wp :: "('s, 'a) op \<Rightarrow> ((status, 'a) outcome \<Rightarrow> 's \<Rightarrow> bool) \<Rightarrow> 's \<Rightarrow> bool" where
  "wp m Q s \<longleftrightarrow> (case m s of (r, s') \<Rightarrow> Q r s')"

named_theorems wp_simps

lemma wpD: "wp m Q s \<Longrightarrow> m s = (r, s') \<Longrightarrow> Q r s'"
  by (simp add: wp_def)

lemma wp_mono: "wp m Q s \<Longrightarrow> (\<And>r s'. Q r s' \<Longrightarrow> Q' r s') \<Longrightarrow> wp m Q' s"
  by (auto simp: wp_def split: prod.splits)

lemma wp_return [wp_simps]: "wp (returnS a) Q s \<longleftrightarrow> Q (Ok a) s"
  by (simp add: wp_def returnS_def)

lemma wp_lift [wp_simps]: "wp (liftS x) Q s \<longleftrightarrow> Q x s"
  by (simp add: wp_def liftS_def)

lemma wp_get [wp_simps]: "wp (getS f) Q s \<longleftrightarrow> Q (Ok (f s)) s"
  by (simp add: wp_def getS_def)

lemma wp_read [wp_simps]: "wp (readS f) Q s \<longleftrightarrow> Q (f s) s"
  by (simp add: wp_def readS_def)

lemma wp_modify [wp_simps]: "wp (modifyS f) Q s \<longleftrightarrow> Q (Ok ()) (f s)"
  by (simp add: wp_def modifyS_def)

lemma wp_update [wp_simps]:
  "wp (updateS f) Q s \<longleftrightarrow>
     (case f s of Ok s' \<Rightarrow> Q (Ok ()) s' | Err e \<Rightarrow> Q (Err e) s | Panic \<Rightarrow> Q Panic s)"
  by (simp add: wp_def updateS_def split: outcome.splits)

lemma wp_bind:
  "wp (bindS m f) Q s \<longleftrightarrow>
     wp m (\<lambda>r s'. case r of Ok a \<Rightarrow> wp (f a) Q s' | Err e \<Rightarrow> Q (Err e) s' | Panic \<Rightarrow> Q Panic s') s"
  by (simp add: wp_def bindS_def split: prod.splits outcome.splits)

lemma wp_bind_read [wp_simps]:
  "wp (bindS (readS f) g) Q s \<longleftrightarrow>
     (\<forall>a. f s = Ok a \<longrightarrow> wp (g a) Q s) \<and> (\<forall>e. f s = Err e \<longrightarrow> Q (Err e) s) \<and> (f s = Panic \<longrightarrow> Q Panic s)"
  by (simp add: wp_bind wp_read split: outcome.splits)

lemma wp_bind_lift [wp_simps]:
  "wp (bindS (liftS x) g) Q s \<longleftrightarrow>
     (\<forall>a. x = Ok a \<longrightarrow> wp (g a) Q s) \<and> (\<forall>e. x = Err e \<longrightarrow> Q (Err e) s) \<and> (x = Panic \<longrightarrow> Q Panic s)"
  by (simp add: wp_bind wp_lift split: outcome.splits)

lemma wp_bind_get [wp_simps]: "wp (bindS (getS f) g) Q s \<longleftrightarrow> wp (g (f s)) Q s"
  by (simp add: wp_bind wp_get)

lemma wp_bind_return [wp_simps]: "wp (bindS (returnS a) g) Q s \<longleftrightarrow> wp (g a) Q s"
  by (simp add: wp_bind wp_return)

lemma wp_bind_modify [wp_simps]: "wp (bindS (modifyS f) g) Q s \<longleftrightarrow> wp (g ()) Q (f s)"
  by (simp add: wp_bind wp_modify)

lemma wp_bind_update [wp_simps]:
  "wp (bindS (updateS f) g) Q s \<longleftrightarrow>
     (\<forall>s'. f s = Ok s' \<longrightarrow> wp (g ()) Q s') \<and> (\<forall>e. f s = Err e \<longrightarrow> Q (Err e) s) \<and> (f s = Panic \<longrightarrow> Q Panic s)"
  by (simp add: wp_bind wp_update split: outcome.splits)

lemma wp_bind_mono:
  assumes "wp m R s"
    and "\<And>a s'. R (Ok a) s' \<Longrightarrow> wp (g a) Q s'"
    and "\<And>e s'. R (Err e) s' \<Longrightarrow> Q (Err e) s'" and "\<And>s'. R Panic s' \<Longrightarrow> Q Panic s'"
  shows "wp (bindS m g) Q s"
  unfolding wp_bind using assms(1)
  by (rule wp_mono) (use assms(2-4) in \<open>auto split: outcome.splits\<close>)

lemma keeps_wp: "keeps P m \<longleftrightarrow> (\<forall>s. P s \<longrightarrow> wp m (\<lambda>_. P) s)"
  by (auto simp: keeps_def wp_def split: prod.splits)

end
