(* ===== verification/Channel.thy ===== *)
theory Channel
  imports Validator_Safety Node_State Op_Monad
begin

text \<open>
  \<^verbatim>\<open>vls-core/src/channel.rs\<close>: the operations on one channel, from handing out per-commitment points
  and secrets to signing commitments, closings, sweeps and HTLC transactions.  A call sees the
  channel and the node state behind its mutex (\<open>chan_world\<close>) and an environment: the library, the
  validator, the wallet, what the monitor says of the chain, and whether persisting succeeds.
\<close>

definition INITIAL_COMMITMENT_NUMBER :: u64 where
  "INITIAL_COMMITMENT_NUMBER = 281474976710655"

record chan_world =
  w_chan :: channel
  w_state :: node_state

record chan_env =
  env_lib :: lib
  env_validator :: validator
  env_wallet :: node_wallet
  env_chain :: chain_state
  env_persist_ok :: bool

abbreviation w_estate :: "chan_world \<Rightarrow> enforcement_state" where
  "w_estate w \<equiv> enforcement_state (w_chan w)"

abbreviation w_setup :: "chan_world \<Rightarrow> channel_setup" where
  "w_setup w \<equiv> chan_setup (w_chan w)"

abbreviation w_keys :: "chan_world \<Rightarrow> signer_keys" where
  "w_keys w \<equiv> chan_keys (w_chan w)"

definition set_estate :: "enforcement_state \<Rightarrow> chan_world \<Rightarrow> chan_world" where
  "set_estate st w = w\<lparr>w_chan := (w_chan w)\<lparr>enforcement_state := st\<rparr>\<rparr>"

text \<open>\<^verbatim>\<open>unwrap\<close> and \<^verbatim>\<open>expect\<close> of a \<^verbatim>\<open>Result\<close>.\<close>

primrec unwrap_ok :: "('e, 'a) outcome \<Rightarrow> ('f, 'a) outcome" where
  "unwrap_ok (Ok a) = Ok a"
| "unwrap_ok (Err e) = Panic"
| "unwrap_ok Panic = Panic"

section \<open>Points and secrets\<close>

definition policy_status :: "string \<Rightarrow> status" where
  "policy_status msg = status_of_validation_error (Policy msg)"

definition stub_get_per_commitment_point :: "lib \<Rightarrow> channel_stub \<Rightarrow> u64 \<Rightarrow> (status, pubkey) outcome" where
  "stub_get_per_commitment_point L stub commitment_number =
     (if commitment_number \<noteq> 0
      then Err (policy_status ''channel stub can only return point for commitment number zero'')
      else Ok (lib_get_per_commitment_point L (commitment_seed (stub_keys stub))
                 (INITIAL_COMMITMENT_NUMBER - commitment_number)))"

definition stub_get_per_commitment_secret :: "channel_stub \<Rightarrow> u64 \<Rightarrow> (status, secret) outcome" where
  "stub_get_per_commitment_secret stub commitment_number =
     Err (policy_status ''channel stub cannot release commitment secret'')"

definition stub_check_future_secret :: "lib \<Rightarrow> channel_stub \<Rightarrow> u64 \<Rightarrow> secret \<Rightarrow> (status, bool) outcome" where
  "stub_check_future_secret L stub commitment_number suggested =
     Ok (suggested = lib_release_commitment_secret L (commitment_seed (stub_keys stub))
                       (INITIAL_COMMITMENT_NUMBER - commitment_number))"

definition get_per_commitment_point :: "lib \<Rightarrow> channel \<Rightarrow> u64 \<Rightarrow> (status, pubkey) outcome" where
  "get_per_commitment_point L chan commitment_number =
     (if commitment_number > next_holder_commit_num (enforcement_state chan) + 1
      then Err (policy_status
        ''get_per_commitment_point: commitment_number {} invalid when next_holder_commit_num is {}'')
      else Ok (lib_get_per_commitment_point L (commitment_seed (chan_keys chan))
                 (INITIAL_COMMITMENT_NUMBER - commitment_number)))"

definition get_per_commitment_secret :: "lib \<Rightarrow> validator \<Rightarrow> channel \<Rightarrow> u64 \<Rightarrow> (status, secret) outcome" where
  "get_per_commitment_secret L V chan commitment_number =
     bindo (guarded (commitment_number + 2 > next_holder_commit_num (enforcement_state chan))
              (into_status (perr (v_filter V) ''policy-revoke-new-commitment-signed''
                 ''cannot revoke commitment_number {} when next_holder_commit_num is {}''))) (\<lambda>_.
     let secret = lib_release_commitment_secret L (commitment_seed (chan_keys chan))
                    (INITIAL_COMMITMENT_NUMBER - commitment_number)
     in bindo (asserts (lib_secret_key_valid L secret)) (\<lambda>_. Ok secret))"

definition check_future_secret :: "lib \<Rightarrow> channel \<Rightarrow> u64 \<Rightarrow> secret \<Rightarrow> (status, bool) outcome" where
  "check_future_secret L chan commitment_number suggested =
     Ok (suggested = lib_release_commitment_secret L (commitment_seed (chan_keys chan))
                       (INITIAL_COMMITMENT_NUMBER - commitment_number))"

section \<open>Keys and commitment contents\<close>

definition make_tx_keys :: "lib \<Rightarrow> pubkey \<Rightarrow> channel_public_keys \<Rightarrow> channel_public_keys \<Rightarrow> tx_creation_keys" where
  "make_tx_keys L point a_points b_points =
     lib_derive_tx_keys L point (delayed_payment_basepoint a_points) (htlc_basepoint a_points)
       (revocation_basepoint b_points) (htlc_basepoint b_points)"

definition make_counterparty_tx_keys :: "lib \<Rightarrow> channel \<Rightarrow> pubkey \<Rightarrow> tx_creation_keys" where
  "make_counterparty_tx_keys L chan point =
     make_tx_keys L point (counterparty_pubkeys (chan_keys chan)) (holder_pubkeys (chan_keys chan))"

definition make_holder_tx_keys :: "lib \<Rightarrow> channel \<Rightarrow> pubkey \<Rightarrow> tx_creation_keys" where
  "make_holder_tx_keys L chan point =
     make_tx_keys L point (holder_pubkeys (chan_keys chan)) (counterparty_pubkeys (chan_keys chan))"

definition derive_counterparty_payment_pubkey :: "lib \<Rightarrow> channel \<Rightarrow> pubkey \<Rightarrow> (status, pubkey) outcome" where
  "derive_counterparty_payment_pubkey L chan point =
     (let holder_points = holder_pubkeys (chan_keys chan) in
      if is_static_remotekey (chan_setup chan) then Ok (payment_point holder_points)
      else ok_or (internal_error ''could not derive counterparty_key: {}'')
             (lib_derive_public_key L point (payment_point holder_points)))"

definition build_counterparty_commitment_info ::
    "lib \<Rightarrow> channel \<Rightarrow> pubkey \<Rightarrow> u64 \<Rightarrow> u64 \<Rightarrow> htlc_info2 list \<Rightarrow> htlc_info2 list \<Rightarrow> u32 \<Rightarrow>
     (status, commitment_info2) outcome" where
  "build_counterparty_commitment_info L chan point to_holder_value_sat to_counterparty_value_sat
       offs recs feerate =
     (let holder_points = holder_pubkeys (chan_keys chan) in
      bindo (ok_or (internal_error ''could not derive to_holder_delayed_key: {}'')
               (lib_derive_public_key L point
                  (delayed_payment_basepoint (counterparty_points (chan_setup chan))))) (\<lambda>delayed.
      bindo (derive_counterparty_payment_pubkey L chan point) (\<lambda>to_holder_pubkey.
      let revocation = lib_derive_public_revocation_key L point (revocation_basepoint holder_points) in
      Ok (commitment_info2_new True to_holder_pubkey to_holder_value_sat revocation delayed
            to_counterparty_value_sat (holder_selected_contest_delay (chan_setup chan)) offs recs feerate))))"

definition build_holder_commitment_info ::
    "lib \<Rightarrow> channel \<Rightarrow> pubkey \<Rightarrow> u64 \<Rightarrow> u64 \<Rightarrow> htlc_info2 list \<Rightarrow> htlc_info2 list \<Rightarrow> u32 \<Rightarrow>
     (status, commitment_info2) outcome" where
  "build_holder_commitment_info L chan point to_holder_value_sat to_counterparty_value_sat
       offs recs feerate =
     (let holder_points = holder_pubkeys (chan_keys chan);
          cp_points = counterparty_pubkeys (chan_keys chan) in
      bindo (ok_or (internal_error ''could not derive to_holder_delayed_pubkey: {}'')
               (lib_derive_public_key L point (delayed_payment_basepoint holder_points))) (\<lambda>delayed.
      bindo (if is_static_remotekey (chan_setup chan) then Ok (payment_point cp_points)
             else ok_or (internal_error ''could not derive counterparty_pubkey: {}'')
                    (lib_derive_public_key L point (payment_point cp_points))) (\<lambda>counterparty_pubkey.
      let revocation = lib_derive_public_revocation_key L point (revocation_basepoint cp_points) in
      Ok (commitment_info2_new False counterparty_pubkey to_counterparty_value_sat revocation delayed
            to_holder_value_sat (counterparty_selected_contest_delay (chan_setup chan)) offs recs feerate))))"

definition htlc_to_oic :: "bool \<Rightarrow> htlc_info2 \<Rightarrow> htlc_in_commitment" where
  "htlc_to_oic b h =
     \<lparr>offered = b, htlc_in_commitment.amount_msat = value_sat h * 1000, htlc_cltv_expiry = cltv_expiry h,
      htlc_payment_hash = payment_hash h, transaction_output_index = None\<rparr>"

definition htlcs_info2_to_oic :: "htlc_info2 list \<Rightarrow> htlc_info2 list \<Rightarrow> htlc_in_commitment list" where
  "htlcs_info2_to_oic offs recs = map (htlc_to_oic True) offs @ map (htlc_to_oic False) recs"

definition make_channel_parameters :: "channel \<Rightarrow> channel_parameters" where
  "make_channel_parameters chan =
     (let su = chan_setup chan in
      \<lparr>cp_holder_pubkeys = holder_pubkeys (chan_keys chan),
       cp_holder_selected_contest_delay = holder_selected_contest_delay su,
       cp_is_outbound_from_holder = is_outbound su,
       cp_counterparty_pubkeys = counterparty_points su,
       cp_counterparty_selected_contest_delay = counterparty_selected_contest_delay su,
       cp_funding_txid = op_txid (funding_outpoint su),
       cp_funding_index = ucast (op_vout (funding_outpoint su)),
       cp_opt_anchors = is_anchors su,
       cp_opt_non_zero_fee_anchors = is_zero_fee_htlc su\<rparr>)"

definition make_counterparty_commitment_tx_with_keys ::
    "lib \<Rightarrow> channel \<Rightarrow> tx_creation_keys \<Rightarrow> u64 \<Rightarrow> u32 \<Rightarrow> u64 \<Rightarrow> u64 \<Rightarrow> htlc_in_commitment list \<Rightarrow> commitment_transaction" where
  "make_counterparty_commitment_tx_with_keys L chan keys commitment_number feerate
       to_holder_value_sat to_counterparty_value_sat htlcs =
     lib_new_commitment_tx L True (INITIAL_COMMITMENT_NUMBER - commitment_number)
       to_counterparty_value_sat to_holder_value_sat (is_anchors (chan_setup chan))
       (funding_pubkey (counterparty_pubkeys (chan_keys chan))) (funding_pubkey (holder_pubkeys (chan_keys chan)))
       keys feerate htlcs (make_channel_parameters chan)"

definition make_counterparty_commitment_tx ::
    "lib \<Rightarrow> channel \<Rightarrow> pubkey \<Rightarrow> u64 \<Rightarrow> u32 \<Rightarrow> u64 \<Rightarrow> u64 \<Rightarrow> htlc_in_commitment list \<Rightarrow> commitment_transaction" where
  "make_counterparty_commitment_tx L chan point =
     make_counterparty_commitment_tx_with_keys L chan (make_counterparty_tx_keys L chan point)"

definition make_holder_commitment_tx ::
    "lib \<Rightarrow> channel \<Rightarrow> u64 \<Rightarrow> tx_creation_keys \<Rightarrow> u32 \<Rightarrow> u64 \<Rightarrow> u64 \<Rightarrow> htlc_in_commitment list \<Rightarrow> commitment_transaction" where
  "make_holder_commitment_tx L chan commitment_number keys feerate
       to_holder_value_sat to_counterparty_value_sat htlcs =
     (let commitment_tx = lib_new_commitment_tx L False (INITIAL_COMMITMENT_NUMBER - commitment_number)
            to_holder_value_sat to_counterparty_value_sat (is_anchors (chan_setup chan))
            (funding_pubkey (holder_pubkeys (chan_keys chan))) (funding_pubkey (counterparty_pubkeys (chan_keys chan)))
            keys feerate htlcs (make_channel_parameters chan)
      in if is_anchors (chan_setup chan) then lib_with_non_zero_fee_anchors L commitment_tx else commitment_tx)"

section \<open>Signing counterparty commitments\<close>

definition persist :: "chan_env \<Rightarrow> (chan_world, unit) op" where
  "persist E = liftS (if env_persist_ok E then Ok () else Err (Status Internal ''persist failed''))"

text \<open>The validation of payments and the changes of state that end both ways of signing.\<close>

definition validate_payments_op ::
    "chan_env \<Rightarrow> summary \<Rightarrow> summary \<Rightarrow> balance_delta \<Rightarrow> (chan_world, unit) op" where
  "validate_payments_op E incoming_summary outgoing_summary delta = readS (\<lambda>w.
     into_status (validate_payments (chan_id0 (w_chan w)) incoming_summary outgoing_summary delta
       (env_validator E) (w_state w)))"

definition apply_payments_op ::
    "chan_env \<Rightarrow> summary \<Rightarrow> summary \<Rightarrow> balance_delta \<Rightarrow> (chan_world, unit) op" where
  "apply_payments_op E incoming_summary outgoing_summary delta = updateS (\<lambda>w.
     bindo (apply_payments (chan_id0 (w_chan w)) incoming_summary outgoing_summary delta
       (env_validator E) (w_state w)) (\<lambda>st. Ok (w\<lparr>w_state := st\<rparr>)))"

definition set_next_counterparty_commit_num_op ::
    "chan_env \<Rightarrow> u64 \<Rightarrow> pubkey \<Rightarrow> commitment_info2 \<Rightarrow> (chan_world, unit) op" where
  "set_next_counterparty_commit_num_op E num point info2 = updateS (\<lambda>w.
     bindo (into_status (set_next_counterparty_commit_num (v_filter (env_validator E)) (w_estate w) num point info2))
       (\<lambda>st. Ok (set_estate st w)))"

definition advance_counterparty_commitment ::
    "chan_env \<Rightarrow> u64 \<Rightarrow> pubkey \<Rightarrow> commitment_info2 \<Rightarrow> summary \<Rightarrow> balance_delta \<Rightarrow> (chan_world, unit) op" where
  "advance_counterparty_commitment E commit_num point info2 incoming_summary delta =
     bindS (getS (\<lambda>w. payments_summary (w_estate w) None (Some info2))) (\<lambda>outgoing_summary.
     bindS (validate_payments_op E incoming_summary outgoing_summary delta) (\<lambda>_.
     bindS (set_next_counterparty_commit_num_op E (commit_num + 1) point info2) (\<lambda>_.
     bindS (apply_payments_op E incoming_summary outgoing_summary delta) (\<lambda>_.
     persist E))))"

definition sign_counterparty_commitment_tx_phase2 ::
    "chan_env \<Rightarrow> pubkey \<Rightarrow> u64 \<Rightarrow> u32 \<Rightarrow> u64 \<Rightarrow> u64 \<Rightarrow> htlc_info2 list \<Rightarrow> htlc_info2 list \<Rightarrow>
     (chan_world, signature \<times> signature list) op" where
  "sign_counterparty_commitment_tx_phase2 E point commitment_number feerate
       to_holder_value_sat to_counterparty_value_sat offs recs =
     (let L = env_lib E; V = env_validator E in
      bindS (readS (\<lambda>w. into_status (v_validate_channel_value V (w_setup w)))) (\<lambda>_.
      bindS (readS (\<lambda>w. build_counterparty_commitment_info L (w_chan w) point
               to_holder_value_sat to_counterparty_value_sat offs recs feerate)) (\<lambda>info2.
      bindS (readS (\<lambda>w. claimable_balances (w_estate w) (has_preimage (w_state w)) None (Some info2) (w_setup w))) (\<lambda>delta.
      bindS (getS (\<lambda>w. incoming_payments_summary (w_estate w) None (Some info2))) (\<lambda>incoming_summary.
      bindS (readS (\<lambda>w. into_status (v_validate_counterparty_commitment_tx V (w_estate w) commitment_number point
               (w_setup w) (env_chain E) info2))) (\<lambda>_.
      bindS (getS (\<lambda>w. make_counterparty_commitment_tx L (w_chan w) point commitment_number feerate
               to_holder_value_sat to_counterparty_value_sat (htlcs_info2_to_oic offs recs))) (\<lambda>commitment_tx.
      bindS (readS (\<lambda>w. ok_or (internal_error ''failed to sign'')
               (lib_sign_counterparty_commitment L (w_keys w) commitment_tx))) (\<lambda>sigs.
      bindS (advance_counterparty_commitment E commitment_number point info2 incoming_summary delta) (\<lambda>_.
      returnS sigs)))))))))"

definition sign_counterparty_commitment_tx ::
    "chan_env \<Rightarrow> transaction \<Rightarrow> bytes list \<Rightarrow> pubkey \<Rightarrow> u64 \<Rightarrow> u32 \<Rightarrow> htlc_info2 list \<Rightarrow> htlc_info2 list \<Rightarrow>
     (chan_world, signature) op" where
  "sign_counterparty_commitment_tx E tx output_witscripts point commitment_number feerate offs recs =
     (let L = env_lib E; V = env_validator E in
      bindS (liftS (if length (tx_outputs tx) \<noteq> length output_witscripts
               then Err (invalid_argument ''len(tx.output) != len(witscripts)'') else Ok ())) (\<lambda>_.
      bindS (readS (\<lambda>w. into_status (v_validate_channel_value V (w_setup w)))) (\<lambda>_.
      bindS (readS (\<lambda>w. into_status (v_decode_commitment_tx V (w_keys w) (w_setup w) True tx output_witscripts))) (\<lambda>info.
      bindS (readS (\<lambda>w. build_counterparty_commitment_info L (w_chan w) point
               (ci_to_countersigner_value_sat info) (ci_to_broadcaster_value_sat info) offs recs feerate)) (\<lambda>info2.
      bindS (readS (\<lambda>w. claimable_balances (w_estate w) (has_preimage (w_state w)) None (Some info2) (w_setup w))) (\<lambda>delta.
      bindS (getS (\<lambda>w. incoming_payments_summary (w_estate w) None (Some info2))) (\<lambda>incoming_summary.
      bindS (readS (\<lambda>w. into_status (v_validate_counterparty_commitment_tx V (w_estate w) commitment_number point
               (w_setup w) (env_chain E) info2))) (\<lambda>_.
      bindS (getS (\<lambda>w. make_counterparty_commitment_tx L (w_chan w) point commitment_number feerate
               (ci_to_countersigner_value_sat info) (ci_to_broadcaster_value_sat info)
               (htlcs_info2_to_oic (offered_htlcs info2) (received_htlcs info2)))) (\<lambda>recomposed_tx.
      bindS (liftS (guarded (ct_transaction recomposed_tx \<noteq> tx)
               (into_status (perr (v_filter V) ''policy-commitment'' ''recomposed tx mismatch'')))) (\<lambda>_.
      let commit_num = INITIAL_COMMITMENT_NUMBER - ct_commitment_number recomposed_tx;
          new_point = per_commitment_point (ct_keys recomposed_tx) in
      bindS (readS (\<lambda>w. ok_or (internal_error ''sign_counterparty_commitment failed'')
               (lib_sign_counterparty_commitment L (w_keys w) recomposed_tx))) (\<lambda>sigs.
      bindS (advance_counterparty_commitment E commit_num new_point info2 incoming_summary delta) (\<lambda>_.
      returnS (fst sigs)))))))))))))"

section \<open>Holder commitments\<close>

text \<open>Verifying the counterparty's signatures on our commitment and on each HTLC transaction.\<close>

definition check_htlc_signature ::
    "lib \<Rightarrow> channel \<Rightarrow> tx_creation_keys \<Rightarrow> u32 \<Rightarrow> signature list \<Rightarrow> commitment_transaction \<Rightarrow> pubkey \<Rightarrow> nat \<Rightarrow>
     (status, unit) outcome" where
  "check_htlc_signature L chan txkeys feerate counterparty_htlc_sigs recomposed_tx htlc_pubkey ndx =
     (let su = chan_setup chan;
          htlc = ct_htlcs recomposed_tx ! ndx;
          sig_hash_type = (if is_anchors su then SinglePlusAnyoneCanPay else SighashAll);
          build_feerate = (if is_zero_fee_htlc su then 0 else feerate);
          htlc_redeemscript = lib_get_htlc_redeemscript L htlc (is_anchors su) txkeys;
          recomposed_htlc_tx = lib_build_htlc_transaction L (lib_txid L (ct_transaction recomposed_tx)) build_feerate
            (counterparty_selected_contest_delay su) htlc (is_anchors su) (\<not> is_zero_fee_htlc su)
            (broadcaster_delayed_payment_key txkeys) (revocation_key txkeys);
          sighash = lib_segwit_sighash L recomposed_htlc_tx 0 htlc_redeemscript
            (htlc_in_commitment.amount_msat htlc div 1000) sig_hash_type
      in bindo (index counterparty_htlc_sigs ndx) (\<lambda>sig.
         if lib_verify_ecdsa L sighash sig htlc_pubkey then Ok ()
         else Err (policy_status ''commit sig verify failed for htlc {}: {}'')))"

definition check_holder_tx_signatures ::
    "lib \<Rightarrow> channel \<Rightarrow> pubkey \<Rightarrow> tx_creation_keys \<Rightarrow> u32 \<Rightarrow> signature \<Rightarrow> signature list \<Rightarrow> commitment_transaction \<Rightarrow>
     (status, unit) outcome" where
  "check_holder_tx_signatures L chan point txkeys feerate counterparty_commit_sig counterparty_htlc_sigs recomposed_tx =
     (let su = chan_setup chan;
          redeemscript = lib_make_funding_redeemscript L (funding_pubkey (holder_pubkeys (chan_keys chan)))
            (funding_pubkey (counterparty_points su));
          sighash = lib_segwit_sighash L (ct_transaction recomposed_tx) 0 redeemscript (channel_value_sat su) SighashAll
      in
      bindo (if lib_verify_ecdsa L sighash counterparty_commit_sig (funding_pubkey (counterparty_points su)) then Ok ()
             else Err (policy_status ''commit sig verify failed: {}'')) (\<lambda>_.
      bindo (ok_or (internal_error ''derive_public_key failed: {}'')
               (lib_derive_public_key L point (htlc_basepoint (counterparty_pubkeys (chan_keys chan))))) (\<lambda>htlc_pubkey.
      checks (map (check_htlc_signature L chan txkeys feerate counterparty_htlc_sigs recomposed_tx htlc_pubkey)
                [0..<length (ct_htlcs recomposed_tx)]))))"

definition advance_holder_commitment_state ::
    "chan_env \<Rightarrow> u64 \<Rightarrow> commitment_info2 \<Rightarrow> commitment_signatures \<Rightarrow> (chan_world, pubkey \<times> secret option) op" where
  "advance_holder_commitment_state E commitment_number info2 counterparty_signatures =
     bindS (updateS (\<lambda>w. bindo (into_status (set_next_holder_commit_num (v_filter (env_validator E)) (w_estate w)
              (commitment_number + 1) info2 counterparty_signatures)) (\<lambda>st. Ok (set_estate st w)))) (\<lambda>_.
     bindS (readS (\<lambda>w. unwrap_ok (get_per_commitment_point (env_lib E) (w_chan w) (commitment_number + 1)))) (\<lambda>point.
     bindS (if commitment_number \<ge> 1
            then bindS (readS (\<lambda>w. unwrap_ok (get_per_commitment_secret (env_lib E) (env_validator E) (w_chan w)
                   (commitment_number - 1)))) (\<lambda>s. returnS (Some s))
            else returnS None) (\<lambda>maybe_old_secret.
     returnS (point, maybe_old_secret))))"

text \<open>The common end of both ways of validating a holder commitment.\<close>

definition accept_holder_commitment ::
    "chan_env \<Rightarrow> u64 \<Rightarrow> commitment_info2 \<Rightarrow> summary \<Rightarrow> balance_delta \<Rightarrow> commitment_signatures \<Rightarrow>
     (chan_world, pubkey \<times> secret option) op" where
  "accept_holder_commitment E commitment_number info2 incoming_summary delta counterparty_signatures =
     bindS (getS (\<lambda>w. payments_summary (w_estate w) (Some info2) None)) (\<lambda>outgoing_summary.
     bindS (validate_payments_op E incoming_summary outgoing_summary delta) (\<lambda>_.
     bindS (advance_holder_commitment_state E commitment_number info2 counterparty_signatures) (\<lambda>r.
     bindS (apply_payments_op E incoming_summary outgoing_summary delta) (\<lambda>_.
     bindS (persist E) (\<lambda>_. returnS r)))))"

definition validate_holder_commitment_tx_phase2 ::
    "chan_env \<Rightarrow> u64 \<Rightarrow> u32 \<Rightarrow> u64 \<Rightarrow> u64 \<Rightarrow> htlc_info2 list \<Rightarrow> htlc_info2 list \<Rightarrow> signature \<Rightarrow> signature list \<Rightarrow>
     (chan_world, pubkey \<times> secret option) op" where
  "validate_holder_commitment_tx_phase2 E commitment_number feerate to_holder_value_sat to_counterparty_value_sat
       offs recs counterparty_commit_sig counterparty_htlc_sigs =
     (let L = env_lib E; V = env_validator E in
      bindS (readS (\<lambda>w. get_per_commitment_point L (w_chan w) commitment_number)) (\<lambda>point.
      bindS (readS (\<lambda>w. build_holder_commitment_info L (w_chan w) point
               to_holder_value_sat to_counterparty_value_sat offs recs feerate)) (\<lambda>info2.
      bindS (readS (\<lambda>w. claimable_balances (w_estate w) (has_preimage (w_state w)) (Some info2) None (w_setup w))) (\<lambda>delta.
      bindS (getS (\<lambda>w. incoming_payments_summary (w_estate w) (Some info2) None)) (\<lambda>incoming_summary.
      bindS (readS (\<lambda>w. into_status (v_validate_holder_commitment_tx V (w_estate w) commitment_number point
               (w_setup w) (env_chain E) info2))) (\<lambda>_.
      bindS (readS (\<lambda>w.
               let htlcs = htlcs_info2_to_oic (offered_htlcs info2) (received_htlcs info2);
                   txkeys = make_holder_tx_keys L (w_chan w) point;
                   recomposed_tx = make_holder_commitment_tx L (w_chan w) commitment_number txkeys feerate
                     to_holder_value_sat to_counterparty_value_sat htlcs
               in check_holder_tx_signatures L (w_chan w) point txkeys feerate counterparty_commit_sig
                    counterparty_htlc_sigs recomposed_tx)) (\<lambda>_.
      accept_holder_commitment E commitment_number info2 incoming_summary delta
        (counterparty_commit_sig, counterparty_htlc_sigs))))))))"

definition make_validated_recomposed_holder_commitment_tx ::
    "chan_env \<Rightarrow> transaction \<Rightarrow> bytes list \<Rightarrow> u64 \<Rightarrow> pubkey \<Rightarrow> tx_creation_keys \<Rightarrow> u32 \<Rightarrow> htlc_info2 list \<Rightarrow>
     htlc_info2 list \<Rightarrow> (chan_world, commitment_transaction \<times> commitment_info2 \<times> summary) op" where
  "make_validated_recomposed_holder_commitment_tx E tx output_witscripts commitment_number point txkeys feerate offs recs =
     (let L = env_lib E; V = env_validator E in
      bindS (liftS (if length (tx_outputs tx) \<noteq> length output_witscripts
               then Err (invalid_argument ''len(tx.output):{} != len(witscripts):{}'') else Ok ())) (\<lambda>_.
      bindS (readS (\<lambda>w. into_status (v_validate_channel_value V (w_setup w)))) (\<lambda>_.
      bindS (readS (\<lambda>w. into_status (v_decode_commitment_tx V (w_keys w) (w_setup w) False tx output_witscripts))) (\<lambda>info.
      bindS (readS (\<lambda>w. build_holder_commitment_info L (w_chan w) point
               (ci_to_broadcaster_value_sat info) (ci_to_countersigner_value_sat info) offs recs feerate)) (\<lambda>info2.
      bindS (getS (\<lambda>w. incoming_payments_summary (w_estate w) (Some info2) None)) (\<lambda>incoming_summary.
      bindS (readS (\<lambda>w. into_status (v_validate_holder_commitment_tx V (w_estate w) commitment_number point
               (w_setup w) (env_chain E) info2))) (\<lambda>_.
      bindS (getS (\<lambda>w. make_holder_commitment_tx L (w_chan w) commitment_number txkeys feerate
               (ci_to_broadcaster_value_sat info) (ci_to_countersigner_value_sat info)
               (htlcs_info2_to_oic (offered_htlcs info2) (received_htlcs info2)))) (\<lambda>recomposed_tx.
      bindS (liftS (guarded (ct_transaction recomposed_tx \<noteq> tx)
               (into_status (perr (v_filter V) ''policy-commitment'' ''recomposed tx mismatch'')))) (\<lambda>_.
      returnS (recomposed_tx, info2, incoming_summary))))))))))"

definition channel_validate_holder_commitment_tx ::
    "chan_env \<Rightarrow> transaction \<Rightarrow> bytes list \<Rightarrow> u64 \<Rightarrow> u32 \<Rightarrow> htlc_info2 list \<Rightarrow> htlc_info2 list \<Rightarrow> signature \<Rightarrow>
     signature list \<Rightarrow> (chan_world, pubkey \<times> secret option) op" where
  "channel_validate_holder_commitment_tx E tx output_witscripts commitment_number feerate offs recs
       counterparty_commit_sig counterparty_htlc_sigs =
     (let L = env_lib E in
      bindS (readS (\<lambda>w. get_per_commitment_point L (w_chan w) commitment_number)) (\<lambda>point.
      bindS (getS (\<lambda>w. make_holder_tx_keys L (w_chan w) point)) (\<lambda>txkeys.
      bindS (make_validated_recomposed_holder_commitment_tx E tx output_witscripts commitment_number point txkeys
               feerate offs recs) (\<lambda>(recomposed_tx, info2, incoming_summary).
      bindS (readS (\<lambda>w. claimable_balances (w_estate w) (has_preimage (w_state w)) (Some info2) None (w_setup w))) (\<lambda>delta.
      bindS (readS (\<lambda>w. check_holder_tx_signatures L (w_chan w) point txkeys feerate counterparty_commit_sig
               counterparty_htlc_sigs recomposed_tx)) (\<lambda>_.
      accept_holder_commitment E commitment_number info2 incoming_summary delta
        (counterparty_commit_sig, counterparty_htlc_sigs)))))))"

section \<open>Closing\<close>

definition close_channel :: "(chan_world, unit) op" where
  "close_channel = modifyS (\<lambda>w. set_estate ((w_estate w)\<lparr>channel_closed := True\<rparr>) w)"

definition sign_holder_tx ::
    "chan_env \<Rightarrow> commitment_transaction \<Rightarrow> (chan_world, signature \<times> signature list) op" where
  "sign_holder_tx E recomposed_tx = readS (\<lambda>w. ok_or (internal_error ''failed to sign'')
     (lib_sign_holder_commitment (env_lib E) (w_keys w) recomposed_tx))"

text \<open>The commitment rebuilt from the information stored in the enforcement state.\<close>

definition rebuild_holder_tx :: "lib \<Rightarrow> channel \<Rightarrow> u64 \<Rightarrow> pubkey \<Rightarrow> commitment_info2 \<Rightarrow> commitment_transaction" where
  "rebuild_holder_tx L chan commitment_number point info2 =
     make_holder_commitment_tx L chan commitment_number (make_holder_tx_keys L chan point)
       (if is_zero_fee_htlc (chan_setup chan) then 0 else feerate_per_kw info2)
       (to_broadcaster_value_sat info2) (to_countersigner_value_sat info2)
       (htlcs_info2_to_oic (offered_htlcs info2) (received_htlcs info2))"

definition sign_holder_commitment_tx_phase2 ::
    "chan_env \<Rightarrow> u64 \<Rightarrow> (chan_world, signature \<times> signature list) op" where
  "sign_holder_commitment_tx_phase2 E commitment_number =
     (let L = env_lib E; V = env_validator E in
      bindS (readS (\<lambda>w. into_status (get_current_holder_commitment_info (v_filter V) (w_estate w) commitment_number))) (\<lambda>info2.
      bindS (readS (\<lambda>w. get_per_commitment_point L (w_chan w) commitment_number)) (\<lambda>point.
      bindS (getS (\<lambda>w. rebuild_holder_tx L (w_chan w) commitment_number point info2)) (\<lambda>recomposed_tx.
      bindS (sign_holder_tx E recomposed_tx) (\<lambda>sigs.
      bindS close_channel (\<lambda>_.
      bindS (persist E) (\<lambda>_. returnS sigs)))))))"

definition sign_holder_commitment_tx_phase2_redundant ::
    "chan_env \<Rightarrow> u64 \<Rightarrow> u32 \<Rightarrow> u64 \<Rightarrow> u64 \<Rightarrow> htlc_info2 list \<Rightarrow> htlc_info2 list \<Rightarrow>
     (chan_world, signature \<times> signature list) op" where
  "sign_holder_commitment_tx_phase2_redundant E commitment_number feerate to_holder_value_sat
       to_counterparty_value_sat offs recs =
     (let L = env_lib E; V = env_validator E in
      bindS (readS (\<lambda>w. get_per_commitment_point L (w_chan w) commitment_number)) (\<lambda>point.
      bindS (readS (\<lambda>w. build_holder_commitment_info L (w_chan w) point
               to_holder_value_sat to_counterparty_value_sat offs recs feerate)) (\<lambda>info2.
      bindS (readS (\<lambda>w. into_status (v_validate_holder_commitment_tx V (w_estate w) commitment_number point
               (w_setup w) (env_chain E) info2))) (\<lambda>_.
      bindS (getS (\<lambda>w. make_holder_commitment_tx L (w_chan w) commitment_number (make_holder_tx_keys L (w_chan w) point)
               (if is_zero_fee_htlc (w_setup w) then 0 else feerate) to_holder_value_sat to_counterparty_value_sat
               (htlcs_info2_to_oic offs recs))) (\<lambda>commitment_tx.
      bindS (sign_holder_tx E commitment_tx) (\<lambda>sigs.
      bindS close_channel (\<lambda>_.
      bindS (persist E) (\<lambda>_. returnS sigs))))))))"

text \<open>
  Recovery signs the current commitment and completes its witness with the stored counterparty
  signature; it also returns the keys for sweeping our output.
\<close>

definition get_unilateral_close_key ::
    "lib \<Rightarrow> channel \<Rightarrow> pubkey option \<Rightarrow> pubkey option \<Rightarrow> (status, bytes \<times> bytes list) outcome" where
  "get_unilateral_close_key L chan commitment_point_opt revocation_pubkey_opt =
     (let keys = chan_keys chan in
      case commitment_point_opt of
        Some commitment_point \<Rightarrow>
          let base_key = (if revocation_pubkey_opt \<noteq> None then delayed_payment_base_key keys else payment_key keys);
              key = lib_derive_private_key L commitment_point base_key;
              pubkey = lib_public_key L key
          in Ok (key, case revocation_pubkey_opt of
               Some r \<Rightarrow> [[], lib_get_revokeable_redeemscript L r (counterparty_selected_contest_delay (chan_setup chan)) pubkey]
             | None \<Rightarrow> [lib_public_key L base_key])
      | None \<Rightarrow>
          if revocation_pubkey_opt \<noteq> None then Err (invalid_argument ''delayed output without commitment point'')
          else Ok (payment_key keys, [lib_public_key L (payment_key keys)]))"

definition sign_holder_commitment_tx_for_recovery ::
    "chan_env \<Rightarrow> (chan_world, transaction \<times> transaction list \<times> script \<times> (bytes \<times> bytes list) \<times> pubkey) op" where
  "sign_holder_commitment_tx_for_recovery E =
     (let L = env_lib E in
      bindS (readS (\<lambda>w. unwrap (current_holder_commit_info (w_estate w)))) (\<lambda>info2.
      bindS (readS (\<lambda>w. unwrap (current_counterparty_signatures (w_estate w)))) (\<lambda>cp_sigs.
      bindS (getS (\<lambda>w. next_holder_commit_num (w_estate w) - 1)) (\<lambda>commitment_number.
      bindS (readS (\<lambda>w. get_per_commitment_point L (w_chan w) commitment_number)) (\<lambda>point.
      bindS (getS (\<lambda>w. rebuild_holder_tx L (w_chan w) commitment_number point info2)) (\<lambda>recomposed_tx.
      bindS (sign_holder_tx E recomposed_tx) (\<lambda>sigs.
      bindS (readS (\<lambda>w. add_holder_sig L (fst sigs) (fst cp_sigs) (funding_pubkey (holder_pubkeys (w_keys w)))
               (funding_pubkey (counterparty_pubkeys (w_keys w))) (ct_transaction recomposed_tx))) (\<lambda>tx.
      bindS close_channel (\<lambda>_.
      bindS (getS (\<lambda>w. lib_derive_public_revocation_key L point
               (revocation_basepoint (counterparty_pubkeys (w_keys w))))) (\<lambda>revocation.
      bindS (readS (\<lambda>w. get_unilateral_close_key L (w_chan w) (Some point) (Some revocation))) (\<lambda>ck.
      bindS (persist E) (\<lambda>_.
      bindS (getS (\<lambda>w. lib_to_v0_p2wsh L (lib_get_revokeable_redeemscript L (revocation_key (ct_keys recomposed_tx))
               (counterparty_selected_contest_delay (w_setup w))
               (broadcaster_delayed_payment_key (ct_keys recomposed_tx))))) (\<lambda>revocable_script.
      returnS (tx, [], revocable_script, ck, revocation))))))))))))))"

definition sign_mutual_close_tx_phase2 ::
    "chan_env \<Rightarrow> u64 \<Rightarrow> u64 \<Rightarrow> script option \<Rightarrow> script option \<Rightarrow> u32 list \<Rightarrow> (chan_world, signature) op" where
  "sign_mutual_close_tx_phase2 E to_holder_value_sat to_counterparty_value_sat holder_script counterparty_script
       holder_wallet_path_hint =
     (let L = env_lib E; V = env_validator E in
      bindS (readS (\<lambda>w. into_status (v_validate_mutual_close_tx V (env_wallet E) (w_setup w) (w_estate w)
               to_holder_value_sat to_counterparty_value_sat holder_script counterparty_script holder_wallet_path_hint))) (\<lambda>_.
      bindS (readS (\<lambda>w. ok_or (Status Internal ''failed to sign'') (lib_sign_closing L (w_keys w)
               (lib_closing_transaction L to_holder_value_sat to_counterparty_value_sat
                  (script_or_empty holder_script) (script_or_empty counterparty_script)
                  (funding_outpoint (w_setup w)))))) (\<lambda>sig.
      bindS close_channel (\<lambda>_.
      bindS (persist E) (\<lambda>_. returnS sig)))))"

definition sign_mutual_close_tx :: "chan_env \<Rightarrow> transaction \<Rightarrow> u32 list list \<Rightarrow> (chan_world, signature) op" where
  "sign_mutual_close_tx E tx opaths =
     (let L = env_lib E; V = env_validator E in
      bindS (liftS (if length opaths \<noteq> length (tx_outputs tx)
               then Err (invalid_argument ''{}: bad opath len {} with tx.output len {}'') else Ok ())) (\<lambda>_.
      bindS (readS (\<lambda>w. into_status (v_decode_and_validate_mutual_close_tx V (env_wallet E) (w_setup w) (w_estate w)
               tx opaths))) (\<lambda>recomposed_tx.
      bindS (readS (\<lambda>w. ok_or (Status Internal ''failed to sign'') (lib_sign_closing L (w_keys w) recomposed_tx))) (\<lambda>sig.
      bindS close_channel (\<lambda>_.
      bindS (persist E) (\<lambda>_. returnS sig))))))"

section \<open>Revocations of the counterparty\<close>

text \<open>The secret is stored before the counter moves, so a refused counter leaves the store changed.\<close>

definition store_counterparty_secret :: "chan_env \<Rightarrow> u64 \<Rightarrow> secret \<Rightarrow> (chan_world, unit) op" where
  "store_counterparty_secret E revoke_num old_secret = updateS (\<lambda>w.
     case counterparty_secrets (w_estate w) of
       None \<Rightarrow> Ok w
     | Some secrets \<Rightarrow>
         (case provide_secret (lib_sha256 (env_lib E)) secrets (INITIAL_COMMITMENT_NUMBER - revoke_num) old_secret of
            Ok secrets' \<Rightarrow> Ok (set_estate ((w_estate w)\<lparr>counterparty_secrets := Some secrets'\<rparr>) w)
          | Err _ \<Rightarrow> bindo (into_status (perr (v_filter (env_validator E)) ''policy-commitment-previous-revoked''
                       ''counterparty secret does not chain'')) (\<lambda>_. Ok w)
          | Panic \<Rightarrow> Panic))"

definition validate_counterparty_revocation :: "chan_env \<Rightarrow> u64 \<Rightarrow> secret \<Rightarrow> (chan_world, unit) op" where
  "validate_counterparty_revocation E revoke_num old_secret =
     bindS (readS (\<lambda>w. into_status (v_validate_counterparty_revocation (env_validator E) (w_estate w)
              revoke_num old_secret))) (\<lambda>_.
     bindS (store_counterparty_secret E revoke_num old_secret) (\<lambda>_.
     bindS (updateS (\<lambda>w. bindo (into_status (set_next_counterparty_revoke_num (v_filter (env_validator E)) (w_estate w)
              (revoke_num + 1))) (\<lambda>st. Ok (set_estate st w)))) (\<lambda>_.
     persist E)))"

section \<open>Sweeps and second-level transactions\<close>

definition sign_delayed_sweep ::
    "chan_env \<Rightarrow> transaction \<Rightarrow> nat \<Rightarrow> u64 \<Rightarrow> script \<Rightarrow> u64 \<Rightarrow> u32 list \<Rightarrow> (chan_world, signature) op" where
  "sign_delayed_sweep E tx input commitment_number redeemscript amount_sat wallet_path =
     (let L = env_lib E in
      bindS (liftS (if input \<ge> length (tx_inputs tx)
               then Err (invalid_argument ''sign_delayed_sweep: bad input index: {} >= {}'') else Ok ())) (\<lambda>_.
      bindS (readS (\<lambda>w. get_per_commitment_point L (w_chan w) commitment_number)) (\<lambda>point.
      bindS (readS (\<lambda>w. into_status (v_validate_delayed_sweep (env_validator E) (env_wallet E) (w_setup w) (env_chain E)
               tx wallet_path))) (\<lambda>_.
      bindS (getS (\<lambda>w. lib_sign_ecdsa L (lib_derive_private_key L point (delayed_payment_base_key (w_keys w)))
               (lib_segwit_sighash L tx input redeemscript amount_sat SighashAll))) (\<lambda>sig.
      bindS (persist E) (\<lambda>_. returnS sig))))))"

definition sign_counterparty_htlc_sweep ::
    "chan_env \<Rightarrow> transaction \<Rightarrow> nat \<Rightarrow> pubkey \<Rightarrow> script \<Rightarrow> u64 \<Rightarrow> u32 list \<Rightarrow> (chan_world, signature) op" where
  "sign_counterparty_htlc_sweep E tx input point redeemscript htlc_amount_sat wallet_path =
     (let L = env_lib E in
      bindS (liftS (if input \<ge> length (tx_inputs tx)
               then Err (invalid_argument ''sign_counterparty_htlc_sweep: bad input index: {} >= {}'') else Ok ())) (\<lambda>_.
      bindS (readS (\<lambda>w. into_status (v_validate_counterparty_htlc_sweep (env_validator E) (env_wallet E) (w_setup w)
               (env_chain E) tx redeemscript wallet_path))) (\<lambda>_.
      bindS (getS (\<lambda>w. lib_sign_ecdsa L (lib_derive_private_key L point (htlc_base_key (w_keys w)))
               (lib_segwit_sighash L tx input redeemscript htlc_amount_sat SighashAll))) (\<lambda>sig.
      bindS (persist E) (\<lambda>_. returnS sig)))))"

definition sign_justice_sweep ::
    "chan_env \<Rightarrow> transaction \<Rightarrow> nat \<Rightarrow> secret \<Rightarrow> script \<Rightarrow> u64 \<Rightarrow> u32 list \<Rightarrow> (chan_world, signature) op" where
  "sign_justice_sweep E tx input revocation_secret redeemscript amount_sat wallet_path =
     (let L = env_lib E in
      bindS (liftS (if input \<ge> length (tx_inputs tx)
               then Err (invalid_argument ''sign_justice_sweep: bad input index: {} >= {}'') else Ok ())) (\<lambda>_.
      bindS (readS (\<lambda>w. into_status (v_validate_justice_sweep (env_validator E) (env_wallet E) (env_chain E)
               tx wallet_path))) (\<lambda>_.
      bindS (getS (\<lambda>w. lib_sign_ecdsa L (lib_derive_private_revocation_key L revocation_secret (revocation_base_key (w_keys w)))
               (lib_segwit_sighash L tx input redeemscript amount_sat SighashAll))) (\<lambda>sig.
      bindS (persist E) (\<lambda>_. returnS sig)))))"

definition sign_htlc_tx ::
    "chan_env \<Rightarrow> channel \<Rightarrow> transaction \<Rightarrow> pubkey \<Rightarrow> script \<Rightarrow> u64 \<Rightarrow> bool \<Rightarrow> tx_creation_keys \<Rightarrow>
     (status, signature \<times> sighash_type) outcome" where
  "sign_htlc_tx E chan tx point redeemscript htlc_amount_sat is_counterparty txkeys =
     (let L = env_lib E; V = env_validator E in
      bindo (into_status (v_decode_and_validate_htlc_tx V is_counterparty (chan_setup chan) txkeys tx redeemscript
               htlc_amount_sat)) (\<lambda>(feerate, htlc, recomposed_tx_sighash, typ).
      bindo (into_status (v_validate_htlc_tx V (chan_setup chan) htlc feerate)) (\<lambda>_.
      Ok (lib_sign_ecdsa L (lib_derive_private_key L point (htlc_base_key (chan_keys chan))) recomposed_tx_sighash, typ))))"

definition sign_holder_htlc_tx ::
    "chan_env \<Rightarrow> channel \<Rightarrow> transaction \<Rightarrow> u64 \<Rightarrow> pubkey option \<Rightarrow> script \<Rightarrow> u64 \<Rightarrow>
     (status, signature \<times> sighash_type) outcome" where
  "sign_holder_htlc_tx E chan tx commitment_number opt_point redeemscript htlc_amount_sat =
     bindo (case opt_point of
              Some p \<Rightarrow> Ok p
            | None \<Rightarrow> get_per_commitment_point (env_lib E) chan commitment_number) (\<lambda>point.
     sign_htlc_tx E chan tx point redeemscript htlc_amount_sat False (make_holder_tx_keys (env_lib E) chan point))"

definition sign_counterparty_htlc_tx ::
    "chan_env \<Rightarrow> channel \<Rightarrow> transaction \<Rightarrow> pubkey \<Rightarrow> script \<Rightarrow> u64 \<Rightarrow> (status, signature \<times> sighash_type) outcome" where
  "sign_counterparty_htlc_tx E chan tx point redeemscript htlc_amount_sat =
     sign_htlc_tx E chan tx point redeemscript htlc_amount_sat True (make_counterparty_tx_keys (env_lib E) chan point)"

definition sign_channel_announcement_with_funding_key :: "lib \<Rightarrow> channel \<Rightarrow> bytes \<Rightarrow> signature" where
  "sign_channel_announcement_with_funding_key L chan announcement =
     lib_sign_ecdsa L (funding_key (chan_keys chan)) (lib_sha256d L announcement)"

section \<open>Payments and balance of a channel\<close>

definition restore_payments :: "channel \<Rightarrow> node_state \<Rightarrow> node_state" where
  "restore_payments chan st =
     (let i = incoming_payments_summary (enforcement_state chan) None None;
          out = payments_summary (enforcement_state chan) None None
      in st\<lparr>payments := foldl (\<lambda>pays h.
              let p = get_or routed_payment_new pays h
              in AList.update h (routed_payment_apply (chan_id0 chan) (get_or 0 i h) (get_or 0 out h) p) pays)
            (payments st) (summary_hashes i out)\<rparr>)"

definition channel_htlcs_fulfilled :: "chan_env \<Rightarrow> bytes list \<Rightarrow> (chan_world, unit) op" where
  "channel_htlcs_fulfilled E preimages = updateS (\<lambda>w.
     bindo (foldo (\<lambda>pre st. bindo (htlc_fulfilled (env_lib E) pre (env_validator E) st) (\<lambda>(_, st'). Ok st'))
              preimages (w_state w)) (\<lambda>st. Ok (w\<lparr>w_state := st\<rparr>)))"

definition balance :: "channel \<Rightarrow> node_state \<Rightarrow> ('e, channel_balance) outcome" where
  "balance chan st = estate_balance (enforcement_state chan) (has_preimage st) (chan_setup chan)"

end
