(* ===== verification/Monitor.thy ===== *)
theory Monitor
  imports Onchain_Validator
begin

text \<open>
  \<^verbatim>\<open>vls-core/src/monitor.rs\<close>: what a channel sees of the chain.  The monitor reads a block as a
  sequence of push events, collects the changes that concern its channel, and applies them when the
  block is added, or reverts them when it is removed.  The main results are that a block that is
  added and removed leaves the monitor as it was, that the depths it reports are those of the
  chain, and two kinds of block that the monitor cannot revert.
\<close>

section \<open>State\<close>

datatype state_change =
    FundingConfirmed outpoint
  | FundingDoubleSpent outpoint
  | ClosingConfirmed bytes transaction

record block_decode_state =
  bd_changes :: "state_change list"
  bd_version :: int
  bd_input_num :: u32
  bd_output_num :: u32
  bd_closing_tx :: "transaction option"
  bd_block_hash :: bytes

record monitor_state =
  m_height :: u32
  m_funding_txids :: "bytes list"
  m_funding_vouts :: "u32 list"
  m_funding_inputs :: "outpoint set"
  m_funding_height :: "u32 option"
  m_funding_outpoint :: "outpoint option"
  m_funding_double_spent_height :: "u32 option"
  m_closing_height :: "u32 option"
  m_saw_block :: bool
  m_decode_state :: "block_decode_state option"

definition MAX_COMMITMENT_OUTPUTS :: u32 where
  "MAX_COMMITMENT_OUTPUTS = 600"

definition monitor_new :: "u32 \<Rightarrow> monitor_state" where
  "monitor_new height = \<lparr>m_height = height, m_funding_txids = [], m_funding_vouts = [], m_funding_inputs = {},
     m_funding_height = None, m_funding_outpoint = None, m_funding_double_spent_height = None,
     m_closing_height = None, m_saw_block = False, m_decode_state = None\<rparr>"

definition add_funding_outpoint :: "outpoint \<Rightarrow> monitor_state \<Rightarrow> ('e, monitor_state) outcome" where
  "add_funding_outpoint outpoint st =
     bindo (asserts (m_funding_txids st = [])) (\<lambda>_.
     bindo (asserts (length (m_funding_txids st) = length (m_funding_vouts st))) (\<lambda>_.
     Ok (st\<lparr>m_funding_txids := m_funding_txids st @ [op_txid outpoint],
            m_funding_vouts := m_funding_vouts st @ [op_vout outpoint]\<rparr>)))"

definition add_funding_inputs :: "transaction \<Rightarrow> monitor_state \<Rightarrow> monitor_state" where
  "add_funding_inputs tx st =
     st\<lparr>m_funding_inputs := m_funding_inputs st \<union> set (map previous_output (tx_inputs tx))\<rparr>"

definition add_funding :: "lib \<Rightarrow> transaction \<Rightarrow> u32 \<Rightarrow> monitor_state \<Rightarrow> ('e, monitor_state) outcome" where
  "add_funding L tx vout st =
     bindo (asserts (m_funding_txids st = [])) (\<lambda>_.
     bindo (asserts (length (m_funding_txids st) = length (m_funding_vouts st))) (\<lambda>_.
     Ok (st\<lparr>m_funding_txids := m_funding_txids st @ [lib_txid L tx],
            m_funding_vouts := m_funding_vouts st @ [vout],
            m_funding_inputs := m_funding_inputs st \<union> set (map previous_output (tx_inputs tx))\<rparr>)))"

text \<open>The number of confirmations of a height, zero when there is none.\<close>

definition depth_of :: "monitor_state \<Rightarrow> u32 option \<Rightarrow> u32" where
  "depth_of st h = (case h of None \<Rightarrow> 0 | Some h \<Rightarrow> m_height st + 1 - h)"

definition monitor_funding_depth :: "monitor_state \<Rightarrow> u32" where
  "monitor_funding_depth st = depth_of st (m_funding_height st)"

definition monitor_funding_double_spent_depth :: "monitor_state \<Rightarrow> u32" where
  "monitor_funding_double_spent_depth st = depth_of st (m_funding_double_spent_height st)"

definition as_chain_state :: "monitor_state \<Rightarrow> chain_state" where
  "as_chain_state st =
     \<lparr>current_height = m_height st, funding_depth = depth_of st (m_funding_height st),
      funding_double_spent_depth = depth_of st (m_funding_double_spent_height st),
      closing_depth = depth_of st (m_closing_height st)\<rparr>"

section \<open>Push events\<close>

datatype push_event =
    OnBlockStart bytes
  | OnTransactionStart int
  | OnTransactionInput tx_in
  | OnTransactionOutput tx_out
  | OnTransactionEnd u32 bytes
  | OnBlockEnd

definition is_not_ready_for_push :: "monitor_state \<Rightarrow> bool" where
  "is_not_ready_for_push st \<longleftrightarrow> m_decode_state st = None \<and> \<not> m_saw_block st"

definition on_block_start :: "bytes \<Rightarrow> monitor_state \<Rightarrow> monitor_state" where
  "on_block_start block_hash st =
     st\<lparr>m_saw_block := True,
        m_decode_state := Some \<lparr>bd_changes = [], bd_version = 0, bd_input_num = 0, bd_output_num = 0,
                            bd_closing_tx = None, bd_block_hash = block_hash\<rparr>\<rparr>"

text \<open>A handler returns early when the monitor was created inside a block, and otherwise needs the decode state.\<close>

definition when_ready ::
    "monitor_state \<Rightarrow> (block_decode_state \<Rightarrow> ('e, block_decode_state) outcome) \<Rightarrow> ('e, monitor_state) outcome" where
  "when_ready st f =
     (if is_not_ready_for_push st then Ok st
      else bindo (unwrap (m_decode_state st)) (\<lambda>d.
           bindo (f d) (\<lambda>d. Ok (st\<lparr>m_decode_state := Some d\<rparr>))))"

definition on_transaction_start :: "int \<Rightarrow> monitor_state \<Rightarrow> ('e, monitor_state) outcome" where
  "on_transaction_start version st = when_ready st (\<lambda>d.
     Ok (d\<lparr>bd_version := version, bd_input_num := 0, bd_output_num := 0, bd_closing_tx := None\<rparr>))"

definition on_transaction_input :: "tx_in \<Rightarrow> monitor_state \<Rightarrow> ('e, monitor_state) outcome" where
  "on_transaction_input input st = when_ready st (\<lambda>d.
     let d1 = (if previous_output input \<in> m_funding_inputs st
               then d\<lparr>bd_changes := bd_changes d @ [FundingDoubleSpent (previous_output input)]\<rparr> else d);
         d2 = (if Some (previous_output input) = m_funding_outpoint st
               then d1\<lparr>bd_closing_tx := Some \<lparr>tx_version = bd_version d1, lock_time = 0,
                         tx_inputs = [input], tx_outputs = []\<rparr>\<rparr> else d1)
     in bindo (asserts (bd_closing_tx d2 = None \<or> bd_input_num d2 = 0)) (\<lambda>_.
        Ok (d2\<lparr>bd_input_num := bd_input_num d2 + 1\<rparr>)))"

definition on_transaction_output :: "tx_out \<Rightarrow> monitor_state \<Rightarrow> ('e, monitor_state) outcome" where
  "on_transaction_output output st = when_ready st (\<lambda>d.
     bindo (case bd_closing_tx d of
              None \<Rightarrow> Ok d
            | Some closing_tx \<Rightarrow>
                let d1 = d\<lparr>bd_closing_tx := Some (closing_tx\<lparr>tx_outputs := tx_outputs closing_tx @ [output]\<rparr>)\<rparr>
                in bindo (asserts (bd_output_num d1 < MAX_COMMITMENT_OUTPUTS)) (\<lambda>_. Ok d1)) (\<lambda>d.
     Ok (d\<lparr>bd_output_num := bd_output_num d + 1\<rparr>)))"

text \<open>The first position of an element, as \<^verbatim>\<open>Iterator::position\<close> has it.\<close>

fun position :: "'a \<Rightarrow> 'a list \<Rightarrow> nat option" where
  "position x [] = None"
| "position x (y # ys) = (if y = x then Some 0 else map_option Suc (position x ys))"

definition on_transaction_end :: "u32 \<Rightarrow> bytes \<Rightarrow> monitor_state \<Rightarrow> ('e, monitor_state) outcome" where
  "on_transaction_end locktime txid st = when_ready st (\<lambda>d.
     bindo (case position txid (m_funding_txids st) of
              None \<Rightarrow> Ok d
            | Some ind \<Rightarrow>
                bindo (index (m_funding_vouts st) ind) (\<lambda>vout.
                bindo (asserts (vout < bd_output_num d)) (\<lambda>_.
                Ok (d\<lparr>bd_changes := bd_changes d @ [FundingConfirmed (OutPoint txid vout)]\<rparr>)))) (\<lambda>d.
     Ok (case bd_closing_tx d of
           None \<Rightarrow> d
         | Some closing_tx \<Rightarrow>
             d\<lparr>bd_closing_tx := None,
               bd_changes := bd_changes d @ [ClosingConfirmed txid (closing_tx\<lparr>lock_time := locktime\<rparr>)]\<rparr>)))"

definition on_push :: "push_event \<Rightarrow> monitor_state \<Rightarrow> ('e, monitor_state) outcome" where
  "on_push e st =
     (case e of
        OnBlockStart h \<Rightarrow> Ok (on_block_start h st)
      | OnTransactionStart v \<Rightarrow> on_transaction_start v st
      | OnTransactionInput i \<Rightarrow> on_transaction_input i st
      | OnTransactionOutput out \<Rightarrow> on_transaction_output out st
      | OnTransactionEnd lt txid \<Rightarrow> on_transaction_end lt txid st
      | OnBlockEnd \<Rightarrow> Ok st)"

section \<open>Applying and reverting a block\<close>

definition is_funding_confirmed :: "state_change \<Rightarrow> bool" where
  "is_funding_confirmed c = (case c of FundingConfirmed _ \<Rightarrow> True | _ \<Rightarrow> False)"

type_synonym watch_changes = "outpoint list \<times> outpoint list"

definition first_input :: "transaction \<Rightarrow> ('e, outpoint) outcome" where
  "first_input tx = bindo (asserts (length (tx_inputs tx) = 1)) (\<lambda>_. Ok (previous_output (hd (tx_inputs tx))))"

definition apply_change ::
    "bool \<Rightarrow> state_change \<Rightarrow> monitor_state \<times> watch_changes \<Rightarrow> ('e, monitor_state \<times> watch_changes) outcome" where
  "apply_change have_funding_confirmed c = (\<lambda>(st, adds, removes).
     case c of
       FundingConfirmed outpoint \<Rightarrow>
         bindo (asserts (m_funding_double_spent_height st = None)) (\<lambda>_.
         Ok (st\<lparr>m_funding_height := Some (m_height st), m_funding_outpoint := Some outpoint\<rparr>,
             adds @ [outpoint], removes))
     | FundingDoubleSpent outpoint \<Rightarrow>
         bindo (if have_funding_confirmed then Ok st
                else bindo (asserts (m_funding_height st = None)) (\<lambda>_.
                  Ok (st\<lparr>m_funding_double_spent_height :=
                           or_else (m_funding_double_spent_height st) (Some (m_height st))\<rparr>))) (\<lambda>st.
         Ok (st, adds, removes @ [outpoint]))
     | ClosingConfirmed _ closing_tx \<Rightarrow>
         bindo (first_input closing_tx) (\<lambda>spent.
         Ok (st\<lparr>m_closing_height := Some (m_height st)\<rparr>, adds, removes @ [spent])))"

definition on_add_block_end :: "bytes \<Rightarrow> monitor_state \<Rightarrow> ('e, watch_changes \<times> monitor_state) outcome" where
  "on_add_block_end block_hash st =
     (if is_not_ready_for_push st then Ok (([], []), st)
      else bindo (unwrap (m_decode_state st)) (\<lambda>d.
           bindo (asserts (bd_block_hash d = block_hash)) (\<lambda>_.
           let st1 = st\<lparr>m_decode_state := None, m_saw_block := True, m_height := m_height st + 1\<rparr>
           in bindo (foldo (apply_change (list_ex is_funding_confirmed (bd_changes d))) (bd_changes d) (st1, [], []))
                (\<lambda>(st, adds, removes). Ok ((adds, removes), st)))))"

definition revert_change ::
    "bool \<Rightarrow> state_change \<Rightarrow> monitor_state \<times> watch_changes \<Rightarrow> ('e, monitor_state \<times> watch_changes) outcome" where
  "revert_change have_funding_confirmed c = (\<lambda>(st, adds, removes).
     case c of
       FundingConfirmed outpoint \<Rightarrow>
         bindo (asserts (m_funding_height st = Some (m_height st))) (\<lambda>_.
         Ok (st\<lparr>m_funding_height := None, m_funding_outpoint := None\<rparr>, adds @ [outpoint], removes))
     | FundingDoubleSpent outpoint \<Rightarrow>
         bindo (if have_funding_confirmed then Ok st
                else bindo (asserts (m_funding_double_spent_height st \<noteq> None)) (\<lambda>_.
                  Ok (if m_funding_double_spent_height st = Some (m_height st)
                      then st\<lparr>m_funding_double_spent_height := None\<rparr> else st))) (\<lambda>st.
         Ok (st, adds, removes @ [outpoint]))
     | ClosingConfirmed _ closing_tx \<Rightarrow>
         bindo (asserts (m_closing_height st = Some (m_height st))) (\<lambda>_.
         bindo (first_input closing_tx) (\<lambda>spent.
         Ok (st\<lparr>m_closing_height := None\<rparr>, adds, removes @ [spent]))))"

definition on_remove_block_end :: "bytes \<Rightarrow> monitor_state \<Rightarrow> ('e, watch_changes \<times> monitor_state) outcome" where
  "on_remove_block_end block_hash st =
     (if is_not_ready_for_push st then Ok (([], []), st)
      else bindo (unwrap (m_decode_state st)) (\<lambda>d.
           bindo (asserts (bd_block_hash d = block_hash)) (\<lambda>_.
           bindo (foldo (revert_change (list_ex is_funding_confirmed (bd_changes d)))
                    (bd_changes d) (st\<lparr>m_decode_state := None\<rparr>, [], [])) (\<lambda>(st, adds, removes).
           Ok ((adds, removes), st\<lparr>m_height := m_height st - 1\<rparr>)))))"

text \<open>A block that comes with its transactions is streamed to the state.\<close>

definition stream_transaction :: "lib \<Rightarrow> transaction \<Rightarrow> monitor_state \<Rightarrow> ('e, monitor_state) outcome" where
  "stream_transaction L tx st =
     bindo (on_transaction_start (tx_version tx) st) (\<lambda>st.
     bindo (foldo on_transaction_input (tx_inputs tx) st) (\<lambda>st.
     bindo (foldo on_transaction_output (tx_outputs tx) st) (\<lambda>st.
     on_transaction_end (lock_time tx) (lib_txid L tx) st)))"

definition on_add_block :: "lib \<Rightarrow> transaction list \<Rightarrow> bytes \<Rightarrow> monitor_state \<Rightarrow>
    ('e, watch_changes \<times> monitor_state) outcome" where
  "on_add_block L txs block_hash st =
     bindo (foldo (stream_transaction L) txs (on_block_start block_hash st)) (on_add_block_end block_hash)"

definition on_remove_block :: "lib \<Rightarrow> transaction list \<Rightarrow> bytes \<Rightarrow> monitor_state \<Rightarrow>
    ('e, watch_changes \<times> monitor_state) outcome" where
  "on_remove_block L txs block_hash st =
     bindo (foldo (stream_transaction L) txs (on_block_start block_hash st)) (on_remove_block_end block_hash)"

definition on_add_streamed_block :: "bytes \<Rightarrow> monitor_state \<Rightarrow> ('e, watch_changes \<times> monitor_state) outcome" where
  "on_add_streamed_block block_hash st = on_add_block_end block_hash st"

definition on_remove_streamed_block :: "bytes \<Rightarrow> monitor_state \<Rightarrow> ('e, watch_changes \<times> monitor_state) outcome" where
  "on_remove_streamed_block block_hash st = on_remove_block_end block_hash st"

section \<open>The changes of a block\<close>

definition tx_changes :: "lib \<Rightarrow> monitor_state \<Rightarrow> transaction \<Rightarrow> state_change list" where
  "tx_changes L st tx =
     map FundingDoubleSpent (filter (\<lambda>p. p \<in> m_funding_inputs st) (map previous_output (tx_inputs tx))) @
     (case position (lib_txid L tx) (m_funding_txids st) of
        None \<Rightarrow> []
      | Some ind \<Rightarrow> [FundingConfirmed (OutPoint (lib_txid L tx) (m_funding_vouts st ! ind))]) @
     (if \<exists>i \<in> set (tx_inputs tx). Some (previous_output i) = m_funding_outpoint st
      then [ClosingConfirmed (lib_txid L tx) tx] else [])"

definition tx_readable :: "lib \<Rightarrow> monitor_state \<Rightarrow> transaction \<Rightarrow> bool" where
  "tx_readable L st tx \<longleftrightarrow>
     (\<forall>ind. position (lib_txid L tx) (m_funding_txids st) = Some ind \<longrightarrow>
        ind < length (m_funding_vouts st) \<and> m_funding_vouts st ! ind < of_nat (length (tx_outputs tx))) \<and>
     ((\<exists>i \<in> set (tx_inputs tx). Some (previous_output i) = m_funding_outpoint st) \<longrightarrow>
        length (tx_inputs tx) = 1 \<and> length (tx_outputs tx) \<le> 600)"

lemmas event_defs = when_ready_def is_not_ready_for_push_def unwrap_def asserts_def

lemma input_step:
  assumes "m_decode_state st = Some d" and "bd_closing_tx d = None" and "Some (previous_output i) \<noteq> m_funding_outpoint st"
  shows "on_transaction_input i st = Ok (st\<lparr>m_decode_state := Some (d\<lparr>bd_changes := bd_changes d @
      (if previous_output i \<in> m_funding_inputs st then [FundingDoubleSpent (previous_output i)] else []),
      bd_input_num := bd_input_num d + 1\<rparr>)\<rparr>)"
  using assms by (simp add: on_transaction_input_def event_defs)

lemma output_step:
  assumes "m_decode_state st = Some d" and "bd_closing_tx d = None"
  shows "on_transaction_output x st = Ok (st\<lparr>m_decode_state := Some (d\<lparr>bd_output_num := bd_output_num d + 1\<rparr>)\<rparr>)"
  using assms by (simp add: on_transaction_output_def event_defs)

lemma output_closing_step:
  assumes "m_decode_state st = Some d" and "bd_closing_tx d = Some tx" and "bd_output_num d = of_nat k" and "k < 600"
  shows "on_transaction_output x st = Ok (st\<lparr>m_decode_state :=
      Some (d\<lparr>bd_closing_tx := Some (tx\<lparr>tx_outputs := tx_outputs tx @ [x]\<rparr>), bd_output_num := of_nat (Suc k)\<rparr>)\<rparr>)"
proof -
  have "(of_nat k :: u32) < 600" using assms(4) by (simp add: word_less_nat_alt unat_of_nat)
  then show ?thesis using assms
    by (simp add: on_transaction_output_def event_defs MAX_COMMITMENT_OUTPUTS_def add.commute)
qed

lemma inputs_no_closing:
  assumes "m_decode_state st = Some d" and "bd_closing_tx d = None"
    and "\<forall>i \<in> set ins. Some (previous_output i) \<noteq> m_funding_outpoint st"
  shows "foldo on_transaction_input ins st = Ok (st\<lparr>m_decode_state := Some (d\<lparr>bd_changes := bd_changes d @
      map FundingDoubleSpent (filter (\<lambda>p. p \<in> m_funding_inputs st) (map previous_output ins)),
      bd_input_num := bd_input_num d + of_nat (length ins)\<rparr>)\<rparr>)"
  using assms
proof (induction ins arbitrary: st d)
  case Nil
  then show ?case by simp
next
  case (Cons i ins)
  then show ?case
    by (simp add: input_step [of st d] algebra_simps
        Cons.IH [of _ "d\<lparr>bd_changes := _, bd_input_num := _\<rparr>"])
qed

lemma outputs_no_closing:
  assumes "m_decode_state st = Some d" and "bd_closing_tx d = None"
  shows "foldo on_transaction_output outs st =
    Ok (st\<lparr>m_decode_state := Some (d\<lparr>bd_output_num := bd_output_num d + of_nat (length outs)\<rparr>)\<rparr>)"
  using assms
proof (induction outs arbitrary: st d)
  case Nil
  then show ?case by simp
next
  case (Cons x outs)
  then show ?case
    by (simp add: output_step [of st d] Cons.IH [of _ "d\<lparr>bd_output_num := _\<rparr>"] algebra_simps)
qed

lemma outputs_closing:
  assumes "m_decode_state st = Some d" and "bd_closing_tx d = Some tx"
    and "bd_output_num d = of_nat k" and "k + length outs \<le> 600"
  shows "foldo on_transaction_output outs st =
    Ok (st\<lparr>m_decode_state := Some (d\<lparr>bd_closing_tx := Some (tx\<lparr>tx_outputs := tx_outputs tx @ outs\<rparr>),
      bd_output_num := of_nat (k + length outs)\<rparr>)\<rparr>)"
  using assms
proof (induction outs arbitrary: st d tx k)
  case Nil
  then show ?case by simp
next
  case (Cons x outs)
  then show ?case
    by (simp add: output_closing_step [of st d tx k] 
        Cons.IH [of _ "d\<lparr>bd_closing_tx := _, bd_output_num := _\<rparr>" _ "Suc k"] del: of_nat_Suc)
qed

lemma start_step:
  assumes "m_decode_state st = Some d"
  shows "on_transaction_start v st = Ok (st\<lparr>m_decode_state := Some (d\<lparr>bd_version := v, bd_input_num := 0,
      bd_output_num := 0, bd_closing_tx := None\<rparr>)\<rparr>)"
  using assms by (simp add: on_transaction_start_def event_defs)

lemma closing_input_step:
  assumes "m_decode_state st = Some d" and "Some (previous_output i) = m_funding_outpoint st" and "bd_input_num d = 0"
  shows "on_transaction_input i st = Ok (st\<lparr>m_decode_state := Some (d\<lparr>bd_changes := bd_changes d @
      map FundingDoubleSpent (filter (\<lambda>p. p \<in> m_funding_inputs st) [previous_output i]),
      bd_closing_tx := Some \<lparr>tx_version = bd_version d, lock_time = 0, tx_inputs = [i], tx_outputs = []\<rparr>,
      bd_input_num := 1\<rparr>)\<rparr>)"
  using assms by (simp add: on_transaction_input_def event_defs)

lemma end_step:
  assumes "m_decode_state st = Some d"
    and "\<And>ind. position txid (m_funding_txids st) = Some ind \<Longrightarrow>
      ind < length (m_funding_vouts st) \<and> m_funding_vouts st ! ind < bd_output_num d"
  shows "\<exists>d'. on_transaction_end lt txid st = (Ok (st\<lparr>m_decode_state := Some d'\<rparr>) :: ('e, _) outcome) \<and>
    bd_changes d' = bd_changes d @
      (case position txid (m_funding_txids st) of None \<Rightarrow> []
       | Some ind \<Rightarrow> [FundingConfirmed (OutPoint txid (m_funding_vouts st ! ind))]) @
      (case bd_closing_tx d of None \<Rightarrow> [] | Some c \<Rightarrow> [ClosingConfirmed txid (c\<lparr>lock_time := lt\<rparr>)]) \<and>
    bd_block_hash d' = bd_block_hash d"
proof (cases "position txid (m_funding_txids st)")
  case None
  then show ?thesis using assms(1)
    by (cases "bd_closing_tx d") (simp_all add: on_transaction_end_def event_defs, (rule exI, rule conjI, rule refl, simp)+)
next
  case (Some ind)
  then show ?thesis using assms
    by (cases "bd_closing_tx d") (simp_all add: on_transaction_end_def event_defs index_def, (rule exI, rule conjI, rule refl, simp)+)
qed

lemma stream_transaction_Ok:
  assumes d: "m_decode_state st = Some d" and ok: "tx_readable L st tx"
  shows "\<exists>d'. stream_transaction L tx st = (Ok (st\<lparr>m_decode_state := Some d'\<rparr>) :: ('e, _) outcome) \<and>
    bd_changes d' = bd_changes d @ tx_changes L st tx \<and> bd_block_hash d' = bd_block_hash d"
proof -
  let ?d0 = "d\<lparr>bd_version := tx_version tx, bd_input_num := 0, bd_output_num := 0, bd_closing_tx := None\<rparr>"
  let ?spent = "map FundingDoubleSpent (filter (\<lambda>p. p \<in> m_funding_inputs st) (map previous_output (tx_inputs tx)))"
  let ?closes = "\<exists>i \<in> set (tx_inputs tx). Some (previous_output i) = m_funding_outpoint st"
  let ?d1 = "d\<lparr>bd_version := tx_version tx, bd_closing_tx := (if ?closes then Some (tx\<lparr>lock_time := 0\<rparr>) else None),
    bd_changes := bd_changes d @ ?spent, bd_input_num := of_nat (length (tx_inputs tx)),
    bd_output_num := of_nat (length (tx_outputs tx))\<rparr>"
  have "(stream_transaction L tx st :: ('e, _) outcome) =
      on_transaction_end (lock_time tx) (lib_txid L tx) (st\<lparr>m_decode_state := Some ?d1\<rparr>)"
  proof (cases ?closes)
    case False
    then show ?thesis
      by (simp add: stream_transaction_def start_step [OF d] inputs_no_closing [of _ ?d0]
          outputs_no_closing [where d = "?d0\<lparr>bd_changes := _, bd_input_num := _\<rparr>"])
  next
    case True
    with ok obtain i where i: "tx_inputs tx = [i]" "Some (previous_output i) = m_funding_outpoint st"
      and outs: "length (tx_outputs tx) \<le> 600"
      by (auto simp: tx_readable_def length_Suc_conv)
    then show ?thesis using True
      by (simp add: stream_transaction_def start_step [OF d] closing_input_step [of _ ?d0]
          outputs_closing [where k = 0 and d = "?d0\<lparr>bd_changes := _, bd_closing_tx := _, bd_input_num := _\<rparr>"])
        (cases d; cases tx; simp)
  qed
  moreover have "tx\<lparr>lock_time := 0\<rparr>\<lparr>lock_time := lock_time tx\<rparr> = tx" by simp
  ultimately show ?thesis
    using end_step [where 'e = 'e, of "st\<lparr>m_decode_state := Some ?d1\<rparr>" ?d1 "lib_txid L tx" "lock_time tx"] ok
    by (cases ?closes) (simp_all add: tx_readable_def tx_changes_def cong: option.case_cong)
qed

definition block_changes :: "lib \<Rightarrow> monitor_state \<Rightarrow> transaction list \<Rightarrow> state_change list" where
  "block_changes L st txs = concat (map (tx_changes L st) txs)"

lemma tx_changes_frame [simp]:
  "tx_changes L (st\<lparr>m_decode_state := d\<rparr>) tx = tx_changes L st tx" "tx_readable L (st\<lparr>m_decode_state := d\<rparr>) tx = tx_readable L st tx"
  "tx_changes L (on_block_start h st) tx = tx_changes L st tx" "tx_readable L (on_block_start h st) tx = tx_readable L st tx"
  by (simp_all add: tx_changes_def tx_readable_def on_block_start_def cong: option.case_cong)

lemma block_changes_start [simp]: "block_changes L (on_block_start h st) txs = block_changes L st txs"
  by (simp add: block_changes_def cong: map_cong)

lemma stream_block_Ok:
  assumes "m_decode_state st = Some d" and "\<forall>tx \<in> set txs. tx_readable L st tx"
  shows "\<exists>d'. foldo (stream_transaction L) txs st = (Ok (st\<lparr>m_decode_state := Some d'\<rparr>) :: ('e, _) outcome) \<and>
    bd_changes d' = bd_changes d @ block_changes L st txs \<and> bd_block_hash d' = bd_block_hash d"
  using assms
proof (induction txs arbitrary: st d)
  case Nil
  then have "st = st\<lparr>m_decode_state := Some d\<rparr>" by simp
  then show ?case by (auto simp: block_changes_def)
next
  case (Cons tx txs)
  then obtain d1 where d1: "stream_transaction L tx st = (Ok (st\<lparr>m_decode_state := Some d1\<rparr>) :: ('e, _) outcome)"
    "bd_changes d1 = bd_changes d @ tx_changes L st tx" "bd_block_hash d1 = bd_block_hash d"
    using stream_transaction_Ok [of st d L tx] by auto
  with Cons.IH [of "st\<lparr>m_decode_state := Some d1\<rparr>" d1] Cons.prems show ?case
    by (auto simp: block_changes_def cong: map_cong)
qed

lemma stream_from_start:
  assumes "\<forall>tx \<in> set txs. tx_readable L st tx"
  shows "\<exists>d. foldo (stream_transaction L) txs (on_block_start h st) =
      (Ok (st\<lparr>m_saw_block := True, m_decode_state := Some d\<rparr>) :: ('e, _) outcome) \<and>
    bd_changes d = block_changes L st txs \<and> bd_block_hash d = h"
proof -
  let ?d = "\<lparr>bd_changes = [], bd_version = 0, bd_input_num = 0, bd_output_num = 0, bd_closing_tx = None, bd_block_hash = h\<rparr>"
  have "m_decode_state (on_block_start h st) = Some ?d" by (simp add: on_block_start_def)
  from stream_block_Ok [OF this, of txs L] assms obtain d where
    "foldo (stream_transaction L) txs (on_block_start h st) =
      (Ok ((on_block_start h st)\<lparr>m_decode_state := Some d\<rparr>) :: ('e, _) outcome)"
    "bd_changes d = block_changes L st txs" "bd_block_hash d = h" by auto
  then show ?thesis by (auto simp: on_block_start_def)
qed

lemma on_add_block_eq:
  assumes "\<forall>tx \<in> set txs. tx_readable L st tx"
  shows "(on_add_block L txs h st :: ('e, _) outcome) = bindo (foldo (apply_change (list_ex is_funding_confirmed (block_changes L st txs)))
      (block_changes L st txs) (st\<lparr>m_decode_state := None, m_saw_block := True, m_height := m_height st + 1\<rparr>, [], []))
      (\<lambda>(st, adds, removes). Ok ((adds, removes), st))"
  using stream_from_start [where 'e = 'e, OF assms, of h]
  by (auto simp: on_add_block_def on_add_block_end_def event_defs on_block_start_def)

lemma on_remove_block_eq:
  assumes "\<forall>tx \<in> set txs. tx_readable L st tx"
  shows "(on_remove_block L txs h st :: ('e, _) outcome) = bindo (foldo (revert_change (list_ex is_funding_confirmed (block_changes L st txs)))
      (block_changes L st txs) (st\<lparr>m_saw_block := True, m_decode_state := None\<rparr>, [], []))
      (\<lambda>(st, adds, removes). Ok ((adds, removes), st\<lparr>m_height := m_height st - 1\<rparr>))"
  using stream_from_start [where 'e = 'e, OF assms, of h]
  by (auto simp: on_remove_block_def on_remove_block_end_def event_defs on_block_start_def)

section \<open>Folding the changes\<close>

definition adds_of :: "state_change list \<Rightarrow> outpoint list" where
  "adds_of cs = concat (map (\<lambda>c. case c of FundingConfirmed p \<Rightarrow> [p] | _ \<Rightarrow> []) cs)"

definition removes_of :: "state_change list \<Rightarrow> outpoint list" where
  "removes_of cs = concat (map (\<lambda>c. case c of FundingConfirmed _ \<Rightarrow> [] | FundingDoubleSpent p \<Rightarrow> [p]
     | ClosingConfirmed _ tx \<Rightarrow> [previous_output (hd (tx_inputs tx))]) cs)"

lemma apply_confirming:
  assumes "\<forall>c \<in> set cs. (\<exists>p. c = FundingDoubleSpent p) \<or> c = FundingConfirmed F"
    and "m_funding_double_spent_height st = None"
  shows "foldo (apply_change True) cs (st, adds, removes) =
    Ok (if FundingConfirmed F \<in> set cs
        then st\<lparr>m_funding_height := Some (m_height st), m_funding_outpoint := Some F\<rparr> else st,
        adds @ adds_of cs, removes @ removes_of cs)"
  using assms
proof (induction cs arbitrary: st adds removes)
  case Nil
  then show ?case by (simp add: adds_of_def removes_of_def)
next
  case (Cons c cs)
  then consider p where "c = FundingDoubleSpent p" | "c = FundingConfirmed F" by auto
  then show ?case
    using Cons by cases (simp_all add: apply_change_def asserts_def adds_of_def removes_of_def)
qed

lemma revert_confirming:
  assumes "\<forall>c \<in> set cs. (\<exists>p. c = FundingDoubleSpent p) \<or> c = FundingConfirmed F"
    and "count_list cs (FundingConfirmed F) \<le> 1"
    and "FundingConfirmed F \<in> set cs \<Longrightarrow> m_funding_height st = Some (m_height st)"
  shows "foldo (revert_change True) cs (st, adds, removes) =
    Ok (if FundingConfirmed F \<in> set cs then st\<lparr>m_funding_height := None, m_funding_outpoint := None\<rparr> else st,
        adds @ adds_of cs, removes @ removes_of cs)"
  using assms
proof (induction cs arbitrary: st adds removes)
  case Nil
  then show ?case by (simp add: adds_of_def removes_of_def)
next
  case (Cons c cs)
  show ?case
  proof (cases "c = FundingConfirmed F")
    case True
    then have "FundingConfirmed F \<notin> set cs" using Cons.prems(2) by (simp add: count_list_0_iff)
    then show ?thesis using Cons True by (simp add: revert_change_def asserts_def adds_of_def removes_of_def)
  next
    case False
    with Cons.prems(1) obtain p where "c = FundingDoubleSpent p" by auto
    then show ?thesis using Cons by (simp add: revert_change_def adds_of_def removes_of_def)
  qed
qed

section \<open>The chain a monitor follows\<close>

text \<open>
  A chain is the list of its blocks since the monitor was created, oldest first, and a block the
  list of its transactions.  \<open>t\<close> and \<open>v\<close> are the funding transaction and output, \<open>I\<close> the inputs of
  the funding transaction.
\<close>

definition confirms :: "lib \<Rightarrow> bytes \<Rightarrow> transaction list \<Rightarrow> bool" where
  "confirms L t b \<longleftrightarrow> t \<in> lib_txid L ` set b"

definition spent :: "outpoint set \<Rightarrow> transaction list \<Rightarrow> outpoint list" where
  "spent P b = concat (map (\<lambda>tx. filter (\<lambda>p. p \<in> P) (map previous_output (tx_inputs tx))) b)"

text \<open>
  What a block on top of a chain has to satisfy: a transaction is in a chain at most once and an
  output is spent at most once, after it was created; the funding output is spent by a closing or
  commitment transaction, with one input and at most 600 outputs.  Two conditions are not rules of the
  chain: the funding output is not spent in the block that creates it, and a block that double
  spends funding inputs spends one of them only.
\<close>

definition block_fits :: "lib \<Rightarrow> bytes \<Rightarrow> u32 \<Rightarrow> outpoint set \<Rightarrow> transaction list list \<Rightarrow> transaction list \<Rightarrow> bool" where
  "block_fits L t v I bs b \<longleftrightarrow>
     (confirms L t b \<longrightarrow> (\<forall>b' \<in> set bs. \<not> confirms L t b' \<and> spent I b' = []) \<and> spent {OutPoint t v} b = [] \<and>
        count_list (map (lib_txid L) b) t = 1 \<and>
        (\<forall>tx \<in> set b. lib_txid L tx = t \<longrightarrow> unat v < length (tx_outputs tx) \<and> length (tx_outputs tx) < 2 ^ 32)) \<and>
     (spent {OutPoint t v} b \<noteq> [] \<longrightarrow> (\<exists>b' \<in> set bs. confirms L t b') \<and>
        (\<forall>b' \<in> set bs. spent {OutPoint t v} b' = []) \<and> length (spent {OutPoint t v} b) = 1 \<and>
        (\<forall>tx \<in> set b. (\<exists>i \<in> set (tx_inputs tx). previous_output i = OutPoint t v) \<longrightarrow>
           length (tx_inputs tx) = 1 \<and> length (tx_outputs tx) \<le> 600)) \<and>
     (spent I b \<noteq> [] \<and> \<not> confirms L t b \<longrightarrow> (\<forall>b' \<in> set bs. \<not> confirms L t b') \<and> length (spent I b) = 1)"

text \<open>The height of the first block of a chain on \<open>h0\<close> with a property.\<close>

definition height_of :: "u32 \<Rightarrow> (transaction list \<Rightarrow> bool) \<Rightarrow> transaction list list \<Rightarrow> u32 option" where
  "height_of h0 P bs = map_option (\<lambda>k. h0 + of_nat k + 1) (position True (map P bs))"

definition tracks_chain :: "lib \<Rightarrow> bytes \<Rightarrow> u32 \<Rightarrow> outpoint set \<Rightarrow> u32 \<Rightarrow> transaction list list \<Rightarrow> monitor_state \<Rightarrow> bool" where
  "tracks_chain L t v I h0 bs st \<longleftrightarrow>
     m_height st = h0 + of_nat (length bs) \<and> m_funding_txids st = [t] \<and> m_funding_vouts st = [v] \<and>
     m_funding_inputs st = I \<and> m_decode_state st = None \<and>
     m_funding_height st = height_of h0 (confirms L t) bs \<and>
     m_funding_outpoint st = (if \<exists>b \<in> set bs. confirms L t b then Some (OutPoint t v) else None) \<and>
     m_closing_height st = height_of h0 (\<lambda>b. spent {OutPoint t v} b \<noteq> []) bs \<and>
     m_funding_double_spent_height st =
       (if \<exists>b \<in> set bs. confirms L t b then None else height_of h0 (\<lambda>b. spent I b \<noteq> []) bs)"

lemma position_None_iff: "position x xs = None \<longleftrightarrow> x \<notin> set xs"
  by (induction xs) auto

lemma position_append: "position x (xs @ ys) =
    (case position x xs of Some k \<Rightarrow> Some k | None \<Rightarrow> map_option (\<lambda>k. length xs + k) (position x ys))"
  by (induction xs) (cases "position x ys"; auto split: option.split)+

lemma height_of_snoc:
  "height_of h0 P (bs @ [b]) = (if \<exists>b \<in> set bs. P b then height_of h0 P bs
     else if P b then Some (h0 + of_nat (length bs) + 1) else None)"
proof -
  have "(position True (map P bs) = None) \<longleftrightarrow> \<not> (\<exists>b \<in> set bs. P b)" by (auto simp: position_None_iff)
  then show ?thesis by (auto simp: height_of_def position_append split: option.split)
qed

lemma height_of_snoc_not [simp]: "\<not> P b \<Longrightarrow> height_of h0 P (bs @ [b]) = height_of h0 P bs"
  by (auto simp: height_of_def position_append split: option.split)

lemma height_of_snoc_first: "P b \<Longrightarrow> \<forall>b \<in> set bs. \<not> P b \<Longrightarrow> height_of h0 P (bs @ [b]) = Some (h0 + (of_nat (length bs) + 1))"
  by (simp add: height_of_snoc add.assoc)

lemma height_of_None: "height_of h0 P bs = None \<longleftrightarrow> \<not> (\<exists>b \<in> set bs. P b)"
  by (auto simp: height_of_def position_None_iff)

definition follows :: "bytes \<Rightarrow> u32 \<Rightarrow> outpoint set \<Rightarrow> monitor_state \<Rightarrow> bool" where
  "follows t v I st \<longleftrightarrow> m_funding_txids st = [t] \<and> m_funding_vouts st = [v] \<and> m_funding_inputs st = I \<and>
     (m_funding_outpoint st = None \<or> m_funding_outpoint st = Some (OutPoint t v))"

lemma spent_empty_iff: "spent P b = [] \<longleftrightarrow> (\<forall>tx \<in> set b. \<forall>i \<in> set (tx_inputs tx). previous_output i \<notin> P)"
  by (auto simp: spent_def filter_empty_conv)

lemma spent_singleton:
  assumes "length (spent {p} b) = 1"
  shows "spent {p} b = [p]"
proof -
  have "set (spent {p} b) \<subseteq> {p}" by (auto simp: spent_def)
  with assms show ?thesis by (auto simp: length_Suc_conv)
qed

lemma spent_Cons: "spent P (tx # b) = filter (\<lambda>p. p \<in> P) (map previous_output (tx_inputs tx)) @ spent P b"
  by (simp add: spent_def)

lemma confirms_Cons: "confirms L t (tx # b) \<longleftrightarrow> lib_txid L tx = t \<or> confirms L t b"
  by (auto simp: confirms_def)

lemma no_closing:
  assumes "follows t v I st" and "m_funding_outpoint st = None \<or> spent {OutPoint t v} b = []" and "tx \<in> set b"
  shows "tx_changes L st tx = map FundingDoubleSpent (filter (\<lambda>p. p \<in> I) (map previous_output (tx_inputs tx))) @
     (if lib_txid L tx = t then [FundingConfirmed (OutPoint t v)] else [])"
  using assms by (auto simp: tx_changes_def follows_def spent_empty_iff)

lemma changes_plain:
  assumes "follows t v I st" and "m_funding_outpoint st = None \<or> spent {OutPoint t v} b = []" and "\<not> confirms L t b"
  shows "block_changes L st b = map FundingDoubleSpent (spent I b)"
  using assms
proof (induction b)
  case Nil
  then show ?case by (simp add: block_changes_def spent_def)
next
  case (Cons tx b)
  then show ?case
    using no_closing [OF Cons.prems(1,2), of tx] by (auto simp: block_changes_def spent_Cons confirms_Cons)
qed

lemma changes_confirming:
  assumes "follows t v I st" and "m_funding_outpoint st = None \<or> spent {OutPoint t v} b = []"
  shows "\<forall>c \<in> set (block_changes L st b). (\<exists>p. c = FundingDoubleSpent p) \<or> c = FundingConfirmed (OutPoint t v)"
    and "count_list (block_changes L st b) (FundingConfirmed (OutPoint t v)) = count_list (map (lib_txid L) b) t"
    and "adds_of (block_changes L st b) = replicate (count_list (map (lib_txid L) b) t) (OutPoint t v)"
    and "removes_of (block_changes L st b) = spent I b"
  using assms
proof (induction b)
  case Nil
  {
    case 1
    then show ?case by (simp add: block_changes_def)
  next
    case 2
    then show ?case by (simp add: block_changes_def)
  next
    case 3
    then show ?case by (simp add: block_changes_def adds_of_def)
  next
    case 4
    then show ?case by (simp add: block_changes_def removes_of_def spent_def)
  }
next
  case (Cons tx b)
  have count: "count_list (map FundingDoubleSpent ps) (FundingConfirmed q) = 0"
    and adds: "adds_of (map FundingDoubleSpent ps) = []" and removes: "removes_of (map FundingDoubleSpent ps) = ps" for ps q
    by (induction ps) (simp_all add: adds_of_def removes_of_def)
  have append: "adds_of (xs @ ys) = adds_of xs @ adds_of ys" "removes_of (xs @ ys) = removes_of xs @ removes_of ys" for xs ys
    by (simp_all add: adds_of_def removes_of_def)
  have one: "adds_of [FundingConfirmed q] = [q]" "removes_of [FundingConfirmed q] = []" "adds_of [] = []" "removes_of [] = []" for q
    by (simp_all add: adds_of_def removes_of_def)
  have step: "block_changes L st (tx # b) = tx_changes L st tx @ block_changes L st b"
    by (simp add: block_changes_def)
  {
    case 1
    with Cons.IH(1) no_closing [OF 1, of tx L] show ?case by (auto simp: step spent_Cons)
  next
    case 2
    with Cons.IH(2) no_closing [OF 2, of tx L] show ?case by (auto simp: step spent_Cons count)
  next
    case 3
    with Cons.IH(3) no_closing [OF 3, of tx L] show ?case by (auto simp: step spent_Cons append one adds)
  next
    case 4
    with Cons.IH(4) no_closing [OF 4, of tx L] show ?case by (auto simp: step spent_Cons append one removes)
  }
qed

lemma changes_closing:
  assumes "follows t v I st" and "m_funding_outpoint st = Some (OutPoint t v)" and "\<not> confirms L t b"
    and "spent I b = []" and "length (spent {OutPoint t v} b) = 1"
    and "\<forall>tx \<in> set b. (\<exists>i \<in> set (tx_inputs tx). previous_output i = OutPoint t v) \<longrightarrow> length (tx_inputs tx) = 1"
  shows "\<exists>tx i. block_changes L st b = [ClosingConfirmed (lib_txid L tx) tx] \<and> tx_inputs tx = [i] \<and> previous_output i = OutPoint t v"
  using assms
proof (induction b)
  case Nil
  then show ?case by (simp add: spent_def)
next
  case (Cons tx b)
  have step: "block_changes L st (tx # b) = tx_changes L st tx @ block_changes L st b"
    by (simp add: block_changes_def)
  show ?case
  proof (cases "\<exists>i \<in> set (tx_inputs tx). previous_output i = OutPoint t v")
    case True
    with Cons.prems(6) obtain i where i: "tx_inputs tx = [i]" "previous_output i = OutPoint t v"
      by (auto simp: length_Suc_conv)
    with Cons.prems(5) have "spent {OutPoint t v} b = []" by (simp add: spent_Cons)
    moreover have "spent I b = []" "\<not> confirms L t b" using Cons.prems by (simp_all add: spent_Cons confirms_Cons)
    ultimately have "block_changes L st b = []" using changes_plain [OF Cons.prems(1), of b L] by simp
    moreover have "tx_changes L st tx = [ClosingConfirmed (lib_txid L tx) tx]"
      using Cons.prems i by (auto simp: tx_changes_def follows_def spent_Cons confirms_Cons)
    ultimately show ?thesis using i by (simp add: step)
  next
    case False
    then have none: "tx_changes L st tx = []" and same: "spent {OutPoint t v} (tx # b) = spent {OutPoint t v} b"
      using Cons.prems by (auto simp: tx_changes_def follows_def spent_Cons confirms_Cons filter_empty_conv)
    have "length (spent {OutPoint t v} b) = 1" using Cons.prems(5) unfolding same .
    moreover have "\<not> confirms L t b" "spent I b = []" using Cons.prems by (simp_all add: spent_Cons confirms_Cons)
    ultimately show ?thesis using Cons.IH [OF Cons.prems(1,2)] Cons.prems(6) none by (simp add: step)
  qed
qed

definition watch_delta :: "lib \<Rightarrow> bytes \<Rightarrow> u32 \<Rightarrow> outpoint set \<Rightarrow> transaction list \<Rightarrow> watch_changes" where
  "watch_delta L t v I b = (if confirms L t b then [OutPoint t v] else [], spent I b @ spent {OutPoint t v} b)"

lemma block_readable:
  assumes "follows t v I st" and "block_fits L t v I bs b"
  shows "\<forall>tx \<in> set b. tx_readable L st tx"
proof
  fix tx
  assume tx: "tx \<in> set b"
  have "v < of_nat (length (tx_outputs tx))" if "lib_txid L tx = t"
  proof -
    have "confirms L t b" using tx that by (auto simp: confirms_def)
    with assms(2) tx that have "unat v < length (tx_outputs tx)" "length (tx_outputs tx) < 2 ^ 32"
      by (auto simp: block_fits_def)
    then show ?thesis by (simp add: word_less_nat_alt unat_of_nat)
  qed
  moreover have "length (tx_inputs tx) = 1 \<and> length (tx_outputs tx) \<le> 600"
    if "\<exists>i \<in> set (tx_inputs tx). previous_output i = OutPoint t v"
  proof -
    have "spent {OutPoint t v} b \<noteq> []" using tx that by (auto simp: spent_empty_iff)
    with assms(2) tx that show ?thesis by (simp add: block_fits_def)
  qed
  ultimately show "tx_readable L st tx"
    using assms(1) by (auto simp: tx_readable_def follows_def split: if_splits) blast+
qed

lemma tracks_follows: "tracks_chain L t v I h0 bs st \<Longrightarrow> follows t v I st"
  by (simp add: tracks_chain_def follows_def)

lemma changes_confirm_iff:
  assumes "follows t v I st" and "m_funding_outpoint st = None \<or> spent {OutPoint t v} b = []" and "confirms L t b"
  shows "list_ex is_funding_confirmed (block_changes L st b)" and "FundingConfirmed (OutPoint t v) \<in> set (block_changes L st b)"
proof -
  have "count_list (map (lib_txid L) b) t \<noteq> 0" using assms(3) by (auto simp: count_list_0_iff confirms_def)
  then show *: "FundingConfirmed (OutPoint t v) \<in> set (block_changes L st b)"
    using changes_confirming(2) [OF assms(1,2), of L] by (metis count_notin)
  then show "list_ex is_funding_confirmed (block_changes L st b)"
    by (auto simp: list_ex_iff is_funding_confirmed_def intro!: bexI [OF _ *])
qed

lemma confirming_block:
  assumes "block_fits L t v I bs b" and "confirms L t b"
  shows "spent {OutPoint t v} b = []" and "\<forall>b' \<in> set bs. \<not> confirms L t b' \<and> spent I b' = []"
    and "count_list (map (lib_txid L) b) t = 1"
  using assms by (auto simp: block_fits_def)

lemma closing_block:
  assumes fits: "block_fits L t v I bs b" and close: "\<not> confirms L t b" "spent {OutPoint t v} b \<noteq> []"
    and "follows t v I st" and "(\<exists>b' \<in> set bs. confirms L t b') \<Longrightarrow> m_funding_outpoint st = Some (OutPoint t v)"
  shows "\<exists>b' \<in> set bs. confirms L t b'" and "\<forall>b' \<in> set bs. spent {OutPoint t v} b' = []" and "spent I b = []"
    and "spent {OutPoint t v} b = [OutPoint t v]"
    and "\<exists>tx i. block_changes L st b = [ClosingConfirmed (lib_txid L tx) tx] \<and> tx_inputs tx = [i] \<and>
      previous_output i = OutPoint t v"
proof -
  have c: "length (spent {OutPoint t v} b) = 1"
    "\<forall>tx \<in> set b. (\<exists>i \<in> set (tx_inputs tx). previous_output i = OutPoint t v) \<longrightarrow> length (tx_inputs tx) = 1"
    using fits close by (auto simp: block_fits_def)
  show "spent {OutPoint t v} b = [OutPoint t v]" by (rule spent_singleton [OF c(1)])
  show before: "\<exists>b' \<in> set bs. confirms L t b'" and "\<forall>b' \<in> set bs. spent {OutPoint t v} b' = []" and none: "spent I b = []"
    using fits close by (auto simp: block_fits_def)
  show "\<exists>tx i. block_changes L st b = [ClosingConfirmed (lib_txid L tx) tx] \<and> tx_inputs tx = [i] \<and>
      previous_output i = OutPoint t v"
    using changes_closing [OF assms(4) assms(5) [OF before] close(1) none c] .
qed

lemma double_spending_block:
  assumes "block_fits L t v I bs b" and "\<not> confirms L t b" and "spent I b \<noteq> []"
  obtains p where "spent I b = [p]" and "\<forall>b' \<in> set bs. \<not> confirms L t b'"
  using assms by (auto simp: block_fits_def length_Suc_conv)

lemma add_confirming:
  assumes tracks: "tracks_chain L t v I h0 bs st" and fits: "block_fits L t v I bs b" and confirm: "confirms L t b"
  shows "\<exists>st'. on_add_block L b h st = (Ok (watch_delta L t v I b, st') :: ('e, _) outcome) \<and>
    tracks_chain L t v I h0 (bs @ [b]) st' \<and> m_saw_block st'"
proof -
  note follows = tracks_follows [OF tracks]
  note c = confirming_block [OF fits confirm]
  have none: "m_funding_double_spent_height st = None" using tracks c by (auto simp: tracks_chain_def height_of_None)
  note ch = changes_confirming [OF follows disjI2 [OF c(1)], of L]
  note fc = changes_confirm_iff [OF follows disjI2 [OF c(1)] confirm]
  have "on_add_block L b h st = (Ok (([OutPoint t v], spent I b), st\<lparr>m_decode_state := None, m_saw_block := True,
      m_height := m_height st + 1, m_funding_height := Some (m_height st + 1), m_funding_outpoint := Some (OutPoint t v)\<rparr>) :: ('e, _) outcome)"
    using fc c(3) none
    by (simp add: on_add_block_eq [OF block_readable [OF follows fits]] apply_confirming [OF ch(1)] ch(3,4))
  then show ?thesis using tracks confirm c none
    by (simp add: watch_delta_def tracks_chain_def height_of_snoc_first add.assoc)
qed

lemma add_closing:
  assumes tracks: "tracks_chain L t v I h0 bs st" and fits: "block_fits L t v I bs b"
    and close: "\<not> confirms L t b" "spent {OutPoint t v} b \<noteq> []"
  shows "\<exists>st'. on_add_block L b h st = (Ok (watch_delta L t v I b, st') :: ('e, _) outcome) \<and>
    tracks_chain L t v I h0 (bs @ [b]) st' \<and> m_saw_block st'"
proof -
  note follows = tracks_follows [OF tracks]
  note c = closing_block [OF fits close follows]
  have out: "m_funding_outpoint st = Some (OutPoint t v)" if "\<exists>b' \<in> set bs. confirms L t b'"
    using tracks that by (simp add: tracks_chain_def)
  obtain tx i where ch: "block_changes L st b = [ClosingConfirmed (lib_txid L tx) tx]" "tx_inputs tx = [i]"
    "previous_output i = OutPoint t v" using c(5) [OF out] by blast
  have "on_add_block L b h st = (Ok (([], [OutPoint t v]), st\<lparr>m_decode_state := None, m_saw_block := True,
      m_height := m_height st + 1, m_closing_height := Some (m_height st + 1)\<rparr>) :: ('e, _) outcome)"
    using ch(2,3) by (simp add: on_add_block_eq [OF block_readable [OF follows fits]] ch(1) apply_change_def
        first_input_def asserts_def is_funding_confirmed_def)
  then show ?thesis using tracks close c(1-4) [OF out]
    by (simp add: watch_delta_def tracks_chain_def height_of_snoc_first add.assoc)
qed

lemma add_plain:
  assumes tracks: "tracks_chain L t v I h0 bs st" and fits: "block_fits L t v I bs b"
    and plain: "\<not> confirms L t b" "spent {OutPoint t v} b = []"
  shows "\<exists>st'. on_add_block L b h st = (Ok (watch_delta L t v I b, st') :: ('e, _) outcome) \<and>
    tracks_chain L t v I h0 (bs @ [b]) st' \<and> m_saw_block st'"
proof -
  note follows = tracks_follows [OF tracks]
  note eq = on_add_block_eq [where 'e = 'e, OF block_readable [OF follows fits], of h]
  note ch = changes_plain [OF follows disjI2 [OF plain(2)] plain(1)]
  show ?thesis
  proof (cases "spent I b = []")
    case True
    then show ?thesis using tracks plain by (simp add: eq ch watch_delta_def tracks_chain_def add.assoc)
  next
    case False
    then obtain p where one: "spent I b = [p]" "\<forall>b' \<in> set bs. \<not> confirms L t b'"
      using double_spending_block [OF fits plain(1)] by blast
    then have "m_funding_height st = None" using tracks by (auto simp: tracks_chain_def height_of_None)
    then have "on_add_block L b h st = (Ok (([], [p]), st\<lparr>m_decode_state := None, m_saw_block := True,
        m_height := m_height st + 1, m_funding_double_spent_height :=
          or_else (m_funding_double_spent_height st) (Some (m_height st + 1))\<rparr>) :: ('e, _) outcome)"
      by (simp add: eq ch one apply_change_def is_funding_confirmed_def asserts_def)
    moreover have "height_of h0 (\<lambda>b. spent I b \<noteq> []) (bs @ [b]) =
        or_else (height_of h0 (\<lambda>b. spent I b \<noteq> []) bs) (Some (h0 + (of_nat (length bs) + 1)))"
      using one by (auto simp: height_of_def position_append or_else_def add.assoc split: option.split)
    ultimately show ?thesis using tracks plain one
      by (simp add: watch_delta_def tracks_chain_def add.assoc)
  qed
qed

lemma add_refines:
  assumes "tracks_chain L t v I h0 bs st" and "block_fits L t v I bs b"
  shows "\<exists>st'. on_add_block L b h st = (Ok (watch_delta L t v I b, st') :: ('e, _) outcome) \<and>
    tracks_chain L t v I h0 (bs @ [b]) st' \<and> m_saw_block st'"
  using add_confirming [OF assms] add_closing [OF assms] add_plain [OF assms] by blast

lemma position_less: "position x xs = Some k \<Longrightarrow> k < length xs"
  by (induction xs arbitrary: k) (auto split: if_splits)

lemma height_of_fresh:
  assumes "length bs < 2 ^ 32"
  shows "height_of h0 P bs \<noteq> Some (h0 + (of_nat (length bs) + 1))"
proof
  assume "height_of h0 P bs = Some (h0 + (of_nat (length bs) + 1))"
  then obtain k where k: "position True (map P bs) = Some k" "(of_nat k :: u32) = of_nat (length bs)"
    by (auto simp: height_of_def add.assoc)
  then have "k < length bs" using position_less by fastforce
  with k(2) assms show False by (simp add: word_unat_eq_iff unat_of_nat)
qed

lemma remove_confirming:
  assumes tracks: "tracks_chain L t v I h0 (bs @ [b]) st" and fits: "block_fits L t v I bs b" and confirm: "confirms L t b"
  shows "\<exists>st'. on_remove_block L b h st = (Ok (watch_delta L t v I b, st') :: ('e, _) outcome) \<and>
    tracks_chain L t v I h0 bs st' \<and> m_saw_block st'"
proof -
  note follows = tracks_follows [OF tracks]
  note c = confirming_block [OF fits confirm]
  have top: "m_funding_height st = Some (m_height st)"
    using tracks confirm c by (simp add: tracks_chain_def height_of_snoc_first)
  note ch = changes_confirming [OF follows disjI2 [OF c(1)], of L]
  note fc = changes_confirm_iff [OF follows disjI2 [OF c(1)] confirm]
  have "on_remove_block L b h st = (Ok (([OutPoint t v], spent I b), st\<lparr>m_saw_block := True, m_decode_state := None,
      m_funding_height := None, m_funding_outpoint := None, m_height := m_height st - 1\<rparr>) :: ('e, _) outcome)"
    using fc c(3) top
    by (simp add: on_remove_block_eq [OF block_readable [OF follows fits]] revert_confirming [OF ch(1)] ch(2-4))
  then show ?thesis using tracks confirm c height_of_None [of h0 "confirms L t" bs] height_of_None [of h0 "\<lambda>b. spent I b \<noteq> []" bs]
    by (simp add: watch_delta_def tracks_chain_def)
qed

lemma remove_closing:
  assumes tracks: "tracks_chain L t v I h0 (bs @ [b]) st" and fits: "block_fits L t v I bs b"
    and close: "\<not> confirms L t b" "spent {OutPoint t v} b \<noteq> []"
  shows "\<exists>st'. on_remove_block L b h st = (Ok (watch_delta L t v I b, st') :: ('e, _) outcome) \<and>
    tracks_chain L t v I h0 bs st' \<and> m_saw_block st'"
proof -
  note follows = tracks_follows [OF tracks]
  have out: "m_funding_outpoint st = Some (OutPoint t v)" if "\<exists>b' \<in> set bs. confirms L t b'"
    using tracks that by (simp add: tracks_chain_def)
  note c = closing_block [OF fits close follows out]
  obtain tx i where ch: "block_changes L st b = [ClosingConfirmed (lib_txid L tx) tx]" "tx_inputs tx = [i]"
    "previous_output i = OutPoint t v" using c(5) by blast
  have top: "m_closing_height st = Some (m_height st)"
    using tracks close(2) c(2) by (simp add: tracks_chain_def height_of_snoc_first)
  have "on_remove_block L b h st = (Ok (([], [OutPoint t v]), st\<lparr>m_saw_block := True, m_decode_state := None,
      m_closing_height := None, m_height := m_height st - 1\<rparr>) :: ('e, _) outcome)"
    using ch(2,3) top by (simp add: on_remove_block_eq [OF block_readable [OF follows fits]] ch(1) revert_change_def
        first_input_def asserts_def is_funding_confirmed_def)
  then show ?thesis using tracks close c(1-4) height_of_None [of h0 "\<lambda>b. spent {OutPoint t v} b \<noteq> []" bs]
    by (simp add: watch_delta_def tracks_chain_def)
qed

lemma remove_plain:
  assumes tracks: "tracks_chain L t v I h0 (bs @ [b]) st" and fits: "block_fits L t v I bs b"
    and plain: "\<not> confirms L t b" "spent {OutPoint t v} b = []" and short: "length bs < 2 ^ 32"
  shows "\<exists>st'. on_remove_block L b h st = (Ok (watch_delta L t v I b, st') :: ('e, _) outcome) \<and>
    tracks_chain L t v I h0 bs st' \<and> m_saw_block st'"
proof -
  note follows = tracks_follows [OF tracks]
  note eq = on_remove_block_eq [where 'e = 'e, OF block_readable [OF follows fits], of h]
  note ch = changes_plain [OF follows disjI2 [OF plain(2)] plain(1)]
  show ?thesis
  proof (cases "spent I b = []")
    case True
    then show ?thesis using tracks plain by (simp add: eq ch watch_delta_def tracks_chain_def)
  next
    case False
    then obtain p where one: "spent I b = [p]" "\<forall>b' \<in> set bs. \<not> confirms L t b'"
      using double_spending_block [OF fits plain(1)] by blast
    let ?H = "height_of h0 (\<lambda>b. spent I b \<noteq> []) bs"
    have ds: "m_funding_double_spent_height st = or_else ?H (Some (m_height st))" "?H \<noteq> Some (m_height st)"
      using tracks plain one height_of_fresh [OF short]
      by (auto simp: tracks_chain_def height_of_def position_append or_else_def add.assoc split: option.split)
    have "on_remove_block L b h st = (Ok (([], [p]), st\<lparr>m_saw_block := True, m_decode_state := None,
        m_funding_double_spent_height := ?H, m_height := m_height st - 1\<rparr>) :: ('e, _) outcome)"
      using ds by (cases ?H) (auto simp: eq ch one revert_change_def is_funding_confirmed_def asserts_def or_else_def)
    then show ?thesis using tracks plain one by (simp add: watch_delta_def tracks_chain_def)
  qed
qed

lemma remove_refines:
  assumes "tracks_chain L t v I h0 (bs @ [b]) st" and "block_fits L t v I bs b" and "length bs < 2 ^ 32"
  shows "\<exists>st'. on_remove_block L b h st = (Ok (watch_delta L t v I b, st') :: ('e, _) outcome) \<and>
    tracks_chain L t v I h0 bs st' \<and> m_saw_block st'"
  using remove_confirming [OF assms(1,2)] remove_closing [OF assms(1,2)] remove_plain [OF assms(1,2) _ _ assms(3)] by blast

lemma add_then_remove:
  assumes tracks: "tracks_chain L t v I h0 bs st" and fits: "block_fits L t v I bs b" and short: "length bs < 2 ^ 32"
  shows "\<exists>st'. on_add_block L b h st = (Ok (watch_delta L t v I b, st') :: ('e, _) outcome) \<and>
    on_remove_block L b h' st' = (Ok (watch_delta L t v I b, st\<lparr>m_saw_block := True\<rparr>) :: ('e, _) outcome)"
proof -
  obtain st' where st': "on_add_block L b h st = (Ok (watch_delta L t v I b, st') :: ('e, _) outcome)"
    "tracks_chain L t v I h0 (bs @ [b]) st'"
    using add_refines [where 'e = 'e, OF tracks fits, of h] by (elim exE conjE)
  obtain st'' where st'': "on_remove_block L b h' st' = (Ok (watch_delta L t v I b, st'') :: ('e, _) outcome)"
    "tracks_chain L t v I h0 bs st''" "m_saw_block st''"
    using remove_refines [where 'e = 'e, OF st'(2) fits short, of h'] by (elim exE conjE)
  have "st'' = st\<lparr>m_saw_block := True\<rparr>"
    using tracks st''(2,3) by (simp add: tracks_chain_def)
  with st'(1) st''(1) show ?thesis by (intro exI conjI) simp_all
qed

section \<open>Runs of a monitor\<close>

definition valid_chain :: "lib \<Rightarrow> bytes \<Rightarrow> u32 \<Rightarrow> outpoint set \<Rightarrow> transaction list list \<Rightarrow> bool" where
  "valid_chain L t v I bs \<longleftrightarrow> (\<forall>k < length bs. block_fits L t v I (take k bs) (bs ! k))"

lemma valid_chain_snoc: "valid_chain L t v I (bs @ [b]) \<longleftrightarrow> valid_chain L t v I bs \<and> block_fits L t v I bs b"
  by (auto simp: valid_chain_def less_Suc_eq nth_append)

text \<open>A monitor that is told its funding transaction, and then blocks that come and go.\<close>

inductive monitor_run :: "lib \<Rightarrow> bytes \<Rightarrow> u32 \<Rightarrow> outpoint set \<Rightarrow> u32 \<Rightarrow> transaction list list \<Rightarrow> monitor_state \<Rightarrow> bool"
  for L t v I h0 where
  dual_funded: "add_funding L tx v (monitor_new h0) = (Ok st :: (unit, _) outcome) \<Longrightarrow> t = lib_txid L tx \<Longrightarrow>
    I = set (map previous_output (tx_inputs tx)) \<Longrightarrow> monitor_run L t v I h0 [] st"
| funder: "add_funding_outpoint (OutPoint t v) (monitor_new h0) = (Ok st :: (unit, _) outcome) \<Longrightarrow> t = lib_txid L tx \<Longrightarrow>
    I = set (map previous_output (tx_inputs tx)) \<Longrightarrow> monitor_run L t v I h0 [] (add_funding_inputs tx st)"
| fundee: "add_funding_outpoint (OutPoint t v) (monitor_new h0) = (Ok st :: (unit, _) outcome) \<Longrightarrow> I = {} \<Longrightarrow>
    monitor_run L t v I h0 [] st"
| block_added: "monitor_run L t v I h0 bs st \<Longrightarrow> block_fits L t v I bs b \<Longrightarrow>
    on_add_block L b h st = (Ok (r, st') :: (unit, _) outcome) \<Longrightarrow> monitor_run L t v I h0 (bs @ [b]) st'"
| block_removed: "monitor_run L t v I h0 (bs @ [b]) st \<Longrightarrow> length bs < 2 ^ 32 \<Longrightarrow>
    on_remove_block L b h st = (Ok (r, st') :: (unit, _) outcome) \<Longrightarrow> monitor_run L t v I h0 bs st'"

lemma monitor_run_tracks:
  "monitor_run L t v I h0 bs st \<Longrightarrow> tracks_chain L t v I h0 bs st \<and> valid_chain L t v I bs"
proof (induction rule: monitor_run.induct)
  case (block_added bs st b h r st')
  then show ?case using add_refines [where 'e = unit, of L t v I h0 bs st b h] by (auto simp: valid_chain_snoc)
next
  case (block_removed bs b st h r st')
  then show ?case using remove_refines [where 'e = unit, of L t v I h0 bs b st h] by (auto simp: valid_chain_snoc)
qed (auto simp: tracks_chain_def valid_chain_def height_of_def add_funding_def add_funding_outpoint_def
    add_funding_inputs_def monitor_new_def asserts_def)

lemma position_dropWhile: "position True (map P bs) = Some k \<Longrightarrow> length (dropWhile (\<lambda>b. \<not> P b) bs) = length bs - k"
  by (induction bs arbitrary: k) (auto split: if_splits)

lemma depth_of_height:
  assumes "m_height st = h0 + of_nat (length bs)" and "length bs < 2 ^ 32"
  shows "unat (depth_of st (height_of h0 P bs)) = length (dropWhile (\<lambda>b. \<not> P b) bs)"
proof (cases "position True (map P bs)")
  case None
  then have "dropWhile (\<lambda>b. \<not> P b) bs = []" by (auto simp: position_None_iff)
  then show ?thesis using None by (simp add: depth_of_def height_of_def)
next
  case (Some k)
  have "k < length bs" using position_less [OF Some] by simp
  then have "(of_nat (length bs) :: u32) - of_nat k = of_nat (length bs - k)" by simp
  then show ?thesis using Some assms position_dropWhile [OF Some]
    by (simp add: depth_of_def height_of_def unat_of_nat)
qed

section \<open>A concrete chain\<close>

definition example_input :: "outpoint \<Rightarrow> tx_in" where
  "example_input p = \<lparr>previous_output = p, script_sig = [], tx_sequence = 0, witness = []\<rparr>"

definition example_spend :: "outpoint list \<Rightarrow> nat \<Rightarrow> transaction" where
  "example_spend ps n = \<lparr>tx_version = 2, lock_time = 0, tx_inputs = map example_input ps,
     tx_outputs = replicate n \<lparr>out_value = 1000, script_pubkey = [0, 20, 1]\<rparr>\<rparr>"

text \<open>The funding transaction has two inputs and the id \<open>[1]\<close>, the number of its outputs.\<close>

definition example_funding :: transaction where
  "example_funding = example_spend [OutPoint [7] 0, OutPoint [7] 1] 1"

abbreviation example_inputs :: "outpoint set" where
  "example_inputs \<equiv> {OutPoint [7] 0, OutPoint [7] 1}"

abbreviation example_monitor_run :: "transaction list list \<Rightarrow> monitor_state \<Rightarrow> bool" where
  "example_monitor_run \<equiv> monitor_run example_lib [1] 0 example_inputs 100"

lemma example_spend_simps [simp]:
  "previous_output (example_input p) = p" "tx_inputs (example_spend ps n) = map example_input ps"
  "length (tx_outputs (example_spend ps n)) = n" "lib_txid example_lib (example_spend ps n) = [of_nat n]"
  by (simp_all add: example_input_def example_spend_def example_lib_def)

lemma example_monitor_start: "\<exists>st. example_monitor_run [] st"
proof -
  have "add_funding example_lib example_funding 0 (monitor_new 100) =
      (Ok ((monitor_new 100)\<lparr>m_funding_txids := [[1]], m_funding_vouts := [0], m_funding_inputs := example_inputs\<rparr>) :: (unit, _) outcome)"
    by (simp add: add_funding_def monitor_new_def asserts_def example_funding_def)
  from monitor_run.dual_funded [OF this, of "[1]" example_inputs] show ?thesis
    by (auto simp: example_funding_def)
qed

lemma monitor_run_extend:
  assumes "monitor_run L t v I h0 bs st" and "block_fits L t v I bs b"
  shows "\<exists>st'. monitor_run L t v I h0 (bs @ [b]) st' \<and> m_saw_block st'"
proof -
  obtain st' where "on_add_block L b [] st = (Ok (watch_delta L t v I b, st') :: (unit, _) outcome)" and "m_saw_block st'"
    using add_refines [where 'e = unit, OF conjunct1 [OF monitor_run_tracks [OF assms(1)]] assms(2)] by blast
  with monitor_run.block_added [OF assms this(1)] show ?thesis by blast
qed

lemma example_blocks_fit:
  "block_fits example_lib [1] 0 example_inputs [] [example_funding]"
  "block_fits example_lib [1] 0 example_inputs [[example_funding]] [example_spend [OutPoint [1] 0] 2]"
  by (simp_all add: block_fits_def confirms_def spent_def example_funding_def)

lemma example_monitor_run:
  "\<exists>st. example_monitor_run [[example_funding]] st"
  "\<exists>st. example_monitor_run [[example_funding], [example_spend [OutPoint [1] 0] 2]] st"
  using example_monitor_start monitor_run_extend [OF _ example_blocks_fit(1)] monitor_run_extend [OF _ example_blocks_fit(2)]
  by fastforce+





section \<open>Blocks that cannot be reverted\<close>

lemma revert_closing_panics:
  assumes "ClosingConfirmed x tx \<in> set cs" and "m_closing_height st \<noteq> Some (m_height st)"
  shows "foldo (revert_change c) cs (st, adds, removes) = (Panic :: ('e, _) outcome)"
  using assms
proof (induction cs arbitrary: st adds removes)
  case (Cons d cs)
  show ?case
  proof (cases "\<exists>y ty. d = ClosingConfirmed y ty")
    case True
    then show ?thesis using Cons.prems(2) by (auto simp: revert_change_def asserts_def)
  next
    case False
    then have "ClosingConfirmed x tx \<in> set cs" using Cons.prems(1) by auto
    from Cons.IH [OF this] False Cons.prems(2) show ?thesis
      by (cases d) (auto simp: revert_change_def asserts_def)
  qed
qed simp

lemma revert_double_spends_panics:
  assumes "m_funding_double_spent_height st = Some (m_height st)" and "2 \<le> length ps"
  shows "foldo (revert_change False) (map FundingDoubleSpent ps) (st, adds, removes) = (Panic :: ('e, _) outcome)"
proof -
  obtain p q rest where "ps = p # q # rest" using assms(2) by (cases ps; cases "tl ps") auto
  then show ?thesis using assms(1) by (simp add: revert_change_def asserts_def)
qed

lemma apply_double_spends_again:
  assumes "m_funding_height st = None" and "m_funding_double_spent_height st = Some k"
  shows "foldo (apply_change False) (map FundingDoubleSpent qs) (st, adds, removes) = Ok (st, adds, removes @ qs)"
proof -
  have same: "st\<lparr>m_funding_double_spent_height := Some k\<rparr> = st" using assms by simp
  show ?thesis using assms
    by (induction qs arbitrary: removes) (simp_all add: apply_change_def asserts_def or_else_def same)
qed

lemma apply_double_spends:
  assumes "m_funding_height st = None" and "ps \<noteq> []" and "m_funding_double_spent_height st = None"
  shows "foldo (apply_change False) (map FundingDoubleSpent ps) (st, adds, removes) =
    Ok (st\<lparr>m_funding_double_spent_height := Some (m_height st)\<rparr>, adds, removes @ ps)"
proof -
  obtain p rest where "ps = p # rest" using assms(2) by (cases ps) auto
  then show ?thesis using assms by (simp add: apply_change_def asserts_def or_else_def apply_double_spends_again)
qed

text \<open>
  C28: A reorganisation that removes a block with two double spends of funding inputs crashes the
  signer: the first of them resets the recorded height, and the second fails an assertion.
\<close>

theorem two_double_spends_cannot_be_removed:
  assumes run: "monitor_run L t v I h0 bs st" and before: "\<forall>b' \<in> set bs. \<not> confirms L t b' \<and> spent I b' = []"
    and b: "\<not> confirms L t b" "spent {OutPoint t v} b = []" "2 \<le> length (spent I b)"
  shows "\<exists>r st'. on_add_block L b h st = (Ok (r, st') :: (unit, _) outcome) \<and>
    on_remove_block L b h' st' = (Panic :: (unit, _) outcome)"
proof -
  have inv: "tracks_chain L t v I h0 bs st" using monitor_run_tracks [OF run] by blast
  have st: "m_funding_height st = None" "m_funding_double_spent_height st = None" "m_funding_outpoint st = None"
    using inv before by (auto simp: tracks_chain_def height_of_None)
  let ?st = "st\<lparr>m_decode_state := None, m_saw_block := True, m_height := m_height st + 1,
    m_funding_double_spent_height := Some (m_height st + 1)\<rparr>"
  have f: "follows t v I st" "follows t v I ?st" using tracks_follows [OF inv] by (simp_all add: follows_def)
  have readable: "\<forall>tx \<in> set b. tx_readable L st tx" "\<forall>tx \<in> set b. tx_readable L ?st tx"
    using f st(3) b(1) by (auto simp: tx_readable_def follows_def confirms_def)
  have changes: "block_changes L st b = map FundingDoubleSpent (spent I b)"
    "block_changes L ?st b = map FundingDoubleSpent (spent I b)"
    using changes_plain [OF f(1) _ b(1)] changes_plain [OF f(2) _ b(1)] b(2) by auto
  have no: "\<not> list_ex is_funding_confirmed (map FundingDoubleSpent ps)" for ps
    by (simp add: list_ex_iff is_funding_confirmed_def)
  have "spent I b \<noteq> []" using b(3) by auto
  then have "on_add_block L b h st = (Ok (([], spent I b), ?st) :: (unit, _) outcome)"
    using st by (simp add: on_add_block_eq [OF readable(1)] changes no apply_double_spends)
  moreover have "on_remove_block L b h' ?st = (Panic :: (unit, _) outcome)"
    using b(3) unfolding on_remove_block_eq [OF readable(2)] changes
    by (simp add: no revert_double_spends_panics)
  ultimately show ?thesis by blast
qed

theorem two_double_spends_cannot_be_removed_witness:
  "\<exists>st r st'. example_monitor_run [] st \<and>
     on_add_block example_lib [example_spend [OutPoint [7] 0, OutPoint [7] 1] 3] [] st = (Ok (r, st') :: (unit, _) outcome) \<and>
     on_remove_block example_lib [example_spend [OutPoint [7] 0, OutPoint [7] 1] 3] [] st' = (Panic :: (unit, _) outcome)"
proof -
  obtain st where st: "example_monitor_run [] st" using example_monitor_start ..
  from two_double_spends_cannot_be_removed [OF st, of "[example_spend [OutPoint [7] 0, OutPoint [7] 1] 3]" "[]" "[]"] st
  show ?thesis by (auto simp: confirms_def spent_def)
qed

text \<open>
  C29: A closing transaction in the block of its funding transaction is not seen, because the funding
  output is recorded only when the block ends; the reported closing depth stays zero.  The
  block cannot be removed either: on the way back the closing is seen, and an assertion fails.
\<close>

theorem closing_with_funding_missed:
  assumes run: "monitor_run L t v I h0 bs st"
    and before: "\<forall>b' \<in> set bs. \<not> confirms L t b' \<and> spent I b' = [] \<and> spent {OutPoint t v} b' = []"
    and b: "confirms L t b" "\<forall>tx \<in> set b. lib_txid L tx = t \<longrightarrow> v < of_nat (length (tx_outputs tx))"
    and close: "spent {OutPoint t v} b \<noteq> []"
      "\<forall>tx \<in> set b. (\<exists>i \<in> set (tx_inputs tx). previous_output i = OutPoint t v) \<longrightarrow>
         length (tx_inputs tx) = 1 \<and> length (tx_outputs tx) \<le> 600"
  shows "\<exists>r st'. on_add_block L b h st = (Ok (r, st') :: (unit, _) outcome) \<and> closing_depth (as_chain_state st') = 0 \<and>
    on_remove_block L b h' st' = (Panic :: (unit, _) outcome)"
proof -
  have inv: "tracks_chain L t v I h0 bs st" using monitor_run_tracks [OF run] by blast
  have st: "m_funding_double_spent_height st = None" "m_funding_outpoint st = None" "m_closing_height st = None"
    using inv before by (auto simp: tracks_chain_def height_of_None)
  let ?st = "st\<lparr>m_decode_state := None, m_saw_block := True, m_height := m_height st + 1,
    m_funding_height := Some (m_height st + 1), m_funding_outpoint := Some (OutPoint t v)\<rparr>"
  have f: "follows t v I st" using tracks_follows [OF inv] .
  have readable: "\<forall>tx \<in> set b. tx_readable L st tx" "\<forall>tx \<in> set b. tx_readable L ?st tx"
    using f st(2) b(2) close(2) by (auto simp: tx_readable_def follows_def split: if_splits)
  note ch = changes_confirming [OF f disjI1 [OF st(2)], where b = b and L = L]
  note fc = changes_confirm_iff [OF f disjI1 [OF st(2)] b(1)]
  have "on_add_block L b h st = (Ok ((adds_of (block_changes L st b), removes_of (block_changes L st b)), ?st) :: (unit, _) outcome)"
    using st fc by (simp add: on_add_block_eq [OF readable(1)] apply_confirming [OF ch(1)])
  moreover have "closing_depth (as_chain_state ?st) = 0" using st(3) by (simp add: as_chain_state_def depth_of_def)
  moreover have "\<exists>x tx. ClosingConfirmed x tx \<in> set (block_changes L ?st b)"
    using close(1) by (fastforce simp: block_changes_def tx_changes_def spent_empty_iff)
  then have "on_remove_block L b h' ?st = (Panic :: (unit, _) outcome)"
    using st(3) unfolding on_remove_block_eq [OF readable(2)]
    by (auto simp: revert_closing_panics)
  ultimately show ?thesis by blast
qed

theorem closing_with_funding_missed_witness:
  "\<exists>st r st'. example_monitor_run [] st \<and>
     on_add_block example_lib [example_funding, example_spend [OutPoint [1] 0] 2] [] st = (Ok (r, st') :: (unit, _) outcome) \<and>
     closing_depth (as_chain_state st') = 0 \<and>
     on_remove_block example_lib [example_funding, example_spend [OutPoint [1] 0] 2] [] st' = (Panic :: (unit, _) outcome)"
proof -
  obtain st where st: "example_monitor_run [] st" using example_monitor_start ..
  from closing_with_funding_missed [OF st, of "[example_funding, example_spend [OutPoint [1] 0] 2]" "[]" "[]"] st
  show ?thesis by (auto simp: confirms_def spent_def example_funding_def)
qed

end
