(* ===== verification/Tracker.thy ===== *)
theory Tracker
  imports Monitor "HOL-Library.List_Lexorder"
begin

text \<open>
  \<^verbatim>\<open>vls-core/src/chain/tracker.rs\<close>: the chain of block headers that the signer follows, and the
  listeners it tells about blocks.  Block hashes, the proof of work, the compact form of a target,
  the decoder of streamed blocks and the verification of a TXOO proof are code outside the
  repository; they are the record \<open>chain_lib\<close>.
\<close>

section \<open>Headers and proofs\<close>

record block_header =
  bh_version :: int
  prev_blockhash :: bytes
  merkle_root :: bytes
  bh_time :: u32
  bh_bits :: u32
  bh_nonce :: u32

datatype headers = Headers (hd_header: block_header) (hd_filter: bytes)

datatype proof_type = ProofFilter "transaction list" | ProofBlock bytes | ProofExternalBlock

record txo_proof =
  txo_proof_type :: proof_type
  txo_filter_header :: bytes
  txo_attestations :: bytes

definition is_external :: "txo_proof \<Rightarrow> bool" where
  "is_external prf \<longleftrightarrow> txo_proof_type prf = ProofExternalBlock"

text \<open>
  The decoder of a streamed block is determined by the chunks it was given: \<open>ck_decode\<close> gives the
  events of the next chunk, or \<open>None\<close> when it does not decode.
\<close>

record chain_lib =
  ck_block_hash :: "block_header \<Rightarrow> bytes"
  ck_validate_pow :: "block_header \<Rightarrow> bool"
  ck_u256_from_compact :: "u32 \<Rightarrow> 256 word"
  ck_compact_from_u256 :: "256 word \<Rightarrow> u32"
  ck_decode :: "bytes list \<Rightarrow> bytes \<Rightarrow> push_event list option"
  ck_finish :: "bytes list \<Rightarrow> bool"
  ck_verify :: "txo_proof \<Rightarrow> u32 \<Rightarrow> block_header \<Rightarrow> bytes option \<Rightarrow> bytes \<Rightarrow> outpoint list \<Rightarrow> (verify_error, unit) outcome"
  ck_filter :: policy_filter

definition ck_target :: "chain_lib \<Rightarrow> block_header \<Rightarrow> 256 word" where
  "ck_target K h = ck_u256_from_compact K (bh_bits h)"

text \<open>Outpoints are ordered by transaction id and index.\<close>

instantiation outpoint :: linorder
begin

definition less_eq_outpoint :: "outpoint \<Rightarrow> outpoint \<Rightarrow> bool" where
  "p \<le> q \<longleftrightarrow> op_txid p < op_txid q \<or> op_txid p = op_txid q \<and> op_vout p \<le> op_vout q"

definition less_outpoint :: "outpoint \<Rightarrow> outpoint \<Rightarrow> bool" where
  "(p :: outpoint) < q \<longleftrightarrow> p \<le> q \<and> \<not> q \<le> p"

instance
  by standard (auto simp: less_eq_outpoint_def less_outpoint_def outpoint.expand intro: outpoint.expand)

end

datatype track_error = InvalidChain | InvalidBlock | ReorgTooDeep | InvalidProof

section \<open>State\<close>

record listen_slot =
  txid_watches :: "bytes set"
  watches :: "outpoint set"
  seen :: "outpoint set"

record tracker_decode_state =
  td_chunks :: "bytes list"
  td_offset :: u32
  td_block_hash :: bytes

record ('k, 'l) chain_tracker =
  tr_headers :: "headers list"
  tr_tip :: headers
  tr_height :: u32
  tr_network :: network
  tr_listeners :: "('k, 'l \<times> listen_slot) amap"
  tr_decode_state :: "tracker_decode_state option"

text \<open>The trait \<^verbatim>\<open>ChainListener\<close>.  A listener keeps its own state, which each call may change.\<close>

record 'l chain_listener =
  cl_on_add_block :: "transaction list \<Rightarrow> bytes \<Rightarrow> 'l \<Rightarrow> (track_error, watch_changes \<times> 'l) outcome"
  cl_on_add_streamed_block :: "bytes \<Rightarrow> 'l \<Rightarrow> (track_error, watch_changes \<times> 'l) outcome"
  cl_on_remove_block :: "transaction list \<Rightarrow> bytes \<Rightarrow> 'l \<Rightarrow> (track_error, watch_changes \<times> 'l) outcome"
  cl_on_remove_streamed_block :: "bytes \<Rightarrow> 'l \<Rightarrow> (track_error, watch_changes \<times> 'l) outcome"
  cl_on_push :: "push_event \<Rightarrow> 'l \<Rightarrow> (track_error, 'l) outcome"

definition monitor_listener :: "lib \<Rightarrow> monitor_state chain_listener" where
  "monitor_listener L = \<lparr>cl_on_add_block = on_add_block L, cl_on_add_streamed_block = on_add_streamed_block,
     cl_on_remove_block = on_remove_block L, cl_on_remove_streamed_block = on_remove_streamed_block, cl_on_push = on_push\<rparr>"

definition MAX_REORG_SIZE :: nat where
  "MAX_REORG_SIZE = 100"

definition DIFFCHANGE_INTERVAL :: u32 where
  "DIFFCHANGE_INTERVAL = 2016"

definition tracker_new :: "chain_lib \<Rightarrow> network \<Rightarrow> u32 \<Rightarrow> headers \<Rightarrow> (track_error, ('k, 'l) chain_tracker) outcome" where
  "tracker_new K network height tip =
     (if ck_validate_pow K (hd_header tip)
      then Ok \<lparr>tr_headers = [], tr_tip = tip, tr_height = height, tr_network = network, tr_listeners = [],
               tr_decode_state = None\<rparr>
      else Err InvalidBlock)"

definition tracker_restore ::
    "headers list \<Rightarrow> headers \<Rightarrow> u32 \<Rightarrow> network \<Rightarrow> ('k, 'l \<times> listen_slot) amap \<Rightarrow> ('k, 'l) chain_tracker" where
  "tracker_restore hs tip height network ls =
     \<lparr>tr_headers = hs, tr_tip = tip, tr_height = height, tr_network = network, tr_listeners = ls,
      tr_decode_state = None\<rparr>"

definition from_checkpoint ::
    "chain_lib \<Rightarrow> network \<Rightarrow> block_header \<Rightarrow> bytes \<Rightarrow> u32 \<Rightarrow> (track_error, ('k, 'l) chain_tracker) outcome" where
  "from_checkpoint K network header filter_header height =
     (case tracker_new K network height (Headers header filter_header) of
        Ok t \<Rightarrow> Ok t | Err _ \<Rightarrow> Panic | Panic \<Rightarrow> Panic)"

text \<open>The genesis block with its filter header, and the latest checkpoint, are constants of the libraries.\<close>

definition from_genesis ::
    "chain_lib \<Rightarrow> (network \<Rightarrow> block_header \<times> bytes) \<Rightarrow> network \<Rightarrow> (track_error, ('k, 'l) chain_tracker) outcome" where
  "from_genesis K genesis network =
     (let (header, filter_header) = genesis network in from_checkpoint K network header filter_header 0)"

definition for_network ::
    "chain_lib \<Rightarrow> (network \<Rightarrow> block_header \<times> bytes) \<Rightarrow> (network \<Rightarrow> (u32 \<times> bytes \<times> bytes \<times> block_header) option) \<Rightarrow>
     network \<Rightarrow> (track_error, ('k, 'l) chain_tracker) outcome" where
  "for_network K genesis latest_checkpoint network =
     (case latest_checkpoint network of
        Some (height, _, filter_header, header) \<Rightarrow> from_checkpoint K network header filter_header height
      | None \<Rightarrow> from_genesis K genesis network)"

section \<open>Watches\<close>

definition add_listener :: "'k \<Rightarrow> 'l \<Rightarrow> bytes set \<Rightarrow> ('k, 'l) chain_tracker \<Rightarrow> ('k, 'l) chain_tracker" where
  "add_listener key listener initial_txid_watches tr =
     tr\<lparr>tr_listeners := AList.update key
          (listener, \<lparr>txid_watches = initial_txid_watches, watches = {}, seen = {}\<rparr>) (tr_listeners tr)\<rparr>"

definition add_listener_watches ::
    "'k \<Rightarrow> outpoint set \<Rightarrow> ('k, 'l) chain_tracker \<Rightarrow> ('e, ('k, 'l) chain_tracker) outcome" where
  "add_listener_watches key new_watches tr =
     bindo (unwrap (map_of (tr_listeners tr) key)) (\<lambda>(listener, slot).
     Ok (tr\<lparr>tr_listeners := AList.update key (listener, slot\<lparr>watches := watches slot \<union> new_watches\<rparr>) (tr_listeners tr)\<rparr>))"

definition get_all_watches :: "bool \<Rightarrow> ('k, 'l) chain_tracker \<Rightarrow> bytes list \<times> outpoint list" where
  "get_all_watches include_reverse tr =
     (let slots = map snd (values_of (tr_listeners tr)) in
      (sorted_list_of_set (\<Union> (set (map txid_watches slots))),
       sorted_list_of_set (\<Union> (set (map (\<lambda>s. if include_reverse then watches s \<union> seen s else watches s) slots)))))"

definition get_all_forward_watches :: "('k, 'l) chain_tracker \<Rightarrow> bytes list \<times> outpoint list" where
  "get_all_forward_watches tr = get_all_watches False tr"

definition get_all_reverse_watches :: "('k, 'l) chain_tracker \<Rightarrow> bytes list \<times> outpoint list" where
  "get_all_reverse_watches tr = get_all_watches True tr"

section \<open>Validation\<close>

definition max_target :: "network \<Rightarrow> 256 word" where
  "max_target network = (case network of Regtest \<Rightarrow> push_bit (256 - 24) 0x7fffff | _ \<Rightarrow> push_bit 208 0xFFFF)"

definition round_trip_target :: "chain_lib \<Rightarrow> 256 word \<Rightarrow> 256 word" where
  "round_trip_target K prev_target = ck_u256_from_compact K (ck_compact_from_u256 K prev_target)"

definition validate_retarget :: "chain_lib \<Rightarrow> 256 word \<Rightarrow> 256 word \<Rightarrow> network \<Rightarrow> (track_error, unit) outcome" where
  "validate_retarget K prev_target target network =
     (let min = round_trip_target K (drop_bit 2 prev_target);
          max = round_trip_target K (push_bit 2 prev_target)
      in if target > max_target network then Err InvalidBlock
         else if target < min then Err InvalidChain
         else if target > max then Err InvalidChain
         else Ok ())"

definition tracker_validate_block ::
    "chain_lib \<Rightarrow> ('k, 'l) chain_tracker \<Rightarrow> u32 \<Rightarrow> bytes option \<Rightarrow> headers \<Rightarrow> headers \<Rightarrow> txo_proof \<Rightarrow> bool \<Rightarrow>
     (track_error, unit) outcome" where
  "tracker_validate_block K tr height external_block_hash prev_headers headers prf is_remove =
     (let header = hd_header headers; prev_header = hd_header prev_headers in
      bindo (if prev_blockhash header \<noteq> ck_block_hash K prev_header then Err InvalidChain else Ok ()) (\<lambda>_.
      bindo (if \<not> ck_validate_pow K header then Err InvalidBlock else Ok ()) (\<lambda>_.
      bindo (if tr_network tr = Testnet \<and> ck_target K header = max_target (tr_network tr) \<and>
                bh_time header > bh_time prev_header + 60 * 20 then Ok ()
             else if (height + 1) mod DIFFCHANGE_INTERVAL = 0
                  then validate_retarget K (ck_target K prev_header) (ck_target K header) (tr_network tr)
             else if bh_bits header \<noteq> bh_bits prev_header \<and> tr_network tr \<noteq> Testnet then Err InvalidChain
             else Ok ()) (\<lambda>_.
      let outpoint_watches = snd (if is_remove then get_all_reverse_watches tr else get_all_forward_watches tr);
          prev_filter_header = hd_filter prev_headers
      in if list_all (\<lambda>x. x = 0) prev_filter_header then Ok ()
         else map_err (\<lambda>_. InvalidProof)
                (validate_block (ck_filter K) (ck_verify K) prf (height + 1) header external_block_hash
                   prev_filter_header outpoint_watches)))))"

section \<open>Streamed blocks\<close>

text \<open>A push event goes to every listener; the start of the block is checked first.\<close>

primrec push_listeners ::
    "'l chain_listener \<Rightarrow> push_event \<Rightarrow> ('k, 'l \<times> listen_slot) amap \<Rightarrow> (track_error, ('k, 'l \<times> listen_slot) amap) outcome" where
  "push_listeners CL e [] = Ok []"
| "push_listeners CL e (entry # ls) =
     bindo (cl_on_push CL e (fst (snd entry))) (\<lambda>l.
     bindo (push_listeners CL e ls) (\<lambda>ls. Ok ((fst entry, (l, snd (snd entry))) # ls)))"

definition do_push ::
    "'l chain_listener \<Rightarrow> bytes \<Rightarrow> push_event \<Rightarrow> ('k, 'l) chain_tracker \<Rightarrow> (track_error, ('k, 'l) chain_tracker) outcome" where
  "do_push CL expected_hash e tr =
     bindo (asserts (case e of OnBlockStart h \<Rightarrow> h = expected_hash | _ \<Rightarrow> True)) (\<lambda>_.
     bindo (push_listeners CL e (tr_listeners tr)) (\<lambda>ls. Ok (tr\<lparr>tr_listeners := ls\<rparr>)))"

definition block_chunk ::
    "chain_lib \<Rightarrow> 'l chain_listener \<Rightarrow> bytes \<Rightarrow> u32 \<Rightarrow> bytes \<Rightarrow> ('k, 'l) chain_tracker \<Rightarrow>
     (track_error, ('k, 'l) chain_tracker) outcome" where
  "block_chunk K CL hash offset chunk tr =
     bindo (if offset = 0
            then bindo (asserts (tr_decode_state tr = None)) (\<lambda>_.
                 Ok (tr\<lparr>tr_decode_state := Some \<lparr>td_chunks = [], td_offset = 0, td_block_hash = hash\<rparr>\<rparr>))
            else Ok tr) (\<lambda>tr.
     bindo (unwrap (tr_decode_state tr)) (\<lambda>d.
     bindo (asserts (td_block_hash d = hash)) (\<lambda>_.
     bindo (asserts (td_offset d = offset)) (\<lambda>_.
     bindo (unwrap (ck_decode K (td_chunks d) chunk)) (\<lambda>events.
     bindo (foldo (do_push CL hash) events tr) (\<lambda>tr.
     Ok (tr\<lparr>tr_decode_state := Some (d\<lparr>td_chunks := td_chunks d @ [chunk],
                td_offset := td_offset d + of_nat (length chunk)\<rparr>)\<rparr>)))))))"

text \<open>The decode state is taken: whatever happens afterwards, it is gone.\<close>

definition maybe_finish_decoding_block ::
    "chain_lib \<Rightarrow> txo_proof \<Rightarrow> bytes \<Rightarrow> ('k, 'l) chain_tracker \<Rightarrow> (track_error, ('k, 'l) chain_tracker) outcome" where
  "maybe_finish_decoding_block K prf expected_block_hash tr =
     bindo (asserts (is_external prf = (tr_decode_state tr \<noteq> None))) (\<lambda>_.
     case tr_decode_state tr of
       None \<Rightarrow> Ok tr
     | Some d \<Rightarrow>
         bindo (asserts (ck_finish K (td_chunks d))) (\<lambda>_.
         bindo (asserts (td_block_hash d = expected_block_hash)) (\<lambda>_.
         Ok (tr\<lparr>tr_decode_state := None\<rparr>))))"

section \<open>Adding and removing blocks\<close>

definition slot_add :: "watch_changes \<Rightarrow> listen_slot \<Rightarrow> listen_slot" where
  "slot_add r slot = (let (adds, removes) = r in
     slot\<lparr>watches := (watches slot \<union> set adds) - set removes, seen := seen slot \<union> set removes\<rparr>)"

definition slot_remove :: "watch_changes \<Rightarrow> listen_slot \<Rightarrow> listen_slot" where
  "slot_remove r slot = (let (adds, removes) = r in
     slot\<lparr>seen := seen slot - set removes, watches := (watches slot \<union> set removes) - set adds\<rparr>)"

text \<open>One pass over the listeners: \<open>on\<close> is the call, \<open>upd\<close> what it does to the slot.\<close>

primrec notify_listeners ::
    "('l \<Rightarrow> (track_error, watch_changes \<times> 'l) outcome) \<Rightarrow> (watch_changes \<Rightarrow> listen_slot \<Rightarrow> listen_slot) \<Rightarrow>
     ('k, 'l \<times> listen_slot) amap \<Rightarrow> (track_error, ('k, 'l \<times> listen_slot) amap) outcome" where
  "notify_listeners on upd [] = Ok []"
| "notify_listeners on upd (entry # ls) =
     bindo (on (fst (snd entry))) (\<lambda>(r, l).
     bindo (notify_listeners on upd ls) (\<lambda>ls. Ok ((fst entry, (l, upd r (snd (snd entry)))) # ls)))"

definition notify_listeners_add ::
    "'l chain_listener \<Rightarrow> transaction list option \<Rightarrow> bytes \<Rightarrow> ('k, 'l) chain_tracker \<Rightarrow> (track_error, ('k, 'l) chain_tracker) outcome" where
  "notify_listeners_add CL txs block_hash tr =
     bindo (notify_listeners (case txs of Some txs \<Rightarrow> cl_on_add_block CL txs block_hash
                              | None \<Rightarrow> cl_on_add_streamed_block CL block_hash) slot_add (tr_listeners tr)) (\<lambda>ls.
     Ok (tr\<lparr>tr_listeners := ls\<rparr>))"

definition notify_listeners_remove ::
    "'l chain_listener \<Rightarrow> transaction list option \<Rightarrow> bytes \<Rightarrow> ('k, 'l) chain_tracker \<Rightarrow> (track_error, ('k, 'l) chain_tracker) outcome" where
  "notify_listeners_remove CL txs block_hash tr =
     bindo (notify_listeners (case txs of Some txs \<Rightarrow> cl_on_remove_block CL txs block_hash
                              | None \<Rightarrow> cl_on_remove_streamed_block CL block_hash) slot_remove (tr_listeners tr)) (\<lambda>ls.
     Ok (tr\<lparr>tr_listeners := ls\<rparr>))"

text \<open>The transactions a proof carries; a proof with a whole block panics.\<close>

definition proof_txs :: "txo_proof \<Rightarrow> ('e, transaction list option) outcome" where
  "proof_txs prf = (case txo_proof_type prf of ProofFilter txs \<Rightarrow> Ok (Some txs) | ProofBlock _ \<Rightarrow> Panic
     | ProofExternalBlock \<Rightarrow> Ok None)"

definition add_block ::
    "chain_lib \<Rightarrow> 'l chain_listener \<Rightarrow> block_header \<Rightarrow> txo_proof \<Rightarrow> ('k, 'l) chain_tracker \<Rightarrow>
     (track_error, unit) outcome \<times> ('k, 'l) chain_tracker" where
  "add_block K CL header prf tr =
     (let message_block_hash = ck_block_hash K header in
      case maybe_finish_decoding_block K prf message_block_hash tr of
        Err e \<Rightarrow> (Err e, tr)
      | Panic \<Rightarrow> (Panic, tr)
      | Ok tr \<Rightarrow>
          (let headers = Headers header (txo_filter_header prf);
               expected_external_block_hash = (if is_external prf then Some message_block_hash else None)
           in case bindo (tracker_validate_block K tr (tr_height tr) expected_external_block_hash
                            (tr_tip tr) headers prf False) (\<lambda>_.
                   bindo (proof_txs prf) (\<lambda>txs.
                   notify_listeners_add CL txs message_block_hash tr)) of
                Err e \<Rightarrow> (Err e, tr)
              | Panic \<Rightarrow> (Panic, tr)
              | Ok tr \<Rightarrow>
                  (Ok (), tr\<lparr>tr_headers := tr_tip tr # take (MAX_REORG_SIZE - 1) (tr_headers tr),
                             tr_tip := headers, tr_height := tr_height tr + 1\<rparr>)))"

definition remove_block ::
    "chain_lib \<Rightarrow> 'l chain_listener \<Rightarrow> txo_proof \<Rightarrow> ('k, 'l) chain_tracker \<Rightarrow>
     (track_error, block_header) outcome \<times> ('k, 'l) chain_tracker" where
  "remove_block K CL prf tr =
     (case tr_headers tr of
        [] \<Rightarrow> (Err ReorgTooDeep, tr)
      | prev_headers # older \<Rightarrow>
          (let tip_block_hash = ck_block_hash K (hd_header prev_headers) in
           case maybe_finish_decoding_block K prf tip_block_hash tr of
             Err e \<Rightarrow> (Err e, tr)
           | Panic \<Rightarrow> (Panic, tr)
           | Ok tr \<Rightarrow>
               (let expected_external_block_hash = (if is_external prf then Some tip_block_hash else None) in
                case bindo (tracker_validate_block K tr (tr_height tr - 1) expected_external_block_hash
                              prev_headers (tr_tip tr) prf True) (\<lambda>_.
                     bindo (proof_txs prf) (\<lambda>txs.
                     notify_listeners_remove CL txs tip_block_hash tr)) of
                  Err e \<Rightarrow> (Err e, tr)
                | Panic \<Rightarrow> (Panic, tr)
                | Ok tr \<Rightarrow>
                    (Ok (hd_header (tr_tip tr)),
                     tr\<lparr>tr_headers := older, tr_tip := prev_headers, tr_height := tr_height tr - 1\<rparr>))))"

section \<open>The chain of headers\<close>

text \<open>What the tracker demands of a header on top of another one at a height.\<close>

definition header_rule :: "chain_lib \<Rightarrow> network \<Rightarrow> u32 \<Rightarrow> block_header \<Rightarrow> block_header \<Rightarrow> bool" where
  "header_rule K net height prev header \<longleftrightarrow>
     prev_blockhash header = ck_block_hash K prev \<and> ck_validate_pow K header \<and>
     (net = Testnet \<and> ck_target K header = max_target net \<and> bh_time header > bh_time prev + 60 * 20 \<or>
      (if (height + 1) mod DIFFCHANGE_INTERVAL = 0
       then ck_target K header \<le> max_target net \<and>
            round_trip_target K (drop_bit 2 (ck_target K prev)) \<le> ck_target K header \<and>
            ck_target K header \<le> round_trip_target K (push_bit 2 (ck_target K prev))
       else bh_bits header = bh_bits prev \<or> net = Testnet))"

fun valid_headers :: "chain_lib \<Rightarrow> network \<Rightarrow> u32 \<Rightarrow> headers list \<Rightarrow> bool" where
  "valid_headers K net height [] = True"
| "valid_headers K net height [h] = ck_validate_pow K (hd_header h)"
| "valid_headers K net height (h # p # hs) \<longleftrightarrow>
     header_rule K net (height - 1) (hd_header p) (hd_header h) \<and> valid_headers K net (height - 1) (p # hs)"

lemma validate_retarget_Ok:
  "validate_retarget K p t net = Ok u \<longleftrightarrow> t \<le> max_target net \<and> round_trip_target K (drop_bit 2 p) \<le> t \<and>
     t \<le> round_trip_target K (push_bit 2 p)"
  by (auto simp: validate_retarget_def Let_def not_less split: if_splits)

lemma tracker_validate_block_rule:
  assumes "tracker_validate_block K tr height ext prev headers prf rm = Ok u"
  shows "header_rule K (tr_network tr) height (hd_header prev) (hd_header headers)"
  using assms
  by (auto simp: tracker_validate_block_def header_rule_def Let_def outcome_simps validate_retarget_Ok split: if_splits)

lemma valid_headers_pow: "valid_headers K net height (h # hs) \<Longrightarrow> ck_validate_pow K (hd_header h)"
  by (cases hs) (auto simp: header_rule_def)

lemma valid_headers_take: "valid_headers K net height hs \<Longrightarrow> valid_headers K net height (take n hs)"
proof (induction K net height hs arbitrary: n rule: valid_headers.induct)
  case (3 K net height h p hs)
  show ?case
  proof (cases n)
    case (Suc m)
    then show ?thesis
    proof (cases m)
      case 0
      then show ?thesis using Suc 3(2) by (simp add: header_rule_def)
    next
      case (Suc k)
      then show ?thesis using \<open>n = Suc m\<close> 3(1) [of m] 3(2) by simp
    qed
  qed simp
qed (auto simp: take_Cons' split: if_splits)

definition tracker_ok :: "chain_lib \<Rightarrow> ('k, 'l) chain_tracker \<Rightarrow> bool" where
  "tracker_ok K tr \<longleftrightarrow> valid_headers K (tr_network tr) (tr_height tr) (tr_tip tr # tr_headers tr) \<and>
     length (tr_headers tr) \<le> MAX_REORG_SIZE"

lemma finish_decoding_frame:
  assumes "maybe_finish_decoding_block K prf h tr = Ok tr'"
  shows "tr' = tr\<lparr>tr_decode_state := None\<rparr>"
  using assms by (auto simp: maybe_finish_decoding_block_def outcome_simps asserts_def split: option.splits if_splits)

lemma notify_frame:
  "notify_listeners_add CL txs h tr = Ok tr' \<Longrightarrow> \<exists>ls. tr' = tr\<lparr>tr_listeners := ls\<rparr>"
  "notify_listeners_remove CL txs h tr = Ok tr' \<Longrightarrow> \<exists>ls. tr' = tr\<lparr>tr_listeners := ls\<rparr>"
  by (auto simp: notify_listeners_add_def notify_listeners_remove_def outcome_simps)

lemma add_block_Ok:
  assumes "add_block K CL header prf tr = (Ok u, tr')"
  obtains txs ls where
    "tracker_validate_block K (tr\<lparr>tr_decode_state := None\<rparr>) (tr_height tr)
       (if is_external prf then Some (ck_block_hash K header) else None) (tr_tip tr)
       (Headers header (txo_filter_header prf)) prf False = Ok ()"
    and "(proof_txs prf :: (track_error, _) outcome) = Ok txs"
    and "notify_listeners_add CL txs (ck_block_hash K header) (tr\<lparr>tr_decode_state := None\<rparr>) =
       Ok (tr\<lparr>tr_decode_state := None, tr_listeners := ls\<rparr>)"
    and "tr' = tr\<lparr>tr_decode_state := None, tr_listeners := ls,
       tr_headers := tr_tip tr # take (MAX_REORG_SIZE - 1) (tr_headers tr),
       tr_tip := Headers header (txo_filter_header prf), tr_height := tr_height tr + 1\<rparr>"
    and "maybe_finish_decoding_block K prf (ck_block_hash K header) tr = Ok (tr\<lparr>tr_decode_state := None\<rparr>)"
proof -
  let ?hash = "ck_block_hash K header" and ?headers = "Headers header (txo_filter_header prf)"
  let ?ext = "if is_external prf then Some ?hash else None"
  obtain tr1 tr2 txs where f: "maybe_finish_decoding_block K prf ?hash tr = Ok tr1"
    and v: "tracker_validate_block K tr1 (tr_height tr1) ?ext (tr_tip tr1) ?headers prf False = Ok ()"
    and p: "(proof_txs prf :: (track_error, _) outcome) = Ok txs"
    and n: "notify_listeners_add CL txs ?hash tr1 = Ok tr2"
    and tr': "tr' = tr2\<lparr>tr_headers := tr_tip tr2 # take (MAX_REORG_SIZE - 1) (tr_headers tr2),
       tr_tip := ?headers, tr_height := tr_height tr2 + 1\<rparr>"
    using assms by (auto simp: add_block_def Let_def outcome_simps split: outcome.splits)
  from finish_decoding_frame [OF f] have tr1: "tr1 = tr\<lparr>tr_decode_state := None\<rparr>" .
  from notify_frame(1) [OF n] obtain ls where tr2: "tr2 = tr1\<lparr>tr_listeners := ls\<rparr>" by blast
  show thesis
    by (rule that [of txs ls]) (use f v p n tr' in \<open>simp_all add: tr1 tr2\<close>)
qed

lemma remove_block_Ok:
  assumes "remove_block K CL prf tr = (Ok header, tr')"
  obtains prev older txs ls where "tr_headers tr = prev # older" and "header = hd_header (tr_tip tr)"
    and "tracker_validate_block K (tr\<lparr>tr_decode_state := None\<rparr>) (tr_height tr - 1)
       (if is_external prf then Some (ck_block_hash K (hd_header prev)) else None) prev (tr_tip tr) prf True = Ok ()"
    and "notify_listeners_remove CL txs (ck_block_hash K (hd_header prev)) (tr\<lparr>tr_decode_state := None\<rparr>) =
       Ok (tr\<lparr>tr_decode_state := None, tr_listeners := ls\<rparr>)"
    and "tr' = tr\<lparr>tr_decode_state := None, tr_listeners := ls, tr_headers := older, tr_tip := prev,
       tr_height := tr_height tr - 1\<rparr>"
proof -
  obtain prev older where h: "tr_headers tr = prev # older"
    using assms by (auto simp: remove_block_def split: list.splits)
  let ?hash = "ck_block_hash K (hd_header prev)"
  let ?ext = "if is_external prf then Some ?hash else None"
  obtain tr1 tr2 txs where f: "maybe_finish_decoding_block K prf ?hash tr = Ok tr1"
    and v: "tracker_validate_block K tr1 (tr_height tr1 - 1) ?ext prev (tr_tip tr1) prf True = Ok ()"
    and n: "notify_listeners_remove CL txs ?hash tr1 = Ok tr2" and header: "header = hd_header (tr_tip tr2)"
    and tr': "tr' = tr2\<lparr>tr_headers := older, tr_tip := prev, tr_height := tr_height tr2 - 1\<rparr>"
    using assms by (auto simp: remove_block_def h Let_def outcome_simps split: outcome.splits)
  from finish_decoding_frame [OF f] have tr1: "tr1 = tr\<lparr>tr_decode_state := None\<rparr>" .
  from notify_frame(2) [OF n] obtain ls where tr2: "tr2 = tr1\<lparr>tr_listeners := ls\<rparr>" by blast
  show thesis
    by (rule that [of prev older txs ls]) (use h v n header tr' in \<open>simp_all add: tr1 tr2\<close>)
qed

text \<open>A call that fails leaves the chain and the listeners as they were.\<close>

lemma add_block_not_Ok:
  assumes "add_block K CL header prf tr = (r, tr')" and "\<not> is_ok r"
  shows "tr' = tr \<or> tr' = tr\<lparr>tr_decode_state := None\<rparr>"
  using assms by (auto simp: add_block_def Let_def split: outcome.splits dest: finish_decoding_frame)

lemma remove_block_not_Ok:
  assumes "remove_block K CL prf tr = (r, tr')" and "\<not> is_ok r"
  shows "tr' = tr \<or> tr' = tr\<lparr>tr_decode_state := None\<rparr>"
  using assms by (auto simp: remove_block_def Let_def split: outcome.splits list.splits dest: finish_decoding_frame)

lemma do_push_frame: "do_push CL h e tr = Ok tr' \<Longrightarrow> \<exists>ls. tr' = tr\<lparr>tr_listeners := ls\<rparr>"
  by (auto simp: do_push_def outcome_simps)

lemma pushes_frame: "foldo (do_push CL h) es tr = Ok tr' \<Longrightarrow> \<exists>ls. tr' = tr\<lparr>tr_listeners := ls\<rparr>"
  by (rule foldo_invariant [where P = "\<lambda>t. \<exists>ls. t = tr\<lparr>tr_listeners := ls\<rparr>"]) (fastforce dest: do_push_frame intro: exI [of _ "tr_listeners tr"])+

lemma block_chunk_frame:
  assumes "block_chunk K CL h off c tr = Ok tr'"
  shows "\<exists>ls d. tr' = tr\<lparr>tr_listeners := ls, tr_decode_state := d\<rparr>"
proof -
  obtain tr1 tr2 d ls where "tr1 = tr\<lparr>tr_decode_state := d\<rparr>" "tr2 = tr1\<lparr>tr_listeners := ls\<rparr>" "\<exists>d. tr' = tr2\<lparr>tr_decode_state := d\<rparr>"
  proof -
    have "tr = tr\<lparr>tr_decode_state := tr_decode_state tr\<rparr>" by simp
    with assms that show thesis
      by (auto simp: block_chunk_def outcome_simps asserts_def split: if_splits dest!: pushes_frame) blast+
  qed
  then show ?thesis by auto
qed

section \<open>Runs of a tracker\<close>

inductive tracker_run :: "chain_lib \<Rightarrow> 'l chain_listener \<Rightarrow> network \<Rightarrow> ('k, 'l) chain_tracker \<Rightarrow> bool" for K CL net where
  new: "tracker_new K net height tip = Ok tr \<Longrightarrow> tracker_run K CL net tr"
| listener: "tracker_run K CL net tr \<Longrightarrow> tracker_run K CL net (add_listener key l ids tr)"
| more_watches: "tracker_run K CL net tr \<Longrightarrow> add_listener_watches key ps tr = (Ok tr' :: (unit, _) outcome) \<Longrightarrow> tracker_run K CL net tr'"
| chunk: "tracker_run K CL net tr \<Longrightarrow> block_chunk K CL h off c tr = Ok tr' \<Longrightarrow> tracker_run K CL net tr'"
| added: "tracker_run K CL net tr \<Longrightarrow> add_block K CL header prf tr = (r, tr') \<Longrightarrow> tracker_run K CL net tr'"
| removed: "tracker_run K CL net tr \<Longrightarrow> remove_block K CL prf tr = (r', tr') \<Longrightarrow> tracker_run K CL net tr'"

lemma tracker_ok_frame [simp]:
  "tracker_ok K (tr\<lparr>tr_listeners := ls\<rparr>) = tracker_ok K tr" "tracker_ok K (tr\<lparr>tr_decode_state := d\<rparr>) = tracker_ok K tr"
  by (simp_all add: tracker_ok_def)

lemma add_block_keeps:
  assumes "add_block K CL header prf tr = (r, tr')" and "tracker_ok K tr"
  shows "tracker_ok K tr' \<and> tr_network tr' = tr_network tr"
proof (cases r)
  case (Ok u)
  with assms(1) obtain ls where rule: "header_rule K (tr_network tr) (tr_height tr) (hd_header (tr_tip tr)) header"
    and tr': "tr' = tr\<lparr>tr_decode_state := None, tr_listeners := ls,
       tr_headers := tr_tip tr # take (MAX_REORG_SIZE - 1) (tr_headers tr),
       tr_tip := Headers header (txo_filter_header prf), tr_height := tr_height tr + 1\<rparr>"
    by (auto elim!: add_block_Ok dest!: tracker_validate_block_rule)
  have "valid_headers K (tr_network tr) (tr_height tr) (take MAX_REORG_SIZE (tr_tip tr # tr_headers tr))"
    using assms(2) by (intro valid_headers_take) (simp add: tracker_ok_def)
  then show ?thesis using rule by (simp add: tr' tracker_ok_def MAX_REORG_SIZE_def)
next
  case (Err e)
  with add_block_not_Ok [OF assms(1)] assms(2) show ?thesis by auto
next
  case Panic
  with add_block_not_Ok [OF assms(1)] assms(2) show ?thesis by auto
qed

lemma remove_block_keeps:
  assumes "remove_block K CL prf tr = (r, tr')" and "tracker_ok K tr"
  shows "tracker_ok K tr' \<and> tr_network tr' = tr_network tr"
proof (cases r)
  case (Ok header)
  with assms(1) obtain prev older ls where "tr_headers tr = prev # older"
    "tr' = tr\<lparr>tr_decode_state := None, tr_listeners := ls, tr_headers := older, tr_tip := prev,
       tr_height := tr_height tr - 1\<rparr>"
    by (auto elim!: remove_block_Ok)
  then show ?thesis using assms(2) by (simp add: tracker_ok_def)
next
  case (Err e)
  with remove_block_not_Ok [OF assms(1)] assms(2) show ?thesis by auto
next
  case Panic
  with remove_block_not_Ok [OF assms(1)] assms(2) show ?thesis by auto
qed

lemma tracker_run_inv: "tracker_run K CL net tr \<Longrightarrow> tracker_ok K tr \<and> tr_network tr = net"
proof (induction rule: tracker_run.induct)
  case (new height tip tr)
  then show ?case by (auto simp: tracker_new_def tracker_ok_def split: if_splits)
next
  case (listener tr key l txids)
  then show ?case by (simp add: add_listener_def)
next
  case (more_watches tr key new_watches tr')
  then show ?case by (auto simp: add_listener_watches_def outcome_simps)
next
  case (chunk tr hash offset bytes tr')
  then show ?case by (auto dest!: block_chunk_frame)
next
  case (added tr bh p r tr')
  then show ?case by (auto dest: add_block_keeps)
next
  case (removed tr p r' tr')
  then show ?case by (auto dest: remove_block_keeps)
qed

section \<open>A concrete tracker\<close>

definition example_chain_lib :: chain_lib where
  "example_chain_lib = \<lparr>ck_block_hash = (\<lambda>h. [ucast (bh_nonce h)]), ck_validate_pow = (\<lambda>_. True),
     ck_u256_from_compact = ucast, ck_compact_from_u256 = ucast, ck_decode = (\<lambda>_ _. Some []), ck_finish = (\<lambda>_. True),
     ck_verify = (\<lambda>_ _ _ _ _ _. Ok ()), ck_filter = default_filter\<rparr>"

definition example_header :: "u32 \<Rightarrow> block_header" where
  "example_header n = \<lparr>bh_version = 1, prev_blockhash = [ucast (n - 1)], merkle_root = [], bh_time = n, bh_bits = 5, bh_nonce = n\<rparr>"

definition example_proof :: txo_proof where
  "example_proof = \<lparr>txo_proof_type = ProofFilter [example_funding], txo_filter_header = [1], txo_attestations = []\<rparr>"

definition example_tracker :: "(outpoint, monitor_state \<times> listen_slot) amap \<Rightarrow> (outpoint, monitor_state) chain_tracker" where
  "example_tracker ls = \<lparr>tr_headers = [], tr_tip = Headers (example_header 1) [1], tr_height = 101, tr_network = Regtest,
     tr_listeners = ls, tr_decode_state = None\<rparr>"

lemma example_add_block:
  assumes "notify_listeners (cl_on_add_block CL [example_funding] [2]) slot_add ls = Ok ls'"
  shows "add_block example_chain_lib CL (example_header 2) example_proof (example_tracker ls) =
    (Ok (), (example_tracker ls')\<lparr>tr_headers := [Headers (example_header 1) [1]], tr_tip := Headers (example_header 2) [1],
       tr_height := 102\<rparr>)"
  using assms
  by (simp add: add_block_def example_chain_lib_def example_header_def example_proof_def example_tracker_def Let_def
      maybe_finish_decoding_block_def is_external_def asserts_def tracker_validate_block_def DIFFCHANGE_INTERVAL_def
      validate_block_def proof_txs_def notify_listeners_add_def)

text \<open>
  C30: The headers a tracker keeps always form a chain.  Whatever calls are made, every header it
  holds builds on the one below it, satisfies its proof of work and the difficulty rule of its
  height, and at most 100 headers are kept below the tip.
\<close>

theorem tracker_keeps_valid_chain:
  assumes "tracker_run K CL net tr"
  shows "valid_headers K net (tr_height tr) (tr_tip tr # tr_headers tr) \<and> length (tr_headers tr) \<le> MAX_REORG_SIZE"
  using tracker_run_inv [OF assms] by (auto simp: tracker_ok_def)

theorem tracker_keeps_valid_chain_witness:
  "\<exists>tr :: (outpoint, monitor_state) chain_tracker.
     tracker_run example_chain_lib (monitor_listener example_lib) Regtest tr \<and> length (tr_headers tr) = 1 \<and>
     valid_headers example_chain_lib Regtest 102 (tr_tip tr # tr_headers tr)"
proof -
  have new: "tracker_new example_chain_lib Regtest 101 (Headers (example_header 1) [1]) = Ok (example_tracker [])"
    by (simp add: tracker_new_def example_chain_lib_def example_tracker_def)
  let ?tr = "(example_tracker [])\<lparr>tr_headers := [Headers (example_header 1) [1]], tr_tip := Headers (example_header 2) [1],
    tr_height := 102\<rparr>"
  from tracker_run.added [OF tracker_run.new [OF new] example_add_block [of _ "[]" "[]"], of "monitor_listener example_lib"]
  have run: "tracker_run example_chain_lib (monitor_listener example_lib) Regtest ?tr" by simp
  moreover from tracker_keeps_valid_chain [OF run]
  have "valid_headers example_chain_lib Regtest 102 (tr_tip ?tr # tr_headers ?tr)" by simp
  moreover have "length (tr_headers ?tr) = 1" by simp
  ultimately show ?thesis by blast
qed

section \<open>Reorganisations\<close>

text \<open>What a listener promises: the removal of a block reports what its addition reported, and reverts it.\<close>

definition slot_fits :: "watch_changes \<Rightarrow> listen_slot \<Rightarrow> bool" where
  "slot_fits r slot \<longleftrightarrow> set (fst r) \<inter> watches slot = {} \<and> set (snd r) \<subseteq> watches slot \<union> set (fst r) \<and>
     set (snd r) \<inter> seen slot = {}"

lemma slot_remove_add: "slot_fits r slot \<Longrightarrow> slot_remove r (slot_add r slot) = slot"
  by (cases r; cases slot) (auto simp: slot_fits_def slot_remove_def slot_add_def)

locale undoing_listener =
  fixes CL :: "'l chain_listener" and ready :: "'l \<Rightarrow> listen_slot \<Rightarrow> transaction list \<Rightarrow> bool"
  assumes add_remove: "ready l slot txs \<Longrightarrow> cl_on_add_block CL txs h l = Ok (r, l') \<Longrightarrow>
      cl_on_remove_block CL txs h' l' = Ok (r, l) \<and> slot_fits r slot"
begin

lemma notify_undo:
  assumes "\<forall>e \<in> set ls. ready (fst (snd e)) (snd (snd e)) txs"
    and "notify_listeners (cl_on_add_block CL txs h) slot_add ls = Ok ls'"
  shows "notify_listeners (cl_on_remove_block CL txs h') slot_remove ls' = Ok ls"
  using assms
proof (induction ls arbitrary: ls')
  case (Cons e ls)
  obtain k l slot where e: "e = (k, (l, slot))" by (cases e) auto
  with Cons.prems(2) obtain r l' rest where add: "cl_on_add_block CL txs h l = Ok (r, l')"
    and rest: "notify_listeners (cl_on_add_block CL txs h) slot_add ls = Ok rest" "ls' = (k, (l', slot_add r slot)) # rest"
    by (auto simp: outcome_simps)
  have "cl_on_remove_block CL txs h' l' = Ok (r, l)" "slot_fits r slot"
    using add_remove [OF _ add] Cons.prems(1) e by auto
  with Cons.IH [of rest] rest Cons.prems(1) e show ?case by (simp add: slot_remove_add)
qed simp

theorem remove_undoes_add:
  assumes add: "add_block K CL header prf tr = (Ok (), tr')" and txs: "txo_proof_type prf = ProofFilter txs"
    and ready: "\<forall>e \<in> set (tr_listeners tr). ready (fst (snd e)) (snd (snd e)) txs"
    and verify: "ck_verify K prf (tr_height tr + 1) header None (hd_filter (tr_tip tr)) (snd (get_all_reverse_watches tr')) = Ok ()"
  shows "remove_block K CL prf tr' = (Ok header, tr\<lparr>tr_headers := take (MAX_REORG_SIZE - 1) (tr_headers tr)\<rparr>)"
proof -
  have ext: "\<not> is_external prf" using txs by (simp add: is_external_def)
  obtain ls where v: "tracker_validate_block K (tr\<lparr>tr_decode_state := None\<rparr>) (tr_height tr) None (tr_tip tr)
       (Headers header (txo_filter_header prf)) prf False = Ok ()"
    and n: "notify_listeners_add CL (Some txs) (ck_block_hash K header) (tr\<lparr>tr_decode_state := None\<rparr>) =
       Ok (tr\<lparr>tr_decode_state := None, tr_listeners := ls\<rparr>)"
    and tr': "tr' = tr\<lparr>tr_decode_state := None, tr_listeners := ls,
       tr_headers := tr_tip tr # take (MAX_REORG_SIZE - 1) (tr_headers tr),
       tr_tip := Headers header (txo_filter_header prf), tr_height := tr_height tr + 1\<rparr>"
    and d: "maybe_finish_decoding_block K prf (ck_block_hash K header) tr = Ok (tr\<lparr>tr_decode_state := None\<rparr>)"
    using add txs ext by (auto elim!: add_block_Ok simp: proof_txs_def)
  have none: "tr_decode_state tr = None"
    using d ext by (auto simp: maybe_finish_decoding_block_def outcome_simps asserts_def split: if_splits)
  have "notify_listeners (cl_on_remove_block CL txs h) slot_remove ls = Ok (tr_listeners tr)" for h
    using notify_undo [OF ready] n
    by (auto simp: notify_listeners_add_def outcome_simps dest: arg_cong [where f = tr_listeners])
  moreover have "tracker_validate_block K tr' (tr_height tr) None (tr_tip tr) (tr_tip tr') prf True = Ok ()"
    using v verify by (auto simp: tracker_validate_block_def tr' Let_def outcome_simps validate_block_def split: if_splits)
  moreover have "maybe_finish_decoding_block K prf h tr' = Ok tr'" for h
    using ext by (simp add: maybe_finish_decoding_block_def tr' asserts_def)
  moreover have "tr\<lparr>tr_decode_state := None, tr_headers := take (MAX_REORG_SIZE - 1) (tr_headers tr)\<rparr> =
      tr\<lparr>tr_headers := take (MAX_REORG_SIZE - 1) (tr_headers tr)\<rparr>"
    using none by simp
  ultimately show ?thesis using ext
    by (simp add: remove_block_def tr' Let_def proof_txs_def txs notify_listeners_remove_def)
qed

end

text \<open>The monitor of a channel keeps that promise, for blocks that fit its chain and watches.\<close>

definition monitor_ready :: "lib \<Rightarrow> monitor_state \<Rightarrow> listen_slot \<Rightarrow> transaction list \<Rightarrow> bool" where
  "monitor_ready L st slot txs \<longleftrightarrow> (\<exists>t v I h0 bs. monitor_run L t v I h0 bs st \<and> block_fits L t v I bs txs \<and>
     length bs < 2 ^ 32 \<and> m_saw_block st \<and> slot_fits (watch_delta L t v I txs) slot)"

interpretation ml: undoing_listener "monitor_listener L" "monitor_ready L" for L
proof
  fix st slot txs h r st' h'
  assume "monitor_ready L st slot txs" and add: "cl_on_add_block (monitor_listener L) txs h st = Ok (r, st')"
  then obtain t v I h0 bs where run: "monitor_run L t v I h0 bs st" and fits: "block_fits L t v I bs txs"
    and short: "length bs < 2 ^ 32" and "m_saw_block st" "slot_fits (watch_delta L t v I txs) slot"
    by (auto simp: monitor_ready_def)
  moreover have "st\<lparr>m_saw_block := True\<rparr> = st" using \<open>m_saw_block st\<close> by simp
  ultimately show "cl_on_remove_block (monitor_listener L) txs h' st' = Ok (r, st) \<and> slot_fits r slot"
    using add add_then_remove [where 'e = track_error, OF conjunct1 [OF monitor_run_tracks [OF run]] fits short, of h h']
    by (auto simp: monitor_listener_def)
qed

lemma example_listener:
  "\<exists>st st'. monitor_ready example_lib st \<lparr>txid_watches = {}, watches = example_inputs, seen = {}\<rparr> [example_funding] \<and>
     on_add_block example_lib [example_funding] [2] st =
       (Ok (watch_delta example_lib [1] 0 example_inputs [example_funding], st') :: (track_error, _) outcome)"
proof -
  have fits: "block_fits example_lib [1] 0 example_inputs [] []" "block_fits example_lib [1] 0 example_inputs [[]] [example_funding]"
    by (simp_all add: block_fits_def confirms_def spent_def example_funding_def)
  obtain st where st: "example_monitor_run [[]] st" "m_saw_block st"
    using example_monitor_start monitor_run_extend [OF _ fits(1)] by auto
  have "slot_fits (watch_delta example_lib [1] 0 example_inputs [example_funding])
      \<lparr>txid_watches = {}, watches = example_inputs, seen = {}\<rparr>"
    by (simp add: slot_fits_def watch_delta_def confirms_def spent_def example_funding_def)
  with st fits(2) have "monitor_ready example_lib st \<lparr>txid_watches = {}, watches = example_inputs, seen = {}\<rparr> [example_funding]"
    unfolding monitor_ready_def
    by (intro exI [of _ "[1]"] exI [of _ 0] exI [of _ example_inputs] exI [of _ 100] exI [of _ "[[]]"]) simp
  moreover obtain st' where "on_add_block example_lib [example_funding] [2] st =
       (Ok (watch_delta example_lib [1] 0 example_inputs [example_funding], st') :: (track_error, _) outcome)"
    using add_refines [where 'e = track_error, OF conjunct1 [OF monitor_run_tracks [OF st(1)]] fits(2), of "[2]"] by blast
  ultimately show ?thesis by blast
qed





end
