(* ===== verification/Node_Payments.thy ===== *)
theory Node_Payments
  imports Node_State Op_Monad "HOL-Library.Sublist"
begin

text \<open>
  The payment handlers of \<^verbatim>\<open>Node\<close> (\<^verbatim>\<open>vls-core/src/node.rs\<close>): registering invoices and keysends,
  issuing invoices, preimages, and the pruning that each heartbeat does.  The state is the
  \<open>node_state\<close> behind the mutex of the node; a call also sees the policy, the filter of the
  validator, the clock and whether persisting succeeds (\<open>node_env\<close>).  The lemmas follow every
  sequence of calls: the approved amounts stay within the velocity limit, and an invoice that was
  registered before its first HTLC is not overpaid.
\<close>

section \<open>Payment states\<close>

definition payment_state_from_invoice ::
    "invoice \<Rightarrow> (status, payment_hash \<times> payment_state \<times> bytes) outcome" where
  "payment_state_from_invoice invc =
     Ok (invoice_payment_hash invc,
         \<lparr>ps_invoice_hash = invoice_hash invc, amount_msat = amount_milli_satoshis invc,
          payee = payee_pub_key invc, duration_since_epoch = invoice_duration_since_epoch invc,
          expiry_duration = invoice_expiry_duration invc, ps_is_fulfilled = False,
          payment_type = PayInvoice\<rparr>,
         invoice_hash invc)"

definition payment_state_from_keysend ::
    "pubkey \<Rightarrow> payment_hash \<Rightarrow> u64 \<Rightarrow> duration \<Rightarrow> (status, payment_state \<times> bytes) outcome" where
  "payment_state_from_keysend payee_key hash amount now =
     Ok (\<lparr>ps_invoice_hash = hash, amount_msat = amount, payee = payee_key,
          duration_since_epoch = now, expiry_duration = from_secs 60, ps_is_fulfilled = False,
          payment_type = PayKeysend\<rparr>,
         hash)"

definition as_secs :: "duration \<Rightarrow> u64" where
  "as_secs d = of_nat (d div 10 ^ 9)"

section \<open>Handlers\<close>

record node_env =
  ne_policy :: simple_policy
  ne_validator :: validator
  ne_timeless :: bool
  ne_now :: duration
  ne_persist_ok :: bool

text \<open>
  The part that \<^verbatim>\<open>add_invoice\<close> and \<^verbatim>\<open>add_keysend\<close> have in common, from the check of the number
  of invoices on.  \<open>sec\<close> is the reading of the clock for the velocity control, which moves its
  window even when it refuses the amount.  A failure to persist panics.
\<close>

definition approve_velocity :: "u64 \<Rightarrow> u64 \<Rightarrow> (node_state, bool) op" where
  "approve_velocity sec amount =
     (\<lambda>st. case velocity_insert (ns_velocity_control st) sec amount of
        Ok (ok, vc) \<Rightarrow> (Ok ok, st\<lparr>ns_velocity_control := vc\<rparr>)
      | Err e \<Rightarrow> (Err e, st)
      | Panic \<Rightarrow> (Panic, st))"

definition register_payment ::
    "node_env \<Rightarrow> string \<Rightarrow> u64 \<Rightarrow> payment_hash \<Rightarrow> payment_state \<Rightarrow> bytes \<Rightarrow> (node_state, bool) op" where
  "register_payment E msg sec hash ps inv_hash =
     bindS (readS (\<lambda>st. if length (invoices st) \<ge> max_invoices (ne_policy E)
              then Err (failed_precondition ''too many invoices ({} >= {})'') else Ok ())) (\<lambda>_.
     bindS (getS (\<lambda>st. map_of (invoices st) hash)) (\<lambda>existing.
     case existing of
       Some p \<Rightarrow> liftS (if ps_invoice_hash p = inv_hash then Ok True else Err (failed_precondition msg))
     | None \<Rightarrow>
         bindS (approve_velocity sec (amount_msat ps)) (\<lambda>ok.
         if \<not> ok then returnS False
         else
           bindS (modifyS (\<lambda>st. st\<lparr>invoices := AList.update hash ps (invoices st),
                                    payments := or_insert hash routed_payment_new (payments st)\<rparr>)) (\<lambda>_.
           bindS (liftS (asserts (ne_persist_ok E))) (\<lambda>_. returnS True)))))"

definition add_invoice :: "node_env \<Rightarrow> invoice \<Rightarrow> (node_state, bool) op" where
  "add_invoice E invc =
     bindS (liftS (into_status (validate_invoice (v_filter (ne_validator E)) (ne_timeless E) invc (ne_now E)))) (\<lambda>_.
     bindS (liftS (payment_state_from_invoice invc)) (\<lambda>(hash, ps, inv_hash).
     register_payment E ''add_invoice: already have a different invoice for same payment_hash''
       (as_secs (ne_now E)) hash ps inv_hash))"

text \<open>\<^verbatim>\<open>add_keysend\<close> reads the clock a second time, for the velocity control.\<close>

definition add_keysend ::
    "node_env \<Rightarrow> duration \<Rightarrow> pubkey \<Rightarrow> payment_hash \<Rightarrow> u64 \<Rightarrow> (node_state, bool) op" where
  "add_keysend E now2 payee_key hash amount =
     bindS (liftS (payment_state_from_keysend payee_key hash amount (ne_now E))) (\<lambda>(ps, inv_hash).
     register_payment E ''add_keysend: already have a different keysend for same payment_hash''
       (as_secs now2) hash ps inv_hash)"

definition has_payment :: "payment_hash \<Rightarrow> bytes \<Rightarrow> (node_state, bool) op" where
  "has_payment hash inv_hash = readS (\<lambda>st.
     case map_of (invoices st) hash of
       Some p \<Rightarrow> if ps_invoice_hash p = inv_hash then Ok True
                 else Err (failed_precondition ''has_payment: already have a different invoice for same secret'')
     | None \<Rightarrow> Ok False)"

text \<open>
  Parsing, hashing and signing a BOLT 11 invoice is code of other crates (\<open>invoice_lib\<close>).
\<close>

record invoice_lib =
  il_utf8 :: "bytes \<Rightarrow> string option"
  il_parse_hrp :: "string \<Rightarrow> bytes option"
  il_from_base32 :: "u8 list \<Rightarrow> bytes option"
  il_preimage :: "bytes \<Rightarrow> u8 list \<Rightarrow> bytes"
  il_sign_recoverable :: "bytes \<Rightarrow> secret \<Rightarrow> signature"
  il_from_signed :: "bytes \<Rightarrow> bytes \<Rightarrow> signature \<Rightarrow> invoice option"

definition do_sign_invoice ::
    "lib \<Rightarrow> invoice_lib \<Rightarrow> secret \<Rightarrow> bytes \<Rightarrow> u8 list \<Rightarrow> (status, bytes \<times> bytes \<times> signature) outcome" where
  "do_sign_invoice L I node_secret hrp_bytes invoice_data =
     bindo (ok_or (invalid_argument ''invoice hrp not utf-8'') (il_utf8 I hrp_bytes)) (\<lambda>s.
     bindo (ok_or (invalid_argument ''parse error: {}'') (il_parse_hrp I s)) (\<lambda>hrp.
     bindo (ok_or (invalid_argument ''parse error: {}'') (il_from_base32 I invoice_data)) (\<lambda>data.
     Ok (hrp, data, il_sign_recoverable I (lib_sha256 L (il_preimage I hrp_bytes invoice_data)) node_secret))))"

definition sign_invoice ::
    "lib \<Rightarrow> invoice_lib \<Rightarrow> node_env \<Rightarrow> secret \<Rightarrow> bytes \<Rightarrow> u8 list \<Rightarrow> (node_state, signature) op" where
  "sign_invoice L I E node_secret hrp_bytes invoice_data =
     bindS (liftS (do_sign_invoice L I node_secret hrp_bytes invoice_data)) (\<lambda>(hrp, data, sig).
     bindS (liftS (ok_or (invalid_argument ''{}'') (il_from_signed I hrp data sig))) (\<lambda>invc.
     bindS (liftS (payment_state_from_invoice invc)) (\<lambda>(hash, ps, inv_hash).
     bindS (readS (\<lambda>st. if length (issued_invoices st) \<ge> max_invoices (ne_policy E)
              then Err (failed_precondition ''too many invoices {} (max {})'') else Ok ())) (\<lambda>_.
     bindS (getS (\<lambda>st. map_of (issued_invoices st) hash)) (\<lambda>existing.
     case existing of
       Some p \<Rightarrow> liftS (if ps_invoice_hash p = inv_hash then Ok sig
                  else Err (failed_precondition ''sign_invoice: already have a different invoice for same secret''))
     | None \<Rightarrow>
         bindS (modifyS (\<lambda>st. st\<lparr>issued_invoices := AList.update hash ps (issued_invoices st)\<rparr>)) (\<lambda>_.
         returnS sig))))))"

definition htlcs_fulfilled :: "lib \<Rightarrow> validator \<Rightarrow> bytes list \<Rightarrow> (node_state, unit) op" where
  "htlcs_fulfilled L V preimages = updateS (\<lambda>st.
     foldo (\<lambda>pre st. bindo (htlc_fulfilled L pre V st) (\<lambda>(_, st'). Ok st')) preimages st)"

definition update_velocity_controls :: "simple_policy \<Rightarrow> node_state \<Rightarrow> node_state" where
  "update_velocity_controls P st =
     st\<lparr>ns_velocity_control := update_spec (ns_velocity_control st) (global_velocity_control P),
        ns_fee_velocity_control := update_spec (ns_fee_velocity_control st) (fee_velocity_control P)\<rparr>"

text \<open>The pruning of \<^verbatim>\<open>get_heartbeat\<close>.\<close>

definition heartbeat_prune :: "bool \<Rightarrow> duration \<Rightarrow> (node_state, unit) op" where
  "heartbeat_prune timeless now =
     bindS (updateS (\<lambda>st. bindo (prune_invoices timeless now st) (\<lambda>(_, st'). Ok st'))) (\<lambda>_.
     bindS (updateS (\<lambda>st. bindo (prune_issued_invoices timeless now st) (\<lambda>(_, st'). Ok st'))) (\<lambda>_.
     modifyS (\<lambda>st. snd (prune_forwarded_payments st))))"

section \<open>Sequences of calls\<close>

text \<open>
  A change of the HTLCs of a channel: the payments are validated and then applied, as the
  commitment handlers of the channel do.
\<close>

definition update_payments ::
    "validator \<Rightarrow> channel_id \<Rightarrow> summary \<Rightarrow> summary \<Rightarrow> balance_delta \<Rightarrow> (node_state, unit) op" where
  "update_payments V cid incoming_summary outgoing_summary delta =
     bindS (readS (\<lambda>st. into_status (validate_payments cid incoming_summary outgoing_summary delta V st))) (\<lambda>_.
     updateS (apply_payments cid incoming_summary outgoing_summary delta V))"

datatype pay_call =
    AddInvoice invoice
  | AddKeysend duration pubkey payment_hash u64
  | HasPayment payment_hash bytes
  | SignInvoice bytes "u8 list"
  | UpdatePayments channel_id summary summary balance_delta
  | HtlcsFulfilled "bytes list"
  | HeartbeatPrune

record pay_ctx =
  pc_lib :: lib
  pc_invoice_lib :: invoice_lib
  pc_node_secret :: secret
  pc_policy :: simple_policy
  pc_validator :: validator
  pc_timeless :: bool

definition env_at :: "pay_ctx \<Rightarrow> duration \<Rightarrow> bool \<Rightarrow> node_env" where
  "env_at X now persist_ok =
     \<lparr>ne_policy = pc_policy X, ne_validator = pc_validator X, ne_timeless = pc_timeless X,
      ne_now = now, ne_persist_ok = persist_ok\<rparr>"

text \<open>One call; \<open>True\<close> stands for the result of a handler that does not return a boolean.\<close>

fun pay_step :: "pay_ctx \<Rightarrow> node_env \<Rightarrow> pay_call \<Rightarrow> (node_state, bool) op" where
  "pay_step X E (AddInvoice invc) = add_invoice E invc"
| "pay_step X E (AddKeysend now2 payee_key hash amount) = add_keysend E now2 payee_key hash amount"
| "pay_step X E (HasPayment hash inv_hash) = has_payment hash inv_hash"
| "pay_step X E (SignInvoice hrp data) =
     bindS (sign_invoice (pc_lib X) (pc_invoice_lib X) E (pc_node_secret X) hrp data) (\<lambda>_. returnS True)"
| "pay_step X E (UpdatePayments cid i out delta) =
     bindS (update_payments (ne_validator E) cid i out delta) (\<lambda>_. returnS True)"
| "pay_step X E (HtlcsFulfilled preimages) =
     bindS (htlcs_fulfilled (pc_lib X) (ne_validator E) preimages) (\<lambda>_. returnS True)"
| "pay_step X E HeartbeatPrune =
     bindS (heartbeat_prune (ne_timeless E) (ne_now E)) (\<lambda>_. returnS True)"

text \<open>The payment a call asks to approve: its hash, the time in seconds, and the amount.\<close>

fun payment_of :: "duration \<Rightarrow> pay_call \<Rightarrow> (payment_hash \<times> u64 \<times> u64) option" where
  "payment_of now (AddInvoice invc) =
     Some (invoice_payment_hash invc, as_secs now, amount_milli_satoshis invc)"
| "payment_of now (AddKeysend now2 payee_key hash amount) = Some (hash, as_secs now2, amount)"
| "payment_of now _ = None"

text \<open>
  A run keeps, beside the node state, the payments approved so far (time and amount, latest first)
  and the hashes that were registered only after an HTLC for them was already in flight.  A panic
  poisons the mutex of the state: the run has no result.
\<close>

type_synonym pay_log = "history \<times> payment_hash list"

definition note_approval ::
    "(payment_hash \<times> u64 \<times> u64) option \<Rightarrow> node_state \<Rightarrow> (status, bool) outcome \<Rightarrow> pay_log \<Rightarrow> pay_log" where
  "note_approval req st r plog =
     (case req of None \<Rightarrow> plog
      | Some (hash, sec, amount) \<Rightarrow>
          if r = Ok True \<and> map_of (invoices st) hash = None
          then ((sec, amount) # fst plog,
                (if map_of (payments st) hash = None then [] else [hash]) @ snd plog)
          else plog)"

fun pay_run ::
    "pay_ctx \<Rightarrow> (duration \<times> bool \<times> pay_call) list \<Rightarrow> node_state \<times> pay_log \<Rightarrow> (node_state \<times> pay_log) option" where
  "pay_run X [] s = Some s"
| "pay_run X ((now, persist_ok, c) # cs) (st, plog) =
     (case pay_step X (env_at X now persist_ok) c st of
        (Panic, _) \<Rightarrow> None
      | (r, st') \<Rightarrow> pay_run X cs (st', note_approval (payment_of now c) st r plog))"

definition call_secs :: "(duration \<times> bool \<times> pay_call) list \<Rightarrow> u64 list" where
  "call_secs cs = concat (map (\<lambda>(now, _, c). case payment_of now c of None \<Rightarrow> [] | Some (_, sec, _) \<Rightarrow> [sec]) cs)"

section \<open>The velocity limit\<close>

text \<open>Only the registration of a payment touches the velocity control.\<close>

lemma apply_payments_frame:
  assumes "apply_payments cid i out delta V st = Ok st'"
  shows "invoices st' = invoices st \<and> ns_velocity_control st' = ns_velocity_control st"
  using assms unfolding apply_payments_def Let_def
  by (auto simp: bindo_Ok_iff split: prod.splits)

lemma htlc_fulfilled_frame:
  assumes "htlc_fulfilled L pre V st = Ok (b, st')"
  shows "invoices st' = invoices st \<and> ns_velocity_control st' = ns_velocity_control st"
  using assms by (auto simp: htlc_fulfilled_def Let_def bindo_Ok_iff split: option.splits if_splits prod.splits)

lemma prune_invoices_frame:
  assumes "prune_invoices timeless now st = Ok (b, st')"
  shows "ns_velocity_control st' = ns_velocity_control st \<and>
         (\<exists>D. invoices st' = filter (\<lambda>(h, _). h \<notin> D) (invoices st) \<and>
              payments st' = filter (\<lambda>(h, _). h \<notin> D) (payments st))"
  using assms by (auto simp: prune_invoices_def Let_def bindo_Ok_iff)

lemma prune_issued_frame:
  assumes "prune_issued_invoices timeless now st = Ok (b, st')"
  shows "ns_velocity_control st' = ns_velocity_control st \<and> invoices st' = invoices st \<and>
         payments st' = payments st"
  using assms by (auto simp: prune_issued_invoices_def bindo_Ok_iff)

lemma htlcs_fold_keeps:
  assumes "foldo (\<lambda>pre st. bindo (htlc_fulfilled L pre V st) (\<lambda>(_, st'). Ok st')) ps st = (Ok st' :: ('e, _) outcome)"
    and "\<And>pre st b st'. P st \<Longrightarrow> htlc_fulfilled L pre V st = (Ok (b, st') :: ('e, _) outcome) \<Longrightarrow> P st'"
    and "P st"
  shows "P st'"
  using assms(1,3)
proof (induction ps arbitrary: st)
  case (Cons a ps)
  then show ?case using assms(2) by (auto simp: bindo_Ok_iff split: prod.splits)
qed simp

lemma velocity_kept:
  "keeps (\<lambda>st. ns_velocity_control st = vc) (has_payment h b)"
  "keeps (\<lambda>st. ns_velocity_control st = vc) (sign_invoice L I E sk hrp data)"
  "keeps (\<lambda>st. ns_velocity_control st = vc) (update_payments V cid i out delta)"
  "keeps (\<lambda>st. ns_velocity_control st = vc) (heartbeat_prune timeless now)"
  unfolding has_payment_def sign_invoice_def update_payments_def heartbeat_prune_def
  by (auto intro!: keeps_bind keeps_modify keeps_update split: option.splits prod.splits
      dest: apply_payments_frame prune_invoices_frame prune_issued_frame
      simp: bindo_Ok_iff prune_forwarded_payments_def Let_def)

lemma velocity_kept_htlcs: "keeps (\<lambda>st. ns_velocity_control st = vc) (htlcs_fulfilled L V ps)"
  unfolding htlcs_fulfilled_def
  by (intro keeps_update) (erule htlcs_fold_keeps, auto dest: htlc_fulfilled_frame)

text \<open>What a registration does, on every branch that does not panic.\<close>

lemma register_payment_cases:
  assumes "register_payment E msg sec h ps ih st = (r, st')" and "r \<noteq> Panic"
  shows "(st' = st \<and> \<not> (r = Ok True \<and> map_of (invoices st) h = None)) \<or>
         (map_of (invoices st) h = None \<and> (\<exists>ok vc. r = Ok ok \<and>
            velocity_insert (ns_velocity_control st) sec (amount_msat ps) = (Ok (ok, vc) :: (status, _) outcome) \<and>
            st' = (if ok then st\<lparr>ns_velocity_control := vc, invoices := AList.update h ps (invoices st),
                                 payments := or_insert h routed_payment_new (payments st)\<rparr>
                   else st\<lparr>ns_velocity_control := vc\<rparr>)))"
  using assms
  by (auto simp: register_payment_def approve_velocity_def bindS_def readS_def getS_def liftS_def modifyS_def
      returnS_def asserts_def split: if_splits option.splits outcome.splits prod.splits)

lemma add_invoice_run:
  assumes "into_status (validate_invoice (v_filter (ne_validator E)) (ne_timeless E) invc (ne_now E)) = Ok u"
  shows "\<exists>ps msg ih. amount_msat ps = amount_milli_satoshis invc \<and>
           add_invoice E invc st = register_payment E msg (as_secs (ne_now E)) (invoice_payment_hash invc) ps ih st"
  using assms unfolding add_invoice_def payment_state_from_invoice_def
  by (simp add: run_simps) (metis payment_state.select_convs(2))

lemma add_keysend_run:
  "\<exists>ps msg ih. amount_msat ps = amount \<and>
     add_keysend E now2 k h amount st = register_payment E msg (as_secs now2) h ps ih st"
  unfolding add_keysend_def payment_state_from_keysend_def
  by (simp add: run_simps) (metis payment_state.select_convs(2))

lemma env_at_simps [simp]:
  "ne_policy (env_at X now ok) = pc_policy X" "ne_validator (env_at X now ok) = pc_validator X"
  "ne_timeless (env_at X now ok) = pc_timeless X" "ne_now (env_at X now ok) = now"
  "ne_persist_ok (env_at X now ok) = ok"
  by (simp_all add: env_at_def)

lemma pay_step_register:
  assumes "payment_of now c = Some (h, sec, amount)" and "pay_step X (env_at X now ok) c st = (r, st')" and "r \<noteq> Panic"
  shows "(st' = st \<and> \<not> (r = Ok True \<and> map_of (invoices st) h = None)) \<or>
         (map_of (invoices st) h = None \<and> (\<exists>b vc ps. r = Ok b \<and>
            velocity_insert (ns_velocity_control st) sec amount = (Ok (b, vc) :: (status, _) outcome) \<and>
            st' = (if b then st\<lparr>ns_velocity_control := vc, invoices := AList.update h ps (invoices st),
                                payments := or_insert h routed_payment_new (payments st)\<rparr>
                   else st\<lparr>ns_velocity_control := vc\<rparr>)))"
proof (cases c)
  case (AddInvoice invc)
  let ?E = "env_at X now ok"
  show ?thesis
  proof (cases "into_status (validate_invoice (v_filter (ne_validator ?E)) (ne_timeless ?E) invc (ne_now ?E))")
    case (Ok u)
    from add_invoice_run [OF Ok, of st] AddInvoice assms(1,2) obtain ps msg ih where
      reg: "amount_msat ps = amount" "register_payment ?E msg sec h ps ih st = (r, st')" by auto
    from register_payment_cases [OF reg(2) assms(3), unfolded reg(1)] show ?thesis by blast
  qed (use assms AddInvoice in \<open>auto simp: add_invoice_def bindS_def liftS_def\<close>)
next
  case (AddKeysend now2 k h' a)
  let ?E = "env_at X now ok"
  from add_keysend_run [of a ?E now2 k h' st] AddKeysend assms(1,2) obtain ps msg ih where
    reg: "amount_msat ps = amount" "register_payment ?E msg sec h ps ih st = (r, st')" by auto
  from register_payment_cases [OF reg(2) assms(3), unfolded reg(1)] show ?thesis by blast
qed (use assms in auto)

lemma pay_step_velocity_kept:
  assumes "payment_of now c = None" and "pay_step X E c st = (r, st')"
  shows "ns_velocity_control st' = ns_velocity_control st"
proof -
  have "keeps (\<lambda>st'. ns_velocity_control st' = ns_velocity_control st) (pay_step X E c)"
    using assms(1) by (cases c) (auto intro!: keeps_bind velocity_kept velocity_kept_htlcs)
  from keepsD [OF this _ assms(2)] show ?thesis by simp
qed

lemma pay_step_velocity:
  assumes "pay_step X (env_at X now ok) c st = (r, st')" and "r \<noteq> Panic"
  shows "\<exists>evs. subseq (map fst evs) (call_secs [(now, ok, c)]) \<and>
           velocity_run (ns_velocity_control st) (fst plog) evs =
             (Ok (ns_velocity_control st', fst (note_approval (payment_of now c) st r plog)) :: (status, _) outcome)"
proof (cases "payment_of now c")
  case None
  with pay_step_velocity_kept [OF None assms(1)] show ?thesis
    by (intro exI [of _ "[]"]) (simp add: note_approval_def)
next
  case (Some p)
  obtain h sec amount where p: "p = (h, sec, amount)" by (cases p)
  from pay_step_register [OF Some [unfolded p] assms]
  consider "st' = st" "\<not> (r = Ok True \<and> map_of (invoices st) h = None)"
    | b vc where "map_of (invoices st) h = None" "r = Ok b" "ns_velocity_control st' = vc"
      "velocity_insert (ns_velocity_control st) sec amount = (Ok (b, vc) :: (status, _) outcome)"
    by (auto split: if_splits)
  then show ?thesis
  proof cases
    case 1
    then show ?thesis
      by (intro exI [of _ "[]"]) (auto simp: note_approval_def Some p)
  next
    case 2
    then show ?thesis
      by (intro exI [of _ "[(sec, amount)]"]) (auto simp: note_approval_def Some p call_secs_def)
  qed
qed

lemma velocity_run_append:
  "velocity_run vc h (xs @ ys) = bindo (velocity_run vc h xs) (\<lambda>(vc', h'). velocity_run vc' h' ys)"
proof (induction xs arbitrary: vc h)
  case (Cons x xs)
  then show ?case by (cases x) (simp add: bindo_assoc case_prod_unfold)
qed simp

lemma sorted_subseq: "subseq xs ys \<Longrightarrow> sorted ys \<Longrightarrow> sorted xs"
  by (induction rule: list_emb.induct) (auto dest: list_emb_set)

lemma call_secs_Cons: "call_secs (c # cs) = call_secs [c] @ call_secs cs"
  by (simp add: call_secs_def)

lemma pay_run_velocity:
  assumes "pay_run X cs (st, plog) = Some (st', plog')"
  shows "\<exists>evs. subseq (map fst evs) (call_secs cs) \<and>
           velocity_run (ns_velocity_control st) (fst plog) evs =
             (Ok (ns_velocity_control st', fst plog') :: (status, _) outcome)"
  using assms
proof (induction cs arbitrary: st plog)
  case Nil
  then show ?case by (intro exI [of _ "[]"]) simp
next
  case (Cons x cs)
  obtain now ok c where x: "x = (now, ok, c)" by (cases x)
  obtain r st1 where step: "pay_step X (env_at X now ok) c st = (r, st1)" by fastforce
  let ?log = "note_approval (payment_of now c) st r plog"
  from Cons.prems step have r: "r \<noteq> Panic" and rest: "pay_run X cs (st1, ?log) = Some (st', plog')"
    by (auto simp: x split: outcome.splits)
  obtain e1 where e1: "subseq (map fst e1) (call_secs [x])"
      "velocity_run (ns_velocity_control st) (fst plog) e1 =
         (Ok (ns_velocity_control st1, fst ?log) :: (status, _) outcome)"
    using pay_step_velocity [OF step r, of plog] unfolding x by (elim exE conjE)
  obtain e2 where e2: "subseq (map fst e2) (call_secs cs)"
      "velocity_run (ns_velocity_control st1) (fst ?log) e2 =
         (Ok (ns_velocity_control st', fst plog') :: (status, _) outcome)"
    using Cons.IH [OF rest] by (elim exE conjE)
  have "subseq (map fst (e1 @ e2)) (call_secs (x # cs))"
    unfolding call_secs_Cons [of x cs] map_append using e1(1) e2(1) by (rule list_emb_append_mono)
  then show ?case
    by (intro exI [of _ "e1 @ e2"]) (simp add: velocity_run_append e1(2) e2(2))
qed


section \<open>No invoice is overpaid\<close>

lemma filter_irrelevant_key:
  assumes "\<And>v. Q k v"
  shows "map_of (filter (\<lambda>(k, v). Q k v) m) k = map_of m k"
  using assms by (induction m) auto

lemma prune_invoices_balanced:
  assumes "prune_invoices timeless now st = Ok (b, st')" and "balanced_at fee st h"
  shows "balanced_at fee st' h"
  using prune_invoices_frame [OF assms(1)] assms(2)
  by (auto simp: balanced_at_def map_of_filter_keys split: if_splits)

lemma prune_issued_balanced:
  assumes "prune_issued_invoices timeless now st = Ok (b, st')" and "balanced_at fee st h"
  shows "balanced_at fee st' h"
  using prune_issued_frame [OF assms(1)] assms(2) by (simp add: balanced_at_def)

lemma prune_forwarded_balanced:
  assumes "balanced_at fee st h"
  shows "balanced_at fee (snd (prune_forwarded_payments st)) h"
  unfolding balanced_at_def
proof (intro allI impI, elim conjE)
  fix ps p
  assume inv: "map_of (invoices (snd (prune_forwarded_payments st))) h = Some ps"
    and pay: "map_of (payments (snd (prune_forwarded_payments st))) h = Some p"
  from inv have inv: "map_of (invoices st) h = Some ps" by (simp add: prune_forwarded_payments_def Let_def)
  with pay have "map_of (payments st) h = Some p"
    by (simp add: prune_forwarded_payments_def Let_def filter_irrelevant_key is_forwarded_payment_prunable_def)
  with inv assms show "invoice_balanced fee ps p" by (simp add: balanced_at_def)
qed

lemma htlc_fulfilled_balanced:
  assumes "balanced_at fee st h" and "htlc_fulfilled L pre V st = Ok (b, st')"
  shows "balanced_at fee st' h"
  using assms by (auto simp: balanced_at_def htlc_fulfilled_def Let_def bindo_Ok_iff amap_simps invoice_balanced_def
      total_in_def total_out_def split: option.splits if_splits prod.splits)

lemma balanced_at_frame [simp]:
  "balanced_at fee (st\<lparr>issued_invoices := i\<rparr>) h = balanced_at fee st h"
  "balanced_at fee (st\<lparr>ns_velocity_control := vc\<rparr>) h = balanced_at fee st h"
  by (simp_all add: balanced_at_def)

lemma balanced_kept:
  "keeps (\<lambda>st. balanced_at fee st h) (has_payment h' b)"
  "keeps (\<lambda>st. balanced_at fee st h) (sign_invoice L I E sk hrp data)"
  "keeps (\<lambda>st. balanced_at fee st h) (heartbeat_prune timeless now)"
  unfolding has_payment_def sign_invoice_def heartbeat_prune_def
  by (auto intro!: keeps_bind keeps_modify keeps_update prune_forwarded_balanced split: option.splits prod.splits
      intro: prune_invoices_balanced prune_issued_balanced simp: bindo_Ok_iff)

lemma balanced_kept_htlcs: "keeps (\<lambda>st. balanced_at fee st h) (htlcs_fulfilled L V ps)"
  unfolding htlcs_fulfilled_def
  by (intro keeps_update) (erule htlcs_fold_keeps, auto intro: htlc_fulfilled_balanced)

lemma balanced_new: "invoice_balanced fee ps routed_payment_new"
  by (simp add: invoice_balanced_def total_out_def routed_payment_new_def values_of_def)

lemma register_balanced:
  assumes "balanced_at fee st h" and "h = h0 \<Longrightarrow> map_of (payments st) h0 = None"
  shows "balanced_at fee (st\<lparr>ns_velocity_control := vc, invoices := AList.update h0 ps (invoices st),
           payments := or_insert h0 routed_payment_new (payments st)\<rparr>) h"
  using assms by (auto simp: balanced_at_def amap_simps balanced_new split: if_splits)

lemma note_approval_late: "set (snd plog) \<subseteq> set (snd (note_approval req st r plog))"
  by (auto simp: note_approval_def split: option.splits)

context payment_validator
begin

lemma update_payments_balanced: "keeps (\<lambda>st. balanced_at fee st h) (update_payments V cid i out delta)"
  unfolding keeps_wp update_payments_def
  by (auto simp: wp_simps outcome_simps split: outcome.splits intro: update_keeps_balanced)

lemma pay_step_balanced:
  assumes "pc_validator X = V" and "pay_step X (env_at X now ok) c st = (r, st')" and "r \<noteq> Panic"
    and "balanced_at fee st h" and "h \<notin> set (snd (note_approval (payment_of now c) st r plog))"
  shows "balanced_at fee st' h"
proof (cases "payment_of now c")
  case None
  have "keeps (\<lambda>st. balanced_at fee st h) (update_payments (pc_validator X) cid i out delta)" for cid i out delta
    unfolding assms(1) by (rule update_payments_balanced)
  with None have "keeps (\<lambda>st. balanced_at fee st h) (pay_step X (env_at X now ok) c)"
    by (cases c) (auto intro!: keeps_bind balanced_kept balanced_kept_htlcs)
  from keepsD [OF this assms(4,2)] show ?thesis .
next
  case (Some p)
  obtain h0 sec amount where p: "p = (h0, sec, amount)" by (cases p)
  from pay_step_register [OF Some [unfolded p] assms(2,3)]
  consider "st' = st" | vc where "st' = st\<lparr>ns_velocity_control := vc\<rparr>"
    | vc ps where "map_of (invoices st) h0 = None" "r = Ok True" "st' = st\<lparr>ns_velocity_control := vc,
        invoices := AList.update h0 ps (invoices st), payments := or_insert h0 routed_payment_new (payments st)\<rparr>"
    by (auto split: if_splits)
  then show ?thesis
  proof cases
    case 3
    with assms(5) have "h = h0 \<Longrightarrow> map_of (payments st) h0 = None"
      by (auto simp: note_approval_def Some p split: if_splits)
    with 3(3) assms(4) show ?thesis by (simp add: register_balanced)
  qed (use assms(4) in simp_all)
qed

lemma pay_run_balanced:
  assumes "pc_validator X = V" and "pay_run X cs (st, plog) = Some (st', plog')"
    and "h \<notin> set (snd plog) \<Longrightarrow> balanced_at fee st h" and "h \<notin> set (snd plog')"
  shows "h \<notin> set (snd plog) \<and> balanced_at fee st' h"
  using assms(2,3)
proof (induction cs arbitrary: st plog)
  case Nil
  with assms(4) show ?case by simp
next
  case (Cons x cs)
  obtain now ok c where x: "x = (now, ok, c)" by (cases x)
  obtain r st1 where step: "pay_step X (env_at X now ok) c st = (r, st1)" by fastforce
  let ?log = "note_approval (payment_of now c) st r plog"
  from Cons.prems step have r: "r \<noteq> Panic" and rest: "pay_run X cs (st1, ?log) = Some (st', plog')"
    by (auto simp: x split: outcome.splits)
  have "balanced_at fee st1 h" if "h \<notin> set (snd ?log)"
    using pay_step_balanced [OF assms(1) step r _ that] Cons.prems(2) that note_approval_late by blast
  from Cons.IH [OF rest this] show ?case using note_approval_late by blast
qed

end


text \<open>A keysend is approved, a second one exceeds the limit, and the first is paid over a channel.\<close>

definition example_invoice_lib :: invoice_lib where
  "example_invoice_lib =
     \<lparr>il_utf8 = (\<lambda>_. None), il_parse_hrp = (\<lambda>_. None), il_from_base32 = (\<lambda>_. None),
      il_preimage = (\<lambda>b d. b @ d), il_sign_recoverable = (\<lambda>h s. h), il_from_signed = (\<lambda>_ _ _. None)\<rparr>"

definition example_pay_ctx :: pay_ctx where
  "example_pay_ctx =
     \<lparr>pc_lib = example_lib, pc_invoice_lib = example_invoice_lib, pc_node_secret = [1],
      pc_policy = make_simple_policy Testnet, pc_validator = simple_validator example_lib (make_simple_policy Testnet),
      pc_timeless = False\<rparr>"

definition example_pay_calls :: "(duration \<times> bool \<times> pay_call) list" where
  "example_pay_calls =
     [(from_secs 1000, True, AddKeysend (from_secs 1000) [2] [7] 60000000),
      (from_secs 1100, True, AddKeysend (from_secs 1100) [2] [8] 50000000),
      (from_secs 1200, True, UpdatePayments [9] [] [([7], 60000)] (0, 0))]"

definition example_small_control :: velocity_control where
  "example_small_control = \<lparr>start_sec = 0, bucket_interval = 300, buckets = [0, 0], limit = 100000000\<rparr>"

definition example_paid_control :: velocity_control where
  "example_paid_control = \<lparr>start_sec = 900, bucket_interval = 300, buckets = [60000000, 0], limit = 100000000\<rparr>"

definition example_paid_state :: node_state where
  "example_paid_state =
     (node_state_new example_paid_control example_velocity_control)
       \<lparr>invoices := [([7], \<lparr>ps_invoice_hash = [7], amount_msat = 60000000, payee = [2],
          duration_since_epoch = from_secs 1000, expiry_duration = from_secs 60, ps_is_fulfilled = False,
          payment_type = PayKeysend\<rparr>)],
        payments := [([7], routed_payment_new\<lparr>incoming := [([9], 0)], outgoing := [([9], 60000)]\<rparr>)]\<rparr>"

lemma example_insert:
  "velocity_insert example_small_control 1000 60000000 = Ok (True, example_paid_control)"
  "velocity_insert example_paid_control 1100 50000000 = Ok (False, example_paid_control)"
  by (simp_all add: velocity_insert_def shift_buckets_def velocity_def example_small_control_def
      example_paid_control_def Let_def asserts_def saturating_add_def)

definition example_registered_state :: node_state where
  "example_registered_state = example_paid_state\<lparr>payments := [([7], routed_payment_new)]\<rparr>"

lemma example_secs: "as_secs (from_secs 1000) = 1000" "as_secs (from_secs 1100) = 1100"
  by (simp_all add: as_secs_def from_secs_def)

lemmas example_register_simps =
  add_keysend_def payment_state_from_keysend_def register_payment_def approve_velocity_def bindS_def readS_def
  getS_def liftS_def modifyS_def returnS_def example_insert example_secs example_pay_ctx_def make_simple_policy_def
  example_registered_state_def example_paid_state_def node_state_new_def or_insert_def

lemma example_step1:
  "add_keysend (env_at example_pay_ctx (from_secs 1000) True) (from_secs 1000) [2] [7] 60000000
     (node_state_new example_small_control example_velocity_control) = (Ok True, example_registered_state)"
  by (simp add: example_register_simps asserts_def)

lemma example_step2:
  "add_keysend (env_at example_pay_ctx (from_secs 1100) True) (from_secs 1100) [2] [8] 50000000
     example_registered_state = (Ok False, example_registered_state)"
  by (simp add: example_register_simps asserts_def)

lemma example_step3:
  "update_payments (pc_validator example_pay_ctx) [9] [] [([7], 60000)] (0, 0) example_registered_state =
     (Ok (), example_paid_state)"
proof -
  have "validate_payments [9] [] [([7], 60000)] (0, 0) (pc_validator example_pay_ctx) example_registered_state = Ok ()"
    by (simp add: validate_payments_def unbalanced_payments_def summary_hashes_def keys_of_def is_unbalanced_def
        example_pay_ctx_def example_registered_state_def example_paid_state_def node_state_new_def simple_validator_def
        validate_payment_balance_def updated_incoming_outgoing_def routed_payment_new_def get_or_def values_of_def
        sum_u64_def guarded_def make_simple_policy_def)
  moreover have "apply_payments [9] [] [([7], 60000)] (0, 0) (pc_validator example_pay_ctx) example_registered_state =
      (Ok example_paid_state :: (status, node_state) outcome)"
    by (simp add: apply_payments_def summary_hashes_def keys_of_def note_payment_def or_insert_def get_or_def
        modify_payment_def routed_payment_apply_def unwrap_def example_pay_ctx_def example_registered_state_def
        example_paid_state_def node_state_new_def simple_validator_def make_simple_policy_def routed_payment_new_def)
  ultimately show ?thesis by (simp add: update_payments_def bindS_def readS_def updateS_def)
qed

lemma example_pay_run:
  "pay_run example_pay_ctx example_pay_calls (node_state_new example_small_control example_velocity_control, [], []) =
   Some (example_paid_state, [(1000, 60000000)], [])"
proof -
  have "map_of (invoices (node_state_new example_small_control example_velocity_control)) [7] = None"
    "map_of (payments (node_state_new example_small_control example_velocity_control)) [7] = None"
    by (simp_all add: node_state_new_def)
  then show ?thesis
    by (simp add: example_pay_calls_def example_step1 example_step2 example_step3 example_secs note_approval_def
        bindS_def returnS_def)
qed

lemma example_small_control_new:
  "new_with_intervals 100000000 300 2 = (Ok example_small_control :: (status, velocity_control) outcome)"
proof -
  have "replicate 2 (0 :: u64) = [0, 0]" by (simp add: numeral_2_eq_2)
  then show ?thesis by (simp add: new_with_intervals_def asserts_def example_small_control_def)
qed



end
