(* ===== verification/Keys_Manager.thy ===== *)
theory Keys_Manager
  imports Simple_Validator
begin

text \<open>
  The keys of a node: \<^verbatim>\<open>vls-core/src/signer/derive.rs\<close> (three styles of deriving node and channel
  keys from the seed), \<^verbatim>\<open>vls-core/src/signer/my_keys_manager.rs\<close> (the manager with its counters),
  \<^verbatim>\<open>vls-core/src/util/crypto_utils.rs\<close> (HKDF) and \<^verbatim>\<open>vls-core/src/util/byte_utils.rs\<close>.  Hashes, elliptic
  curve and BIP 32 operations are the record \<open>key_lib\<close>.  The lemmas show that the byte conversions
  are inverse to each other and that, in the native and the LDK style, the keys of a channel depend
  on the seed, the network and the channel id only, so a restarted signer has the same keys.
\<close>

section \<open>Byte order\<close>

definition slice_to_be16 :: "bytes \<Rightarrow> u16" where
  "slice_to_be16 v = push_bit 8 (ucast (v ! 0)) OR ucast (v ! 1)"

definition slice_to_be32 :: "bytes \<Rightarrow> u32" where
  "slice_to_be32 v =
     push_bit 24 (ucast (v ! 0)) OR push_bit 16 (ucast (v ! 1)) OR push_bit 8 (ucast (v ! 2)) OR ucast (v ! 3)"

definition slice_to_le32 :: "bytes \<Rightarrow> u32" where
  "slice_to_le32 v =
     ucast (v ! 0) OR push_bit 8 (ucast (v ! 1)) OR push_bit 16 (ucast (v ! 2)) OR push_bit 24 (ucast (v ! 3))"

definition slice_to_be48 :: "bytes \<Rightarrow> u64" where
  "slice_to_be48 v =
     push_bit 40 (ucast (v ! 0)) OR push_bit 32 (ucast (v ! 1)) OR push_bit 24 (ucast (v ! 2)) OR
     push_bit 16 (ucast (v ! 3)) OR push_bit 8 (ucast (v ! 4)) OR ucast (v ! 5)"

definition slice_to_be64 :: "bytes \<Rightarrow> u64" where
  "slice_to_be64 v =
     push_bit 56 (ucast (v ! 0)) OR push_bit 48 (ucast (v ! 1)) OR push_bit 40 (ucast (v ! 2)) OR
     push_bit 32 (ucast (v ! 3)) OR push_bit 24 (ucast (v ! 4)) OR push_bit 16 (ucast (v ! 5)) OR
     push_bit 8 (ucast (v ! 6)) OR ucast (v ! 7)"

definition be16_to_array :: "u16 \<Rightarrow> bytes" where
  "be16_to_array u = map (\<lambda>i. ucast (drop_bit (8 * i) u AND 0xff)) [1, 0]"

definition be32_to_array :: "u32 \<Rightarrow> bytes" where
  "be32_to_array u = map (\<lambda>i. ucast (drop_bit (8 * i) u AND 0xff)) [3, 2, 1, 0]"

definition le32_to_array :: "u32 \<Rightarrow> bytes" where
  "le32_to_array u = map (\<lambda>i. ucast (drop_bit (8 * i) u AND 0xff)) [0, 1, 2, 3]"

definition be48_to_array :: "u64 \<Rightarrow> ('e, bytes) outcome" where
  "be48_to_array u =
     bindo (asserts (u AND 0xffff000000000000 = 0)) (\<lambda>_.
     Ok (map (\<lambda>i. ucast (drop_bit (8 * i) u AND 0xff)) [5, 4, 3, 2, 1, 0]))"

definition be64_to_array :: "u64 \<Rightarrow> bytes" where
  "be64_to_array u = map (\<lambda>i. ucast (drop_bit (8 * i) u AND 0xff)) [7, 6, 5, 4, 3, 2, 1, 0]"

definition le64_to_array :: "u64 \<Rightarrow> bytes" where
  "le64_to_array u = map (\<lambda>i. ucast (drop_bit (8 * i) u AND 0xff)) [0, 1, 2, 3, 4, 5, 6, 7]"

lemma ucast_byte_mask: "(ucast (x AND 0xff) :: u8) = ucast (x :: 'a :: len word)"
proof -
  have "x AND 0xff = take_bit 8 x" by (simp add: take_bit_eq_mask mask_eq_exp_minus_1)
  then show ?thesis by (simp only:) (rule bit_word_eqI, auto simp: bit_simps dest: bit_imp_le_length)
qed

lemma bit_byte_back:
  "bit (push_bit k (ucast (ucast (drop_bit k u) :: u8)) :: 'a :: len word) n \<longleftrightarrow>
     k \<le> n \<and> n < k + 8 \<and> bit (u :: 'a word) n"
  by (auto simp: bit_simps dest: bit_imp_le_length)

lemma bit_low_byte_back: "bit (ucast (ucast u :: u8) :: 'a :: len word) n \<longleftrightarrow> n < 8 \<and> bit (u :: 'a word) n"
  using bit_byte_back [of 0 u n] by simp

lemmas byte_order_defs =
  slice_to_be16_def slice_to_be32_def slice_to_le32_def slice_to_be48_def slice_to_be64_def
  be16_to_array_def be32_to_array_def le32_to_array_def be48_to_array_def be64_to_array_def le64_to_array_def
  ucast_byte_mask

lemma slice_to_be16_to_array: "slice_to_be16 (be16_to_array u) = u"
  by (rule bit_word_eqI) (auto simp: byte_order_defs bit_or_iff bit_byte_back bit_low_byte_back)

lemma slice_to_be32_to_array: "slice_to_be32 (be32_to_array u) = u"
  by (rule bit_word_eqI) (auto simp: byte_order_defs bit_or_iff bit_byte_back bit_low_byte_back)

lemma slice_to_le32_to_array: "slice_to_le32 (le32_to_array u) = u"
  by (rule bit_word_eqI) (auto simp: byte_order_defs bit_or_iff bit_byte_back bit_low_byte_back)

lemma slice_to_be64_to_array: "slice_to_be64 (be64_to_array u) = u"
  by (rule bit_word_eqI) (auto simp: byte_order_defs bit_or_iff bit_byte_back bit_low_byte_back)

lemma slice_to_be48_to_array:
  assumes "be48_to_array u = (Ok v :: ('e, bytes) outcome)"
  shows "slice_to_be48 v = u"
proof (rule bit_word_eqI)
  fix n
  assume n: "n < LENGTH(64)"
  have m: "bit (0xffff000000000000 :: u64) n \<longleftrightarrow> 48 \<le> n"
  proof -
    have e: "(0xffff000000000000 :: u64) = push_bit 48 (mask 16)" by (simp add: mask_eq_exp_minus_1 push_bit_eq_mult)
    show ?thesis unfolding e using n by (auto simp: bit_push_bit_iff bit_mask_iff)
  qed
  have "u AND 0xffff000000000000 = 0" using assms by (auto simp: be48_to_array_def outcome_simps asserts_def split: if_splits)
  then have "\<not> (bit u n \<and> bit (0xffff000000000000 :: u64) n)" by (metis bit_and_iff bit_0_eq bot_apply bot_bool_def)
  with assms m show "bit (slice_to_be48 v) n \<longleftrightarrow> bit u n"
    by (auto simp: byte_order_defs bit_or_iff bit_byte_back bit_low_byte_back asserts_def split: if_splits)
qed

section \<open>Functions of other crates\<close>

datatype child_number = Normal u32 | Hardened u32

record ext_priv_key =
  xk_network :: network
  xk_private_key :: secret
  xk_chain_code :: bytes

text \<open>The secret keys of a channel, in the order in which \<^verbatim>\<open>channel_keys\<close> returns them.\<close>

record channel_secrets =
  cs_funding_key :: secret
  cs_revocation_base_key :: secret
  cs_htlc_base_key :: secret
  cs_payment_key :: secret
  cs_delayed_payment_base_key :: secret
  cs_commitment_seed :: bytes

text \<open>The outputs that \<^verbatim>\<open>spend_spendable_outputs\<close> is asked to spend.\<close>

record output_descriptor =
  od_outpoint :: outpoint
  od_to_self_delay :: u16
  od_output :: tx_out
  od_channel_keys_id :: bytes
  od_channel_value_satoshis :: u64

datatype spendable_output =
    StaticPaymentOutput output_descriptor
  | DelayedPaymentOutput output_descriptor
  | StaticOutput outpoint tx_out

text \<open>
  \<open>kl_signer_new\<close> is \<^verbatim>\<open>InMemorySigner::new\<close> on the secrets of a channel, its value, its key id and
  random bytes.
\<close>

record key_lib =
  kl_hmac_sha256 :: "bytes \<Rightarrow> bytes \<Rightarrow> bytes"
  kl_sha256 :: "bytes \<Rightarrow> bytes"
  kl_hash160 :: "bytes \<Rightarrow> bytes"
  kl_secret_from_slice :: "bytes \<Rightarrow> secret option"
  kl_public_key :: "secret \<Rightarrow> pubkey"
  kl_new_master :: "network \<Rightarrow> bytes \<Rightarrow> ext_priv_key option"
  kl_from_normal_idx :: "u32 \<Rightarrow> child_number option"
  kl_from_hardened_idx :: "u32 \<Rightarrow> child_number option"
  kl_ckd_priv :: "ext_priv_key \<Rightarrow> child_number \<Rightarrow> ext_priv_key option"
  kl_p2wpkh_script :: "bytes \<Rightarrow> script"
  kl_ecdh :: "pubkey \<Rightarrow> secret \<Rightarrow> bytes"
  kl_scalar_ok :: "bytes \<Rightarrow> bool"
  kl_add_tweak :: "secret \<Rightarrow> bytes \<Rightarrow> secret option"
  kl_mul_tweak :: "secret \<Rightarrow> bytes \<Rightarrow> secret option"
  kl_sign_schnorr :: "bytes \<Rightarrow> secret \<Rightarrow> signature"
  kl_p2pkh_script :: "pubkey \<Rightarrow> script"
  kl_static_max_witness :: nat
  kl_delayed_max_witness :: nat
  kl_sign_counterparty_payment_input :: "signer_keys \<Rightarrow> transaction \<Rightarrow> nat \<Rightarrow> output_descriptor \<Rightarrow> bytes list option"
  kl_sign_dynamic_p2wsh_input :: "signer_keys \<Rightarrow> transaction \<Rightarrow> nat \<Rightarrow> output_descriptor \<Rightarrow> bytes list option"
  kl_sign_recoverable :: "bytes \<Rightarrow> secret \<Rightarrow> bytes \<times> u8"
  kl_legacy_sighash :: "transaction \<Rightarrow> nat \<Rightarrow> script \<Rightarrow> bytes"
  kl_channel_keys_id :: "signer_keys \<Rightarrow> bytes"
  kl_signer_random :: "signer_keys \<Rightarrow> bytes"
  kl_provide_parameters :: "channel_parameters \<Rightarrow> signer_keys \<Rightarrow> signer_keys"
  kl_signer_new :: "channel_secrets \<Rightarrow> u64 \<Rightarrow> bytes \<Rightarrow> bytes \<Rightarrow> signer_keys"

definition as_bytes :: "string \<Rightarrow> bytes" where
  "as_bytes s = map of_char s"

text \<open>\<^verbatim>\<open>ckd_priv\<close> with a hardened or a normal child number, where the code unwraps both results.\<close>

definition ckd_hardened :: "key_lib \<Rightarrow> u32 \<Rightarrow> ext_priv_key \<Rightarrow> ('e, ext_priv_key) outcome" where
  "ckd_hardened K i xk = bindo (unwrap (kl_from_hardened_idx K i)) (\<lambda>c. unwrap (kl_ckd_priv K xk c))"

definition ckd_normal :: "key_lib \<Rightarrow> u32 \<Rightarrow> ext_priv_key \<Rightarrow> ('e, ext_priv_key) outcome" where
  "ckd_normal K i xk = bindo (unwrap (kl_from_normal_idx K i)) (\<lambda>c. unwrap (kl_ckd_priv K xk c))"

section \<open>HKDF\<close>

text \<open>
  The output is filled in chunks of 32 bytes; copying into a shorter last chunk panics, and so does
  a counter beyond 255.
\<close>

function hkdf_loop :: "key_lib \<Rightarrow> bytes \<Rightarrow> bytes \<Rightarrow> bytes \<Rightarrow> u8 \<Rightarrow> nat \<Rightarrow> ('e, bytes) outcome" where
  "hkdf_loop K key info t n len =
     (if len = 0 then Ok []
      else
        bindo (asserts (n \<noteq> 255)) (\<lambda>_.
        let n' = n + 1; t' = kl_hmac_sha256 K key ((if n' \<noteq> 1 then t else []) @ info @ [n']) in
        bindo (asserts (length t' = min 32 len)) (\<lambda>_.
        bindo (hkdf_loop K key info t' n' (len - 32)) (\<lambda>rest. Ok (t' @ rest)))))"
  by pat_completeness auto

termination by (relation "measure (\<lambda>(_, _, _, _, _, len). len)") auto

declare hkdf_loop.simps [simp del]

definition hkdf_extract_expand :: "key_lib \<Rightarrow> bytes \<Rightarrow> bytes \<Rightarrow> bytes \<Rightarrow> nat \<Rightarrow> ('e, bytes) outcome" where
  "hkdf_extract_expand K salt secret info len =
     hkdf_loop K (kl_hmac_sha256 K salt secret) info (replicate 32 0) 0 len"

definition hkdf_sha256 :: "key_lib \<Rightarrow> bytes \<Rightarrow> bytes \<Rightarrow> bytes \<Rightarrow> ('e, bytes) outcome" where
  "hkdf_sha256 K secret info salt = hkdf_extract_expand K salt secret info 32"

definition hkdf_sha256_keys :: "key_lib \<Rightarrow> bytes \<Rightarrow> bytes \<Rightarrow> bytes \<Rightarrow> ('e, bytes) outcome" where
  "hkdf_sha256_keys K secret info salt = hkdf_extract_expand K salt secret info (32 * 6)"

definition sighash_from_heartbeat :: "key_lib \<Rightarrow> bytes \<Rightarrow> bytes" where
  "sighash_from_heartbeat K ser_heartbeat =
     kl_sha256 K (as_bytes ''vls'' @ as_bytes ''heartbeat'' @ ser_heartbeat)"

section \<open>Styles of derivation\<close>

datatype key_derivation_style = Native | Ldk | Lnd

definition style_try_from :: "u8 \<Rightarrow> (unit, key_derivation_style) outcome" where
  "style_try_from v =
     (if v = 1 then Ok Native else if v = 2 then Ok Ldk else if v = 3 then Ok Lnd else Err ())"

primrec style_to_u8 :: "key_derivation_style \<Rightarrow> u8" where
  "style_to_u8 Native = 1"
| "style_to_u8 Ldk = 2"
| "style_to_u8 Lnd = 3"

primrec style_to_string :: "key_derivation_style \<Rightarrow> string" where
  "style_to_string Native = ''native''"
| "style_to_string Ldk = ''ldk''"
| "style_to_string Lnd = ''lnd''"

definition style_from_str :: "string \<Rightarrow> (unit, key_derivation_style) outcome" where
  "style_from_str s =
     (if s = ''native'' then Ok Native else if s = ''ldk'' then Ok Ldk else if s = ''lnd'' then Ok Lnd
      else Err ())"

primrec get_key_path_len :: "key_derivation_style \<Rightarrow> nat" where
  "get_key_path_len Native = 1"
| "get_key_path_len Ldk = 1"
| "get_key_path_len Lnd = 2"

definition get_account_extended_key_native :: "key_lib \<Rightarrow> network \<Rightarrow> bytes \<Rightarrow> ('e, ext_priv_key) outcome" where
  "get_account_extended_key_native K network node_seed =
     bindo (hkdf_sha256 K node_seed (as_bytes ''bip32 seed'') []) (\<lambda>bip32_seed.
     bindo (unwrap (kl_new_master K network bip32_seed)) (\<lambda>master.
     bindo (ckd_normal K 0 master) (ckd_normal K 0)))"

definition get_account_extended_key_lnd :: "key_lib \<Rightarrow> network \<Rightarrow> bytes \<Rightarrow> ('e, ext_priv_key) outcome" where
  "get_account_extended_key_lnd K network node_seed =
     bindo (unwrap (kl_new_master K network node_seed)) (\<lambda>master.
     bindo (ckd_hardened K 84 master) (\<lambda>x1.
     bindo (ckd_hardened K 0 x1) (ckd_hardened K 0)))"

definition get_account_extended_key ::
    "key_lib \<Rightarrow> key_derivation_style \<Rightarrow> network \<Rightarrow> bytes \<Rightarrow> ('e, ext_priv_key) outcome" where
  "get_account_extended_key K style network seed =
     (case style of
        Native \<Rightarrow> get_account_extended_key_native K network seed
      | Ldk \<Rightarrow> get_account_extended_key_native K network seed
      | Lnd \<Rightarrow> get_account_extended_key_lnd K network seed)"

definition derive_key_lnd ::
    "key_lib \<Rightarrow> network \<Rightarrow> ext_priv_key \<Rightarrow> u32 \<Rightarrow> u32 \<Rightarrow> ('e, pubkey \<times> secret) outcome" where
  "derive_key_lnd K network master key_family idx =
     (let coin_type = (case network of Bitcoin \<Rightarrow> 0 | Testnet \<Rightarrow> 1 | Regtest \<Rightarrow> 1 | Signet \<Rightarrow> 1) in
      bindo (ckd_hardened K 1017 master) (\<lambda>x1.
      bindo (ckd_hardened K coin_type x1) (\<lambda>x2.
      bindo (ckd_hardened K key_family x2) (\<lambda>x3.
      bindo (ckd_normal K 0 x3) (\<lambda>x4.
      bindo (ckd_normal K idx x4) (\<lambda>x5.
      Ok (kl_public_key K (xk_private_key x5), xk_private_key x5)))))))"

definition master_key :: "key_lib \<Rightarrow> key_derivation_style \<Rightarrow> network \<Rightarrow> bytes \<Rightarrow> ('e, ext_priv_key) outcome" where
  "master_key K style network seed =
     (case style of
        Native \<Rightarrow> bindo (hkdf_sha256 K seed (as_bytes ''bip32 seed'') []) (\<lambda>s. unwrap (kl_new_master K network s))
      | Ldk \<Rightarrow> unwrap (kl_new_master K network seed)
      | Lnd \<Rightarrow> unwrap (kl_new_master K network seed))"

definition node_keys :: "key_lib \<Rightarrow> key_derivation_style \<Rightarrow> network \<Rightarrow> bytes \<Rightarrow> ('e, pubkey \<times> secret) outcome" where
  "node_keys K style network seed =
     (case style of
        Native \<Rightarrow>
          bindo (hkdf_sha256 K seed (as_bytes ''nodeid'') []) (\<lambda>node_private_bytes.
          bindo (unwrap (kl_secret_from_slice K node_private_bytes)) (\<lambda>s. Ok (kl_public_key K s, s)))
      | Ldk \<Rightarrow>
          bindo (master_key K Ldk network seed) (\<lambda>master.
          bindo (ckd_hardened K 0 master) (\<lambda>x. Ok (kl_public_key K (xk_private_key x), xk_private_key x)))
      | Lnd \<Rightarrow>
          bindo (master_key K Lnd network seed) (\<lambda>master. derive_key_lnd K network master 6 0))"

text \<open>
  \<^verbatim>\<open>keys_id\<close>; for LDK the first four bytes are cleared and the top bit of the fifth, so that the first
  eight bytes are a valid derivation index.
\<close>

definition keys_id :: "key_lib \<Rightarrow> key_derivation_style \<Rightarrow> channel_id \<Rightarrow> bytes \<Rightarrow> ('e, bytes) outcome" where
  "keys_id K style channel_id channel_seed_base =
     bindo (hkdf_sha256 K channel_seed_base (as_bytes ''per-peer seed'') channel_id) (\<lambda>res.
     Ok (if style = Ldk
         then res[0 := 0, 1 := 0, 2 := 0, 3 := 0, 4 := (res ! 4) AND 0x7f] else res))"

definition channels_seed :: "key_lib \<Rightarrow> bytes \<Rightarrow> ('e, bytes) outcome" where
  "channels_seed K seed = hkdf_sha256 K seed (as_bytes ''peer seed'') []"

definition key_at :: "key_lib \<Rightarrow> bytes \<Rightarrow> nat \<Rightarrow> ('e, secret) outcome" where
  "key_at K keys_buf ndx = unwrap (kl_secret_from_slice K (take 32 (drop ndx keys_buf)))"

definition channel_keys_native :: "key_lib \<Rightarrow> bytes \<Rightarrow> ('e, channel_secrets) outcome" where
  "channel_keys_native K kid =
     bindo (hkdf_sha256_keys K kid (as_bytes ''c-lightning'') []) (\<lambda>keys_buf.
     bindo (key_at K keys_buf 0) (\<lambda>funding.
     bindo (key_at K keys_buf 32) (\<lambda>revocation_base.
     bindo (key_at K keys_buf 64) (\<lambda>htlc_base.
     bindo (key_at K keys_buf 96) (\<lambda>payment.
     bindo (key_at K keys_buf 128) (\<lambda>delayed_payment_base.
     Ok \<lparr>cs_funding_key = funding, cs_revocation_base_key = revocation_base, cs_htlc_base_key = htlc_base,
         cs_payment_key = payment, cs_delayed_payment_base_key = delayed_payment_base,
         cs_commitment_seed = take 32 (drop 160 keys_buf)\<rparr>))))))"

text \<open>The macro \<^verbatim>\<open>key_step!\<close>.\<close>

definition key_step :: "key_lib \<Rightarrow> bytes \<Rightarrow> string \<Rightarrow> bytes \<Rightarrow> ('e, secret) outcome" where
  "key_step K channel_seed info prev_key =
     unwrap (kl_secret_from_slice K (kl_sha256 K (channel_seed @ prev_key @ as_bytes info)))"

definition channel_keys_ldk :: "key_lib \<Rightarrow> bytes \<Rightarrow> bytes \<Rightarrow> ext_priv_key \<Rightarrow> ('e, channel_secrets) outcome" where
  "channel_keys_ldk K seed kid master =
     (let chan_id = slice_to_be64 (take 8 kid) in
      bindo (asserts (chan_id \<le> 0xffffffff)) (\<lambda>_.
      bindo (ckd_hardened K 3 master) (\<lambda>channel_master_key.
      bindo (ckd_hardened K (ucast chan_id) channel_master_key) (\<lambda>child_privkey.
      let channel_seed = kl_sha256 K (kid @ seed @ xk_private_key child_privkey);
          commitment_seed = kl_sha256 K (channel_seed @ as_bytes ''commitment seed'') in
      bindo (key_step K channel_seed ''funding key'' commitment_seed) (\<lambda>funding.
      bindo (key_step K channel_seed ''revocation base key'' funding) (\<lambda>revocation_base.
      bindo (key_step K channel_seed ''payment key'' revocation_base) (\<lambda>payment.
      bindo (key_step K channel_seed ''delayed payment base key'' payment) (\<lambda>delayed_payment_base.
      bindo (key_step K channel_seed ''HTLC base key'' delayed_payment_base) (\<lambda>htlc_base.
      Ok \<lparr>cs_funding_key = funding, cs_revocation_base_key = revocation_base, cs_htlc_base_key = htlc_base,
          cs_payment_key = payment, cs_delayed_payment_base_key = delayed_payment_base,
          cs_commitment_seed = commitment_seed\<rparr>)))))))))"

definition channel_keys_lnd ::
    "key_lib \<Rightarrow> network \<Rightarrow> bytes \<Rightarrow> u32 \<Rightarrow> ext_priv_key \<Rightarrow> ('e, channel_secrets) outcome" where
  "channel_keys_lnd K network kid basepoint_index master =
     bindo (hkdf_sha256_keys K kid (as_bytes ''c-lightning'') []) (\<lambda>keys_buf.
     bindo (derive_key_lnd K network master 0 basepoint_index) (\<lambda>(_, funding).
     bindo (derive_key_lnd K network master 1 basepoint_index) (\<lambda>(_, revocation_base).
     bindo (derive_key_lnd K network master 2 basepoint_index) (\<lambda>(_, htlc_base).
     bindo (derive_key_lnd K network master 3 basepoint_index) (\<lambda>(_, payment).
     bindo (derive_key_lnd K network master 4 basepoint_index) (\<lambda>(_, delayed_payment_base).
     Ok \<lparr>cs_funding_key = funding, cs_revocation_base_key = revocation_base, cs_htlc_base_key = htlc_base,
         cs_payment_key = payment, cs_delayed_payment_base_key = delayed_payment_base,
         cs_commitment_seed = take 32 (drop 160 keys_buf)\<rparr>))))))"

definition channel_keys ::
    "key_lib \<Rightarrow> key_derivation_style \<Rightarrow> network \<Rightarrow> bytes \<Rightarrow> bytes \<Rightarrow> u32 \<Rightarrow> ext_priv_key \<Rightarrow> ('e, channel_secrets) outcome" where
  "channel_keys K style network seed kid basepoint_index master =
     (case style of
        Native \<Rightarrow> channel_keys_native K kid
      | Ldk \<Rightarrow> channel_keys_ldk K seed kid master
      | Lnd \<Rightarrow> channel_keys_lnd K network kid basepoint_index master)"

section \<open>The keys manager\<close>

text \<open>
  The counters are the atomics of \<^verbatim>\<open>MyKeysManager\<close>.  A running hash is the bytes that were fed to
  it.  The context of the curve library, which is randomized once, is left out: it does not change
  any result.
\<close>

record keys_manager =
  km_seed :: bytes
  km_style :: key_derivation_style
  km_network :: network
  km_master_key :: ext_priv_key
  km_node_secret :: secret
  km_bolt12_secret :: secret
  km_persistence_secret :: secret
  km_inbound_payment_key :: bytes
  km_channel_seed_base :: bytes
  km_account_extended_key :: ext_priv_key
  km_destination_script :: script
  km_ldk_shutdown_pubkey :: pubkey
  km_channel_master_key :: ext_priv_key
  km_channel_id_master_key :: ext_priv_key
  km_channel_id_child_index :: u64
  km_rand_bytes_master_key :: ext_priv_key
  km_rand_bytes_child_index :: u64
  km_rand_bytes_unique_start :: bytes
  km_lnd_basepoint_index :: u32
  km_unique_start :: bytes

definition get_secure_random_bytes :: "key_lib \<Rightarrow> keys_manager \<Rightarrow> ('e, bytes \<times> keys_manager) outcome" where
  "get_secure_random_bytes K km =
     (let child_ix = km_rand_bytes_child_index km; km' = km\<lparr>km_rand_bytes_child_index := child_ix + 1\<rparr> in
      bindo (ckd_hardened K (ucast child_ix) (km_rand_bytes_master_key km)) (\<lambda>child_privkey.
      Ok (kl_sha256 K (km_rand_bytes_unique_start km @ xk_private_key child_privkey @
            as_bytes ''Unique Secure Random Bytes Salt''), km')))"

definition unique_start_bytes :: "u64 \<times> u32 \<Rightarrow> bytes \<Rightarrow> bytes" where
  "unique_start_bytes start seed = be64_to_array (fst start) @ be32_to_array (snd start) @ seed"

definition keys_manager_new ::
    "key_lib \<Rightarrow> key_derivation_style \<Rightarrow> bytes \<Rightarrow> network \<Rightarrow> u64 \<times> u32 \<Rightarrow> ('e, keys_manager) outcome" where
  "keys_manager_new K style seed network start =
     bindo (master_key K style network seed) (\<lambda>master.
     bindo (node_keys K style network seed) (\<lambda>(_, node_secret).
     bindo (ckd_hardened K 3 master) (\<lambda>channel_master_key.
     bindo (ckd_hardened K 5 master) (\<lambda>channel_id_master_key.
     bindo (channels_seed K seed) (\<lambda>channel_seed_base.
     bindo (get_account_extended_key K style network seed) (\<lambda>account.
     bindo (ckd_normal K 2 account) (\<lambda>shutdown.
     bindo (ckd_normal K 1 account) (\<lambda>destination.
     bindo (ckd_hardened K 4 master) (\<lambda>rand_bytes_master_key.
     bindo (ckd_hardened K 5 master) (\<lambda>inbound_payment.
     bindo (ckd_hardened K 9735 master) (\<lambda>bolt12.
     bindo (ckd_hardened K 9736 master) (\<lambda>persistence.
     bindo (get_secure_random_bytes K
       \<lparr>km_seed = seed, km_style = style, km_network = network, km_master_key = master,
        km_node_secret = node_secret, km_bolt12_secret = xk_private_key bolt12,
        km_persistence_secret = xk_private_key persistence,
        km_inbound_payment_key = xk_private_key inbound_payment, km_channel_seed_base = channel_seed_base,
        km_account_extended_key = account,
        km_destination_script =
          kl_p2wpkh_script K (kl_hash160 K (kl_public_key K (xk_private_key destination))),
        km_ldk_shutdown_pubkey = kl_public_key K (xk_private_key shutdown),
        km_channel_master_key = channel_master_key, km_channel_id_master_key = channel_id_master_key,
        km_channel_id_child_index = 0, km_rand_bytes_master_key = rand_bytes_master_key,
        km_rand_bytes_child_index = 0, km_rand_bytes_unique_start = unique_start_bytes start seed,
        km_lnd_basepoint_index = 0, km_unique_start = unique_start_bytes start seed\<rparr>) (\<lambda>(_, km).
     Ok km)))))))))))))"

definition get_channel_keys_with_keys_id ::
    "key_lib \<Rightarrow> bytes \<Rightarrow> u64 \<Rightarrow> keys_manager \<Rightarrow> ('e, signer_keys \<times> keys_manager) outcome" where
  "get_channel_keys_with_keys_id K kid channel_value km =
     (let basepoint_index = km_lnd_basepoint_index km;
          km1 = km\<lparr>km_lnd_basepoint_index := basepoint_index + 1\<rparr> in
      bindo (channel_keys K (km_style km) (km_network km) (km_seed km) kid basepoint_index (km_master_key km)) (\<lambda>secrets.
      bindo (get_secure_random_bytes K km1) (\<lambda>(rnd, km2).
      Ok (kl_signer_new K secrets channel_value kid rnd, km2))))"

definition get_channel_keys_with_id ::
    "key_lib \<Rightarrow> channel_id \<Rightarrow> u64 \<Rightarrow> keys_manager \<Rightarrow> ('e, signer_keys \<times> keys_manager) outcome" where
  "get_channel_keys_with_id K channel_id channel_value km =
     bindo (keys_id K (km_style km) channel_id (km_channel_seed_base km)) (\<lambda>kid.
     get_channel_keys_with_keys_id K kid channel_value km)"

definition increment_channel_id_child_index :: "keys_manager \<Rightarrow> u64 \<times> keys_manager" where
  "increment_channel_id_child_index km =
     (km_channel_id_child_index km, km\<lparr>km_channel_id_child_index := km_channel_id_child_index km + 1\<rparr>)"

definition get_channel_id :: "key_lib \<Rightarrow> keys_manager \<Rightarrow> ('e, channel_id \<times> keys_manager) outcome" where
  "get_channel_id K km =
     (let (child_ix, km') = increment_channel_id_child_index km in
      bindo (ckd_hardened K (ucast child_ix) (km_channel_id_master_key km)) (\<lambda>child_privkey.
      Ok (kl_sha256 K (km_unique_start km @ xk_private_key child_privkey), km')))"

definition get_onion_reply_secret :: "key_lib \<Rightarrow> keys_manager \<Rightarrow> ('e, bytes) outcome" where
  "get_onion_reply_secret K km = hkdf_sha256 K (km_seed km) (as_bytes ''onion reply secret'') []"

definition get_bolt12_pubkey :: "key_lib \<Rightarrow> keys_manager \<Rightarrow> pubkey" where
  "get_bolt12_pubkey K km = kl_public_key K (km_bolt12_secret km)"

definition get_persistence_pubkey :: "key_lib \<Rightarrow> keys_manager \<Rightarrow> pubkey" where
  "get_persistence_pubkey K km = kl_public_key K (km_persistence_secret km)"

definition get_persistence_shared_secret :: "key_lib \<Rightarrow> keys_manager \<Rightarrow> pubkey \<Rightarrow> bytes" where
  "get_persistence_shared_secret K km server_pubkey = kl_ecdh K server_pubkey (km_persistence_secret km)"

definition get_persistence_auth_token :: "key_lib \<Rightarrow> keys_manager \<Rightarrow> pubkey \<Rightarrow> bytes" where
  "get_persistence_auth_token K km server_pubkey =
     kl_sha256 K (get_persistence_shared_secret K km server_pubkey)"

definition sign_bolt12 ::
    "key_lib \<Rightarrow> keys_manager \<Rightarrow> bytes \<Rightarrow> bytes \<Rightarrow> bytes \<Rightarrow> bytes option \<Rightarrow> (unit, signature) outcome" where
  "sign_bolt12 K km messagename fieldname merkleroot publictweak_opt =
     (let tag_hash = kl_sha256 K (as_bytes ''lightning'' @ messagename @ fieldname);
          sig_hash = kl_sha256 K (tag_hash @ tag_hash @ merkleroot) in
      bindo (case publictweak_opt of
               Some publictweak \<Rightarrow>
                 (let tweak = kl_sha256 K (kl_public_key K (km_bolt12_secret km) @ publictweak) in
                  bindo (asserts (kl_scalar_ok K tweak)) (\<lambda>_.
                  ok_or () (kl_add_tweak K (km_bolt12_secret km) tweak)))
             | None \<Rightarrow> Ok (km_node_secret km)) (\<lambda>kp.
      Ok (kl_sign_schnorr K sig_hash kp)))"

definition km_derive_secret :: "key_lib \<Rightarrow> keys_manager \<Rightarrow> bytes \<Rightarrow> ('e, secret) outcome" where
  "km_derive_secret K km info =
     bindo (hkdf_sha256 K (km_seed km) (as_bytes ''derived secrets'') []) (\<lambda>derived_secrets_base.
     bindo (hkdf_sha256 K derived_secrets_base info []) (\<lambda>derived_secret.
     unwrap (kl_secret_from_slice K derived_secret)))"

definition sign_heartbeat :: "key_lib \<Rightarrow> keys_manager \<Rightarrow> bytes \<Rightarrow> signature" where
  "sign_heartbeat K km ser_heartbeat =
     kl_sign_schnorr K (sighash_from_heartbeat K ser_heartbeat) (xk_private_key (km_account_extended_key km))"

definition get_shutdown_scriptpubkey :: "key_lib \<Rightarrow> keys_manager \<Rightarrow> script" where
  "get_shutdown_scriptpubkey K km = kl_p2wpkh_script K (kl_hash160 K (km_ldk_shutdown_pubkey km))"

datatype recipient = RecipientNode | RecipientPhantomNode

definition get_node_id :: "key_lib \<Rightarrow> keys_manager \<Rightarrow> recipient \<Rightarrow> (unit, pubkey) outcome" where
  "get_node_id K km recipient =
     (case recipient of
        RecipientNode \<Rightarrow> Ok (kl_public_key K (km_node_secret km))
      | RecipientPhantomNode \<Rightarrow> Err ())"

definition km_sign_gossip_message :: "lib \<Rightarrow> keys_manager \<Rightarrow> bytes \<Rightarrow> (unit, signature) outcome" where
  "km_sign_gossip_message L km encoded = Ok (lib_sign_ecdsa L (km_node_secret km) (lib_sha256d L encoded))"

definition km_ecdh ::
    "key_lib \<Rightarrow> keys_manager \<Rightarrow> recipient \<Rightarrow> pubkey \<Rightarrow> bytes option \<Rightarrow> (unit, bytes) outcome" where
  "km_ecdh K km recipient other_key tweak =
     (case recipient of
        RecipientPhantomNode \<Rightarrow> Err ()
      | RecipientNode \<Rightarrow>
          bindo (case tweak of
                   None \<Rightarrow> Ok (km_node_secret km)
                 | Some t \<Rightarrow> ok_or () (kl_mul_tweak K (km_node_secret km) t)) (\<lambda>node_secret.
          Ok (kl_ecdh K other_key node_secret)))"

section \<open>Spending outputs\<close>

text \<open>The inputs with their value, in the order of the descriptors, and the weight of the witnesses.\<close>

definition spend_input :: "outpoint \<Rightarrow> u32 \<Rightarrow> tx_in" where
  "spend_input outpoint sequence =
     \<lparr>previous_output = outpoint, script_sig = [], tx_sequence = sequence, witness = []\<rparr>"

fun descriptor_parts :: "key_lib \<Rightarrow> spendable_output \<Rightarrow> outpoint \<times> u32 \<times> nat \<times> u64" where
  "descriptor_parts K (StaticPaymentOutput d) = (od_outpoint d, 0, kl_static_max_witness K, out_value (od_output d))"
| "descriptor_parts K (DelayedPaymentOutput d) =
     (od_outpoint d, ucast (od_to_self_delay d), kl_delayed_max_witness K, out_value (od_output d))"
| "descriptor_parts K (StaticOutput outpoint out) = (outpoint, 0, 1 + 73 + 34, out_value out)"

definition collect_input ::
    "key_lib \<Rightarrow> spendable_output \<Rightarrow> tx_in list \<times> u64 \<times> nat \<times> outpoint set \<Rightarrow>
     (unit, tx_in list \<times> u64 \<times> nat \<times> outpoint set) outcome" where
  "collect_input K outp acc =
     (let (input, input_value, witness_weight, output_set) = acc;
          (outpoint, sequence, wit, val) = descriptor_parts K outp;
          input_value' = input_value + val
      in if outpoint \<in> output_set then Err ()
         else if input_value' > MAX_VALUE_MSAT div 1000 then Err ()
         else Ok (input @ [spend_input outpoint sequence], input_value', witness_weight + wit, insert outpoint output_set))"

text \<open>The keys of the channel that the last descriptor belonged to are kept.\<close>

definition cached_keys ::
    "key_lib \<Rightarrow> output_descriptor \<Rightarrow> (signer_keys \<times> bytes) option \<times> keys_manager \<Rightarrow>
     ('e, signer_keys \<times> (signer_keys \<times> bytes) option \<times> keys_manager) outcome" where
  "cached_keys K d acc =
     (let (cache, km) = acc in
      case cache of
        Some (keys, kid) \<Rightarrow>
          if kid = od_channel_keys_id d then Ok (keys, cache, km)
          else bindo (get_channel_keys_with_keys_id K (od_channel_keys_id d) (od_channel_value_satoshis d) km) (\<lambda>(keys', km').
               Ok (keys', Some (keys', od_channel_keys_id d), km'))
      | None \<Rightarrow>
          bindo (get_channel_keys_with_keys_id K (od_channel_keys_id d) (od_channel_value_satoshis d) km) (\<lambda>(keys', km').
          Ok (keys', Some (keys', od_channel_keys_id d), km')))"

definition set_witness :: "transaction \<Rightarrow> nat \<Rightarrow> bytes list \<Rightarrow> transaction" where
  "set_witness tx i w = tx\<lparr>tx_inputs := (tx_inputs tx)[i := (tx_inputs tx ! i)\<lparr>witness := w\<rparr>]\<rparr>"

definition sign_static_output ::
    "lib \<Rightarrow> key_lib \<Rightarrow> keys_manager \<Rightarrow> transaction \<Rightarrow> nat \<Rightarrow> tx_out \<Rightarrow> ('e, bytes list) outcome" where
  "sign_static_output L K km spend_tx input_idx out =
     (let derivation_idx = (if script_pubkey out = km_destination_script km then 1 else 2) in
      bindo (get_account_extended_key K (km_style km) (km_network km) (km_seed km)) (\<lambda>account.
      bindo (ckd_normal K derivation_idx account) (\<lambda>secret_key.
      let key = kl_public_key K (xk_private_key secret_key) in
      bindo (asserts (derivation_idx = 2 \<longrightarrow> key = km_ldk_shutdown_pubkey km)) (\<lambda>_.
      let sig = lib_sign_ecdsa L (xk_private_key secret_key)
            (lib_segwit_sighash L spend_tx input_idx (kl_p2pkh_script K key) (out_value out) SighashAll)
      in Ok [lib_serialize_der L sig @ [1], key]))))"

definition sign_input ::
    "lib \<Rightarrow> key_lib \<Rightarrow> spendable_output \<Rightarrow> nat \<times> transaction \<times> (signer_keys \<times> bytes) option \<times> keys_manager \<Rightarrow>
     ('e, nat \<times> transaction \<times> (signer_keys \<times> bytes) option \<times> keys_manager) outcome" where
  "sign_input L K outp acc =
     (let (input_idx, spend_tx, cache, km) = acc in
      bindo (case outp of
               StaticPaymentOutput d \<Rightarrow>
                 bindo (cached_keys K d (cache, km)) (\<lambda>(keys, cache', km').
                 bindo (unwrap (kl_sign_counterparty_payment_input K keys spend_tx input_idx d)) (\<lambda>w. Ok (w, cache', km')))
             | DelayedPaymentOutput d \<Rightarrow>
                 bindo (cached_keys K d (cache, km)) (\<lambda>(keys, cache', km').
                 bindo (unwrap (kl_sign_dynamic_p2wsh_input K keys spend_tx input_idx d)) (\<lambda>w. Ok (w, cache', km')))
             | StaticOutput _ out \<Rightarrow>
                 bindo (sign_static_output L K km spend_tx input_idx out) (\<lambda>w. Ok (w, cache, km))) (\<lambda>(w, cache', km').
      Ok (input_idx + 1, set_witness spend_tx input_idx w, cache', km')))"

definition spend_spendable_outputs ::
    "lib \<Rightarrow> key_lib \<Rightarrow> spendable_output list \<Rightarrow> tx_out list \<Rightarrow> script \<Rightarrow> u32 \<Rightarrow> keys_manager \<Rightarrow>
     (unit, transaction \<times> keys_manager) outcome" where
  "spend_spendable_outputs L K descriptors outputs change_destination_script feerate km =
     bindo (foldo (collect_input K) descriptors ([], 0, 0, {})) (\<lambda>(input, input_value, witness_weight, _).
     bindo (maybe_add_change_output L \<lparr>tx_version = 2, lock_time = 0, tx_inputs = input, tx_outputs = outputs\<rparr>
              input_value witness_weight feerate change_destination_script) (\<lambda>spend_tx.
     bindo (foldo (sign_input L K) descriptors (0, spend_tx, None, km)) (\<lambda>(_, tx, _, km'). Ok (tx, km'))))"

section \<open>Channel keys across restarts\<close>

text \<open>
  What the code relies on: digests have 32 bytes, every 32 bytes are a secret key and every
  derivation succeeds (the code panics otherwise: it fails for less than one in \<^verbatim>\<open>2^127\<close> inputs), child
  numbers are below \<^verbatim>\<open>2^31\<close>, and a signer keeps the keys it was made from.
\<close>

definition key_lib_ok :: "key_lib \<Rightarrow> bool" where
  "key_lib_ok K \<longleftrightarrow>
     (\<forall>k m. length (kl_hmac_sha256 K k m) = 32) \<and> (\<forall>m. length (kl_sha256 K m) = 32) \<and>
     (\<forall>b. length b = 32 \<longrightarrow> kl_secret_from_slice K b = Some b) \<and>
     (\<forall>n b. kl_new_master K n b \<noteq> None) \<and> (\<forall>xk c. kl_ckd_priv K xk c \<noteq> None) \<and>
     (\<forall>i. kl_from_hardened_idx K i = (if i < 2 ^ 31 then Some (Hardened i) else None)) \<and>
     (\<forall>i. kl_from_normal_idx K i = (if i < 2 ^ 31 then Some (Normal i) else None))"

definition pubkeys_of :: "key_lib \<Rightarrow> channel_secrets \<Rightarrow> channel_public_keys" where
  "pubkeys_of K cs =
     \<lparr>funding_pubkey = kl_public_key K (cs_funding_key cs),
      revocation_basepoint = kl_public_key K (cs_revocation_base_key cs),
      payment_point = kl_public_key K (cs_payment_key cs),
      delayed_payment_basepoint = kl_public_key K (cs_delayed_payment_base_key cs),
      htlc_basepoint = kl_public_key K (cs_htlc_base_key cs)\<rparr>"

definition signs_with :: "key_lib \<Rightarrow> channel_secrets \<Rightarrow> signer_keys \<Rightarrow> bool" where
  "signs_with K cs keys \<longleftrightarrow>
     funding_key keys = cs_funding_key cs \<and> revocation_base_key keys = cs_revocation_base_key cs \<and>
     payment_key keys = cs_payment_key cs \<and> delayed_payment_base_key keys = cs_delayed_payment_base_key cs \<and>
     htlc_base_key keys = cs_htlc_base_key cs \<and> commitment_seed keys = cs_commitment_seed cs \<and>
     holder_pubkeys keys = pubkeys_of K cs"

definition signer_ok :: "key_lib \<Rightarrow> bool" where
  "signer_ok K \<longleftrightarrow>
     (\<forall>cs v kid r. signs_with K cs (kl_signer_new K cs v kid r)) \<and>
     (\<forall>cs ps keys. signs_with K cs keys \<longrightarrow> signs_with K cs (kl_provide_parameters K ps keys))"

lemma ckd_hardened_ok:
  "key_lib_ok K \<Longrightarrow> i < 2 ^ 31 \<Longrightarrow> \<exists>x. ckd_hardened K i xk = (Ok x :: ('e, ext_priv_key) outcome)"
  by (auto simp: key_lib_ok_def ckd_hardened_def unwrap_def split: option.split)

lemma ckd_normal_ok:
  "key_lib_ok K \<Longrightarrow> i < 2 ^ 31 \<Longrightarrow> \<exists>x. ckd_normal K i xk = (Ok x :: ('e, ext_priv_key) outcome)"
  by (auto simp: key_lib_ok_def ckd_normal_def unwrap_def split: option.split)

lemma hkdf_loop_ok:
  assumes "key_lib_ok K"
  shows "unat n + k \<le> 255 \<Longrightarrow> \<exists>r. hkdf_loop K key info t n (32 * k) = (Ok r :: ('e, bytes) outcome) \<and> length r = 32 * k"
proof (induction k arbitrary: t n)
  case 0
  then show ?case by (simp add: hkdf_loop.simps)
next
  case (Suc k)
  let ?t = "kl_hmac_sha256 K key ((if n + 1 \<noteq> 1 then t else []) @ info @ [n + 1])"
  have n: "n \<noteq> 255" using Suc.prems by auto
  have "unat (n + 1) = unat n + 1" using Suc.prems by (simp add: unat_word_ariths)
  with Suc.IH [of "n + 1" ?t] Suc.prems obtain r where
    "hkdf_loop K key info ?t (n + 1) (32 * k) = (Ok r :: ('e, bytes) outcome)" "length r = 32 * k" by auto
  with n assms show ?case
    by (subst hkdf_loop.simps) (simp add: key_lib_ok_def asserts_def Let_def)
qed

lemma hkdf_sha256_ok:
  "key_lib_ok K \<Longrightarrow> \<exists>r. hkdf_sha256 K secret info salt = (Ok r :: ('e, bytes) outcome) \<and> length r = 32"
  using hkdf_loop_ok [of K 0 1] by (simp add: hkdf_sha256_def hkdf_extract_expand_def)

lemma hkdf_sha256_keys_ok:
  "key_lib_ok K \<Longrightarrow> \<exists>r. hkdf_sha256_keys K secret info salt = (Ok r :: ('e, bytes) outcome) \<and> length r = 192"
  using hkdf_loop_ok [of K 0 6] by (simp add: hkdf_sha256_keys_def hkdf_extract_expand_def)

lemma byte_low7: "(b AND 0x7f :: u8) = take_bit 7 b"
  by (simp add: take_bit_eq_mask mask_eq_exp_minus_1)

lemma ldk_index_small:
  assumes "length r = 32" and "kid = r[0 := 0, 1 := 0, 2 := 0, 3 := 0, 4 := (r ! 4) AND 0x7f]"
  shows "slice_to_be64 (take 8 kid) < 2 ^ 31"
proof -
  have "slice_to_be64 (take 8 kid) = push_bit 24 (ucast (take_bit 7 (r ! 4))) OR push_bit 16 (ucast (r ! 5)) OR
      push_bit 8 (ucast (r ! 6)) OR ucast (r ! 7)"
    using assms by (simp add: slice_to_be64_def byte_low7)
  then have "take_bit 31 (slice_to_be64 (take 8 kid)) = slice_to_be64 (take 8 kid)"
    by (simp only:) (rule bit_word_eqI, auto simp: bit_simps dest: bit_imp_le_length)
  then have "slice_to_be64 (take 8 kid) = slice_to_be64 (take 8 kid) mod 2 ^ 31"
    by (simp only: take_bit_eq_mod)
  also have "\<dots> < 2 ^ 31" by (rule word_mod_less_divisor) simp
  finally show ?thesis .
qed

lemma unwrap_secret: "key_lib_ok K \<Longrightarrow> length b = 32 \<Longrightarrow> unwrap (kl_secret_from_slice K b) = Ok b"
  by (simp add: key_lib_ok_def unwrap_def)

lemma keys_id_ok:
  assumes "key_lib_ok K"
  shows "\<exists>kid. keys_id K style cid base = (Ok kid :: ('e, bytes) outcome) \<and> length kid = 32 \<and>
           (style = Ldk \<longrightarrow> slice_to_be64 (take 8 kid) < 2 ^ 31)"
proof -
  obtain r where r: "hkdf_sha256 K base (as_bytes ''per-peer seed'') cid = (Ok r :: ('e, bytes) outcome)" "length r = 32"
    using hkdf_sha256_ok [OF assms] by blast
  then show ?thesis using ldk_index_small [OF r(2) refl] by (simp add: keys_id_def)
qed

lemma channel_keys_native_ok:
  assumes "key_lib_ok K"
  shows "\<exists>cs. channel_keys_native K kid = (Ok cs :: ('e, channel_secrets) outcome)"
proof -
  obtain buf where "hkdf_sha256_keys K kid (as_bytes ''c-lightning'') [] = (Ok buf :: ('e, bytes) outcome)" "length buf = 192"
    using hkdf_sha256_keys_ok [OF assms] by blast
  then show ?thesis by (simp add: channel_keys_native_def key_at_def unwrap_secret [OF assms])
qed

lemma key_step_ok: "key_lib_ok K \<Longrightarrow> key_step K channel_seed info key = Ok (kl_sha256 K (channel_seed @ key @ as_bytes info))"
  by (simp add: key_step_def key_lib_ok_def unwrap_def)

lemma channel_keys_ldk_ok:
  assumes K: "key_lib_ok K" and i: "slice_to_be64 (take 8 kid) < 2 ^ 31"
  shows "\<exists>cs. channel_keys_ldk K seed kid master = (Ok cs :: ('e, channel_secrets) outcome)"
proof -
  have "slice_to_be64 (take 8 kid) \<le> 0xffffffff" using i by (simp add: word_le_nat_alt word_less_nat_alt)
  moreover have "(ucast (slice_to_be64 (take 8 kid)) :: u32) < 2 ^ 31"
    using i by (simp add: word_less_nat_alt unsigned_ucast_eq unsigned_take_bit_eq take_bit_nat_eq_self)
  then obtain m c where "ckd_hardened K 3 master = (Ok m :: ('e, _) outcome)"
      "ckd_hardened K (ucast (slice_to_be64 (take 8 kid))) m = (Ok c :: ('e, _) outcome)"
    using ckd_hardened_ok [OF K, of 3 master, where ?'e = 'e] ckd_hardened_ok [OF K] by fastforce
  ultimately show ?thesis by (simp add: channel_keys_ldk_def Let_def asserts_def key_step_ok [OF K])
qed

text \<open>The calls that move a counter of the manager.\<close>

datatype km_call =
    KmChannelKeys channel_id u64
  | KmChannelId
  | KmIncrement
  | KmRandom
  | KmSpend "spendable_output list" "tx_out list" script u32

fun km_step :: "lib \<Rightarrow> key_lib \<Rightarrow> km_call \<Rightarrow> keys_manager \<Rightarrow> (unit, keys_manager) outcome" where
  "km_step L K (KmChannelKeys cid v) km = bindo (get_channel_keys_with_id K cid v km) (\<lambda>(_, km'). Ok km')"
| "km_step L K KmChannelId km = bindo (get_channel_id K km) (\<lambda>(_, km'). Ok km')"
| "km_step L K KmIncrement km = Ok (snd (increment_channel_id_child_index km))"
| "km_step L K KmRandom km = bindo (get_secure_random_bytes K km) (\<lambda>(_, km'). Ok km')"
| "km_step L K (KmSpend ds outs change feerate) km =
     bindo (spend_spendable_outputs L K ds outs change feerate km) (\<lambda>(_, km'). Ok km')"

text \<open>What no call changes.\<close>

definition same_root :: "keys_manager \<Rightarrow> keys_manager \<Rightarrow> bool" where
  "same_root km km' \<longleftrightarrow>
     km_seed km' = km_seed km \<and> km_style km' = km_style km \<and> km_network km' = km_network km \<and>
     km_master_key km' = km_master_key km \<and> km_channel_seed_base km' = km_channel_seed_base km \<and>
     km_rand_bytes_master_key km' = km_rand_bytes_master_key km"

lemma same_root_refl [simp]: "same_root km km"
  by (simp add: same_root_def)

lemma same_root_trans: "same_root a b \<Longrightarrow> same_root b c \<Longrightarrow> same_root a c"
  by (simp add: same_root_def)

lemma random_same_root: "get_secure_random_bytes K km = Ok (r, km') \<Longrightarrow> same_root km km'"
  by (auto simp: get_secure_random_bytes_def outcome_simps Let_def same_root_def)

lemma signer_same_root:
  assumes "get_channel_keys_with_keys_id K kid v km = (Ok (keys, km') :: ('e, _) outcome)"
  shows "same_root km km'"
proof -
  let ?km = "km\<lparr>km_lnd_basepoint_index := km_lnd_basepoint_index km + 1\<rparr>"
  from assms obtain r where "get_secure_random_bytes K ?km = (Ok (r, km') :: ('e, _) outcome)"
    by (auto simp: get_channel_keys_with_keys_id_def outcome_simps Let_def)
  then have "same_root ?km km'" by (rule random_same_root)
  then show ?thesis by (simp add: same_root_def)
qed

lemma cached_same_root:
  assumes "cached_keys K d (cache, km) = Ok (keys, cache', km')"
  shows "same_root km km'"
  using assms by (auto simp: cached_keys_def outcome_simps split: option.splits prod.splits if_splits dest: signer_same_root)

lemma sign_inputs_same_root:
  assumes "foldo (sign_input L K) ds (i, tx, cache, km) = (Ok (i', tx', cache', km') :: ('e, _) outcome)"
  shows "same_root km km'"
  using assms
proof (induction ds arbitrary: i tx cache km)
  case (Cons d ds)
  then obtain i1 tx1 c1 km1 where
      s: "sign_input L K d (i, tx, cache, km) = (Ok (i1, tx1, c1, km1) :: ('e, _) outcome)"
        "foldo (sign_input L K) ds (i1, tx1, c1, km1) = (Ok (i', tx', cache', km') :: ('e, _) outcome)"
    by (auto simp: outcome_simps)
  have "same_root km km1"
    using s(1) by (cases d) (auto simp: sign_input_def outcome_simps dest: cached_same_root)
  with Cons.IH [OF s(2)] show ?case by (blast intro: same_root_trans)
qed simp

lemma km_step_same_root:
  assumes "km_step L K c km = Ok km'"
  shows "same_root km km'"
proof (cases c)
  case (KmChannelKeys cid v)
  with assms show ?thesis by (auto simp: get_channel_keys_with_id_def outcome_simps dest: signer_same_root)
next
  case KmRandom
  with assms show ?thesis by (auto simp: outcome_simps dest: random_same_root)
next
  case (KmSpend ds outs change feerate)
  with assms show ?thesis
    by (auto simp: spend_spendable_outputs_def outcome_simps dest: sign_inputs_same_root)
qed (use assms in \<open>auto simp: get_channel_id_def increment_channel_id_child_index_def outcome_simps same_root_def\<close>)

lemma km_run_same_root: "foldo (km_step L K) calls km = Ok km' \<Longrightarrow> same_root km km'"
proof (induction calls arbitrary: km)
  case (Cons c cs)
  then show ?case by (auto simp: outcome_simps intro: same_root_trans dest: km_step_same_root)
qed simp

text \<open>The secrets of a channel as a function of what is written down: style, network, seed and channel id.\<close>

definition channel_secrets_of ::
    "key_lib \<Rightarrow> key_derivation_style \<Rightarrow> network \<Rightarrow> bytes \<Rightarrow> channel_id \<Rightarrow> ('e, channel_secrets) outcome" where
  "channel_secrets_of K style network seed cid =
     bindo (master_key K style network seed) (\<lambda>master.
     bindo (channels_seed K seed) (\<lambda>base.
     bindo (keys_id K style cid base) (\<lambda>kid.
     channel_keys K style network seed kid 0 master)))"

lemma keys_manager_new_root:
  assumes "keys_manager_new K style seed network start = (Ok km :: ('e, _) outcome)"
  shows "km_seed km = seed" and "km_style km = style" and "km_network km = network"
    and "master_key K style network seed = (Ok (km_master_key km) :: ('e, _) outcome)"
    and "channels_seed K seed = (Ok (km_channel_seed_base km) :: ('e, _) outcome)"
    and "km_rand_bytes_child_index km = 1"
  using assms
  by (auto simp: keys_manager_new_def get_secure_random_bytes_def outcome_simps Let_def split: prod.splits)

lemma channel_keys_ok:
  assumes "key_lib_ok K" and "style \<in> {Native, Ldk}" and "style = Ldk \<longrightarrow> slice_to_be64 (take 8 kid) < 2 ^ 31"
  shows "\<exists>cs. \<forall>i. channel_keys K style network seed kid i master = (Ok cs :: ('e, channel_secrets) outcome)"
  using assms channel_keys_native_ok [OF assms(1), of kid, where ?'e = 'e]
    channel_keys_ldk_ok [OF assms(1), of kid seed master, where ?'e = 'e]
  by (auto simp: channel_keys_def)

lemma random_ok:
  assumes "key_lib_ok K" and "km_rand_bytes_child_index km < 2 ^ 31"
  shows "\<exists>r km'. get_secure_random_bytes K km = (Ok (r, km') :: ('e, _) outcome)"
proof -
  have "(ucast (km_rand_bytes_child_index km) :: u32) < 2 ^ 31"
    using assms(2) by (simp add: word_less_nat_alt unsigned_ucast_eq unsigned_take_bit_eq take_bit_nat_eq_self)
  with ckd_hardened_ok [OF assms(1), of _ "km_rand_bytes_master_key km", where ?'e = 'e]
  show ?thesis by (fastforce simp: get_secure_random_bytes_def Let_def)
qed

text \<open>
  C0: The keys of a channel survive a restart.  In the native and the LDK style a manager that was
  made from a seed returns, after any sequence of calls, a signer for a channel id whose five secret
  keys, commitment seed and basepoints are a function of the style, the network, the seed and the
  channel id alone: they do not depend on the starting time, on the order in which channels were
  opened or on anything else that is not stored.  It does not panic while fewer than \<^verbatim>\<open>2^31\<close> random
  byte strings were drawn.
\<close>

theorem channel_keys_from_seed:
  assumes "key_lib_ok K" and "signer_ok K" and "style \<in> {Native, Ldk}"
    and "keys_manager_new K style seed network start = (Ok km0 :: (unit, _) outcome)"
    and "foldo (km_step L K) calls km0 = Ok km" and "km_rand_bytes_child_index km < 2 ^ 31"
  shows "\<exists>cs keys km'. channel_secrets_of K style network seed cid = (Ok cs :: (unit, _) outcome) \<and>
           get_channel_keys_with_id K cid v km = (Ok (keys, km') :: (unit, _) outcome) \<and> signs_with K cs keys"
proof -
  note root = keys_manager_new_root [OF assms(4)]
  have same: "same_root km0 km" using assms(5) by (rule km_run_same_root)
  obtain kid where kid: "keys_id K style cid (km_channel_seed_base km) = (Ok kid :: (unit, _) outcome)"
      "style = Ldk \<longrightarrow> slice_to_be64 (take 8 kid) < 2 ^ 31"
    using keys_id_ok [OF assms(1)] by blast
  obtain cs where cs: "channel_keys K style network seed kid i (km_master_key km) = (Ok cs :: (unit, _) outcome)" for i
    using channel_keys_ok [OF assms(1,3) kid(2)] by blast
  let ?km = "km\<lparr>km_lnd_basepoint_index := km_lnd_basepoint_index km + 1\<rparr>"
  obtain r km' where "get_secure_random_bytes K ?km = (Ok (r, km') :: (unit, _) outcome)"
    using random_ok [OF assms(1), of ?km] assms(6) by auto
  then have "get_channel_keys_with_id K cid v km = (Ok (kl_signer_new K cs v kid r, km') :: (unit, _) outcome)"
    using kid(1) cs same root by (simp add: get_channel_keys_with_id_def get_channel_keys_with_keys_id_def same_root_def Let_def)
  moreover have "channel_secrets_of K style network seed cid = (Ok cs :: (unit, _) outcome)"
    using kid(1) cs same root by (simp add: channel_secrets_of_def same_root_def)
  ultimately show ?thesis using assms(2) by (auto simp: signer_ok_def)
qed

lemma derive_key_lnd_index:
  assumes ok: "key_lib_ok K"
    and inj: "\<forall>xk i j a b. kl_ckd_priv K xk (Normal i) = Some a \<and> kl_ckd_priv K xk (Normal j) = Some b \<and> i \<noteq> j \<longrightarrow>
           xk_private_key a \<noteq> xk_private_key b"
    and a: "derive_key_lnd K network master family i = (Ok (p, s) :: ('e, _) outcome)"
    and b: "derive_key_lnd K network master family j = (Ok (q, t) :: ('e, _) outcome)" and "i \<noteq> j"
  shows "s \<noteq> t"
proof -
  have n: "ckd_normal K n x = (Ok y :: ('e, _) outcome) \<Longrightarrow> kl_ckd_priv K x (Normal n) = Some y" for n x y
    using ok by (auto simp: ckd_normal_def key_lib_ok_def unwrap_def split: if_splits option.splits)
  from a b obtain x4 x5 y5 where
    "ckd_normal K i x4 = (Ok x5 :: ('e, _) outcome)" "s = xk_private_key x5"
    "ckd_normal K j x4 = (Ok y5 :: ('e, _) outcome)" "t = xk_private_key y5"
    by (auto simp: derive_key_lnd_def outcome_simps Let_def)
  with n inj \<open>i \<noteq> j\<close> show ?thesis by metis
qed

text \<open>
  C0: In the LND style the keys of a channel depend on the order of the calls.  The index of the
  base points is a counter that every derivation advances and that is not stored, so asking twice
  for the signer of the same channel id gives different funding keys, and a restarted signer, which
  derives the channels in the order in which they are stored, has other keys than before.
\<close>

theorem lnd_keys_not_stable:
  assumes "key_lib_ok K" and "signer_ok K" and "km_style km = Lnd"
    and "\<forall>xk i j a b. kl_ckd_priv K xk (Normal i) = Some a \<and> kl_ckd_priv K xk (Normal j) = Some b \<and> i \<noteq> j \<longrightarrow>
           xk_private_key a \<noteq> xk_private_key b"
    and "get_channel_keys_with_id K cid v km = (Ok (keys1, km1) :: (unit, _) outcome)"
    and "get_channel_keys_with_id K cid v km1 = (Ok (keys2, km2) :: (unit, _) outcome)"
  shows "funding_key keys1 \<noteq> funding_key keys2"
proof -
  have step: "\<exists>p. derive_key_lnd K (km_network km) (km_master_key km) 0 (km_lnd_basepoint_index km) =
        (Ok (p, funding_key keys) :: (unit, _) outcome) \<and>
      km_lnd_basepoint_index km' = km_lnd_basepoint_index km + 1 \<and> same_root km km'"
    if "get_channel_keys_with_id K cid v km = (Ok (keys, km') :: (unit, _) outcome)" "km_style km = Lnd" for km keys km'
    using that assms(2)
    by (auto simp: get_channel_keys_with_id_def get_channel_keys_with_keys_id_def get_secure_random_bytes_def
        channel_keys_def channel_keys_lnd_def signer_ok_def signs_with_def same_root_def outcome_simps Let_def)
  from step [OF assms(5,3)] have s: "same_root km km1" "km_lnd_basepoint_index km1 = km_lnd_basepoint_index km + 1"
    by auto
  with assms(3) have "km_style km1 = Lnd" by (simp add: same_root_def)
  from step [OF assms(5,3)] step [OF assms(6) this] s obtain p q where
    "derive_key_lnd K (km_network km) (km_master_key km) 0 (km_lnd_basepoint_index km) =
       (Ok (p, funding_key keys1) :: (unit, _) outcome)"
    "derive_key_lnd K (km_network km) (km_master_key km) 0 (km_lnd_basepoint_index km + 1) =
       (Ok (q, funding_key keys2) :: (unit, _) outcome)"
    by (auto simp: same_root_def)
  then show ?thesis using derive_key_lnd_index [OF assms(1,4)] by fastforce
qed

section \<open>Value of a spending transaction\<close>

abbreviation max_value_sat :: u64 where
  "max_value_sat \<equiv> MAX_VALUE_MSAT div 1000"

definition descriptor_outpoint :: "spendable_output \<Rightarrow> outpoint" where
  "descriptor_outpoint d = (case d of StaticPaymentOutput x \<Rightarrow> od_outpoint x | DelayedPaymentOutput x \<Rightarrow> od_outpoint x
     | StaticOutput outpoint _ \<Rightarrow> outpoint)"

definition descriptor_value :: "spendable_output \<Rightarrow> u64" where
  "descriptor_value d = (case d of StaticPaymentOutput x \<Rightarrow> out_value (od_output x)
     | DelayedPaymentOutput x \<Rightarrow> out_value (od_output x) | StaticOutput _ out \<Rightarrow> out_value out)"

definition descriptor_input :: "key_lib \<Rightarrow> spendable_output \<Rightarrow> tx_in" where
  "descriptor_input K d = (case descriptor_parts K d of (outpoint, sequence, _, _) \<Rightarrow> spend_input outpoint sequence)"

definition descriptor_witness :: "key_lib \<Rightarrow> spendable_output \<Rightarrow> nat" where
  "descriptor_witness K d = (case descriptor_parts K d of (_, _, wit, _) \<Rightarrow> wit)"

definition total_out :: "tx_out list \<Rightarrow> nat" where
  "total_out outs = sum_list (map (\<lambda>x. unat (out_value x)) outs)"

lemma total_out_simps [simp]:
  "total_out [] = 0" "total_out (x # xs) = unat (out_value x) + total_out xs"
  "total_out (xs @ ys) = total_out xs + total_out ys"
  by (simp_all add: total_out_def)

lemma descriptor_parts_eq:
  "\<exists>sq wit. descriptor_parts K d = (descriptor_outpoint d, sq, wit, descriptor_value d)"
  by (cases d) (auto simp: descriptor_outpoint_def descriptor_value_def)

lemma unat_add_max: "a \<le> max_value_sat \<Longrightarrow> b \<le> max_value_sat \<Longrightarrow> unat (a + b) = unat a + unat b"
  by (simp add: MAX_VALUE_MSAT_def unat_word_ariths word_le_nat_alt)

lemma collect_inputs:
  assumes "foldo (collect_input K) ds (inp, v, w, S) = Ok (inp', v', w', S')"
    and "\<forall>d \<in> set ds. descriptor_value d \<le> max_value_sat" and "v \<le> max_value_sat"
  shows "inp' = inp @ map (descriptor_input K) ds \<and> w' = w + sum_list (map (descriptor_witness K) ds) \<and>
         unat v' = unat v + sum_list (map (\<lambda>d. unat (descriptor_value d)) ds) \<and> v' \<le> max_value_sat \<and>
         distinct (map descriptor_outpoint ds) \<and> S \<inter> descriptor_outpoint ` set ds = {}"
  using assms
proof (induction ds arbitrary: inp v w S)
  case (Cons d ds)
  obtain sq wit where p: "descriptor_parts K d = (descriptor_outpoint d, sq, wit, descriptor_value d)"
    using descriptor_parts_eq by blast
  let ?v = "v + descriptor_value d"
  have "collect_input K d (inp, v, w, S) =
      (if descriptor_outpoint d \<in> S then Err () else if ?v > max_value_sat then Err ()
       else Ok (inp @ [spend_input (descriptor_outpoint d) sq], ?v, w + wit, insert (descriptor_outpoint d) S))"
    using p by (simp add: collect_input_def Let_def)
  with Cons.prems(1) have c: "descriptor_outpoint d \<notin> S" "?v \<le> max_value_sat"
    "foldo (collect_input K) ds
       (inp @ [spend_input (descriptor_outpoint d) sq], ?v, w + wit, insert (descriptor_outpoint d) S) = Ok (inp', v', w', S')"
    by (auto simp: outcome_simps split: if_splits)
  from Cons.IH [OF c(3) _ c(2)] Cons.prems(2) c(1) unat_add_max [OF Cons.prems(3)] show ?case
    by (auto simp: descriptor_input_def descriptor_witness_def p)
qed simp

lemma output_sum_below_total:
  assumes "foldo (\<lambda>x s. let s' = s + out_value x in if s' \<ge> iv then Err () else Ok s') outs s = Ok r"
    and "\<forall>x \<in> set outs. out_value x \<le> max_value_sat" and "s \<le> max_value_sat" and "iv \<le> max_value_sat" and "s \<le> iv"
  shows "unat r = unat s + total_out outs \<and> r \<le> iv"
  using assms
proof (induction outs arbitrary: s)
  case (Cons x outs)
  from Cons.prems(1) have lt: "s + out_value x < iv" and
    f: "foldo (\<lambda>x s. let s' = s + out_value x in if s' \<ge> iv then Err () else Ok s') outs (s + out_value x) = Ok r"
    by (auto simp: outcome_simps Let_def split: if_splits)
  from lt Cons.prems(4) have "s + out_value x \<le> max_value_sat" by (meson le_less_trans less_imp_le order_trans)
  with Cons.IH [OF f] lt Cons.prems unat_add_max [OF Cons.prems(3)] show ?case by auto
qed simp

definition varint_ok :: "lib \<Rightarrow> bool" where
  "varint_ok L \<longleftrightarrow> (\<forall>n. lib_varint_len L n \<le> lib_varint_len L (n + 1))"

lemma fee_for_weight_mono: "a \<le> b \<Longrightarrow> fee_for_weight a r \<le> fee_for_weight b r"
  by (simp add: fee_for_weight_def mult_right_mono zdiv_mono1)

lemma change_conserves:
  assumes "maybe_add_change_output L tx iv ww feerate scr = Ok tx'" and "varint_ok L"
    and "\<forall>x \<in> set (tx_outputs tx). out_value x \<le> max_value_sat"
  shows "tx_inputs tx' = tx_inputs tx \<and> (\<exists>change. tx_outputs tx' = tx_outputs tx @ change) \<and>
         int (total_out (tx_outputs tx')) + fee_for_weight (int (lib_weight L tx) + 2 + int ww) feerate \<le> uint iv"
proof -
  let ?base = "int (lib_weight L tx) + 2 + int ww"
  from assms(1) obtain ov where iv: "iv \<le> max_value_sat" and ov: "output_sum_below iv (tx_outputs tx) = Ok ov"
    by (auto simp: maybe_add_change_output_def outcome_simps split: if_splits)
  have sum: "unat ov = total_out (tx_outputs tx)" "ov \<le> iv"
    using output_sum_below_total [OF ov [unfolded output_sum_below_def] assms(3) _ iv] by auto
  then have diff: "uint (iv - ov) = uint iv - int (total_out (tx_outputs tx))"
    by (simp add: uint_sub_if_size word_le_def flip: sum(1))
  have new: "tx\<lparr>tx_outputs := tx_outputs tx @ [x]\<rparr> \<noteq> tx" for x
    by (metis append_self_conv list.distinct(1) transaction.select_convs(4) transaction.surjective transaction.update_convs(4))
  show ?thesis
  proof (cases "tx' = tx")
    case True
    then show ?thesis using assms(1) iv ov diff new
      by (auto simp: maybe_add_change_output_def Let_def split: if_splits)
  next
    case False
    define wc where "wc = ?base + int (lib_txout_len L \<lparr>out_value = 0, script_pubkey = scr\<rparr>) * 4
      + (int (lib_varint_len L (length (tx_outputs tx) + 1)) - int (lib_varint_len L (length (tx_outputs tx)))) * 4"
    define cv where "cv = uint (iv - ov) - fee_for_weight wc feerate"
    have tx': "tx' = tx\<lparr>tx_outputs := tx_outputs tx @ [\<lparr>out_value = of_int cv, script_pubkey = scr\<rparr>]\<rparr>"
      and dust: "uint (lib_dust_value L scr) \<le> cv"
      using assms(1) False iv ov
      by (auto simp: maybe_add_change_output_def Let_def wc_def cv_def split: if_splits)
    from dust have pos: "0 \<le> cv" using uint_ge_0 [of "lib_dust_value L scr"] by linarith
    have "?base \<le> wc" using assms(2) by (simp add: wc_def varint_ok_def)
    then have fee: "fee_for_weight ?base feerate \<le> fee_for_weight wc feerate" by (rule fee_for_weight_mono)
    have "0 \<le> wc" using \<open>?base \<le> wc\<close> by linarith
    then have "0 \<le> fee_for_weight wc feerate" by (simp add: fee_for_weight_def pos_imp_zdiv_nonneg_iff)
    then have "cv < 2 ^ 64" using uint_bounded [of "iv - ov"] by (simp add: cv_def)
    then have "uint (of_int cv :: u64) = cv" using pos by (simp add: unsigned_of_int take_bit_int_eq_self)
    then have "int (unat (of_int cv :: u64)) = cv" by simp
    then show ?thesis using fee diff by (auto simp: tx' cv_def)
  qed
qed

lemma sign_input_frame:
  assumes "sign_input L K d (i, tx, cache, km) = (Ok (i', tx', cache', km') :: ('e, _) outcome)"
  shows "map previous_output (tx_inputs tx') = map previous_output (tx_inputs tx) \<and> tx_outputs tx' = tx_outputs tx"
proof -
  have "map previous_output (xs[i := (xs ! i)\<lparr>witness := w\<rparr>]) = map previous_output xs" for xs w
    by (cases "i < length xs") (simp_all add: map_update list_update_same_conv list_update_beyond)
  then show ?thesis using assms
    by (auto simp: sign_input_def set_witness_def outcome_simps)
qed

lemma sign_inputs_frame:
  assumes "foldo (sign_input L K) ds (i, tx, cache, km) = (Ok (i', tx', cache', km') :: ('e, _) outcome)"
  shows "map previous_output (tx_inputs tx') = map previous_output (tx_inputs tx) \<and> tx_outputs tx' = tx_outputs tx"
  using assms
proof (induction ds arbitrary: i tx cache km)
  case (Cons d ds)
  then obtain i1 tx1 c1 km1 where
      s: "sign_input L K d (i, tx, cache, km) = (Ok (i1, tx1, c1, km1) :: ('e, _) outcome)"
        "foldo (sign_input L K) ds (i1, tx1, c1, km1) = (Ok (i', tx', cache', km') :: ('e, _) outcome)"
    by (auto simp: outcome_simps)
  from sign_input_frame [OF s(1)] Cons.IH [OF s(2)] show ?case by simp
qed simp

text \<open>
  C0: Sweeping our outputs loses nothing but the fee.  When \<^verbatim>\<open>spend_spendable_outputs\<close> returns a
  transaction, it spends exactly the given outputs, each once, it pays the given outputs followed
  by at most a change output, and what it leaves to the miners is at least the requested fee rate
  times the weight and never negative.  Values are those that can exist on the chain.
\<close>

theorem spend_conserves_value:
  assumes "spend_spendable_outputs L K descriptors outputs change_script feerate km = Ok (tx, km')" and "varint_ok L"
    and "\<forall>d \<in> set descriptors. descriptor_value d \<le> MAX_VALUE_MSAT div 1000"
    and "\<forall>x \<in> set outputs. out_value x \<le> MAX_VALUE_MSAT div 1000"
    and "unsigned_tx = \<lparr>tx_version = 2, lock_time = 0, tx_inputs = map (descriptor_input K) descriptors,
           tx_outputs = outputs\<rparr>"
  shows "map previous_output (tx_inputs tx) = map descriptor_outpoint descriptors \<and>
         distinct (map descriptor_outpoint descriptors) \<and> (\<exists>change. tx_outputs tx = outputs @ change) \<and>
         int (total_out (tx_outputs tx)) +
           fee_for_weight (int (lib_weight L unsigned_tx) + 2 + int (sum_list (map (descriptor_witness K) descriptors))) feerate
         \<le> int (sum_list (map (\<lambda>d. unat (descriptor_value d)) descriptors))"
proof -
  from assms(1) obtain inp v w S tx0 i c where
    c: "foldo (collect_input K) descriptors ([], 0, 0, {}) = Ok (inp, v, w, S)" and
    m: "maybe_add_change_output L \<lparr>tx_version = 2, lock_time = 0, tx_inputs = inp, tx_outputs = outputs\<rparr>
          v w feerate change_script = Ok tx0" and
    f: "foldo (sign_input L K) descriptors (0, tx0, None, km) = (Ok (i, tx, c, km') :: (unit, _) outcome)"
    by (auto simp: spend_spendable_outputs_def outcome_simps)
  have inp: "inp = map (descriptor_input K) descriptors" "w = sum_list (map (descriptor_witness K) descriptors)"
    "unat v = sum_list (map (\<lambda>d. unat (descriptor_value d)) descriptors)" "distinct (map descriptor_outpoint descriptors)"
    using collect_inputs [OF c] assms(3) by auto
  have tx: "map previous_output (tx_inputs tx) = map previous_output (tx_inputs tx0)" "tx_outputs tx = tx_outputs tx0"
    using sign_inputs_frame [OF f] by auto
  have "previous_output (descriptor_input K d) = descriptor_outpoint d" for d
    using descriptor_parts_eq [of K d] by (auto simp: descriptor_input_def spend_input_def)
  moreover have "uint v = int (sum_list (map (\<lambda>d. unat (descriptor_value d)) descriptors))"
    using inp(3) by (simp flip: inp(3))
  ultimately show ?thesis using change_conserves [OF m assms(2)] assms(4,5) inp tx by auto
qed

section \<open>An instance\<close>

text \<open>A library that satisfies the assumptions: constant digests, and keys that spell their index.\<close>

fun example_ckd :: "ext_priv_key \<Rightarrow> child_number \<Rightarrow> ext_priv_key option" where
  "example_ckd xk (Normal i) = Some (xk\<lparr>xk_private_key := be32_to_array i @ replicate 28 0\<rparr>)"
| "example_ckd xk (Hardened i) = Some (xk\<lparr>xk_private_key := be32_to_array i @ replicate 28 1\<rparr>)"

definition example_key_lib :: key_lib where
  "example_key_lib =
     \<lparr>kl_hmac_sha256 = (\<lambda>k m. replicate 32 5), kl_sha256 = (\<lambda>m. replicate 32 6), kl_hash160 = (\<lambda>m. take 20 m),
      kl_secret_from_slice = (\<lambda>b. if length b = 32 then Some b else None), kl_public_key = (\<lambda>s. 2 # s),
      kl_new_master = (\<lambda>n b. Some \<lparr>xk_network = n, xk_private_key = replicate 32 7, xk_chain_code = []\<rparr>),
      kl_from_normal_idx = (\<lambda>i. if i < 2 ^ 31 then Some (Normal i) else None),
      kl_from_hardened_idx = (\<lambda>i. if i < 2 ^ 31 then Some (Hardened i) else None),
      kl_ckd_priv = example_ckd, kl_p2wpkh_script = (\<lambda>h. [0, 20] @ h), kl_ecdh = (@), kl_scalar_ok = (\<lambda>_. True),
      kl_add_tweak = (\<lambda>s t. Some s), kl_mul_tweak = (\<lambda>s t. Some s), kl_sign_schnorr = (\<lambda>m s. m @ s),
      kl_p2pkh_script = (\<lambda>p. [118] @ p), kl_static_max_witness = 108, kl_delayed_max_witness = 159,
      kl_sign_counterparty_payment_input = (\<lambda>keys tx i d. Some [funding_key keys]),
      kl_sign_dynamic_p2wsh_input = (\<lambda>keys tx i d. Some [funding_key keys]),
      kl_sign_recoverable = (\<lambda>m s. (m @ s, 0)), kl_legacy_sighash = (\<lambda>tx i scr. [of_nat i]),
      kl_channel_keys_id = (\<lambda>keys. []), kl_signer_random = (\<lambda>keys. []),
      kl_provide_parameters = (\<lambda>ps keys. keys\<lparr>counterparty_pubkeys := cp_counterparty_pubkeys ps\<rparr>),
      kl_signer_new = (\<lambda>cs v kid r.
        let p = (\<lambda>s. 2 # s);
            pubs = \<lparr>funding_pubkey = p (cs_funding_key cs), revocation_basepoint = p (cs_revocation_base_key cs),
                    payment_point = p (cs_payment_key cs),
                    delayed_payment_basepoint = p (cs_delayed_payment_base_key cs), htlc_basepoint = p (cs_htlc_base_key cs)\<rparr>
        in \<lparr>holder_pubkeys = pubs, counterparty_pubkeys = pubs, commitment_seed = cs_commitment_seed cs,
            funding_key = cs_funding_key cs, revocation_base_key = cs_revocation_base_key cs,
            payment_key = cs_payment_key cs, delayed_payment_base_key = cs_delayed_payment_base_key cs,
            htlc_base_key = cs_htlc_base_key cs\<rparr>)\<rparr>"

lemma example_ckd_Some: "\<exists>y. example_ckd xk c = Some y"
  by (cases c) auto

lemma example_key_lib_ok: "key_lib_ok example_key_lib"
  by (simp add: key_lib_ok_def example_key_lib_def example_ckd_Some)

lemma example_signer_ok: "signer_ok example_key_lib"
  by (simp add: signer_ok_def signs_with_def pubkeys_of_def example_key_lib_def Let_def)

lemma example_ckd_inj:
  "\<forall>xk i j a b. kl_ckd_priv example_key_lib xk (Normal i) = Some a \<and>
     kl_ckd_priv example_key_lib xk (Normal j) = Some b \<and> i \<noteq> j \<longrightarrow> xk_private_key a \<noteq> xk_private_key b"
  by (auto simp: example_key_lib_def) (metis slice_to_be32_to_array)

text \<open>With such a library a manager can be made in every style.\<close>

definition returns :: "('e, 'a) outcome \<Rightarrow> bool" where
  "returns m \<longleftrightarrow> (\<exists>a. m = Ok a)"

lemma returns_bind: "returns m \<Longrightarrow> (\<And>a. returns (f a)) \<Longrightarrow> returns (bindo m f)"
  by (auto simp: returns_def)

lemma returns_Ok [simp]: "returns (Ok a)"
  by (simp add: returns_def)

lemma returns_hardened: "key_lib_ok K \<Longrightarrow> i < 2 ^ 31 \<Longrightarrow> returns (ckd_hardened K i xk)"
  using ckd_hardened_ok by (auto simp: returns_def)

lemma returns_normal: "key_lib_ok K \<Longrightarrow> i < 2 ^ 31 \<Longrightarrow> returns (ckd_normal K i xk)"
  using ckd_normal_ok by (auto simp: returns_def)

lemma returns_hkdf: "key_lib_ok K \<Longrightarrow> returns (hkdf_sha256 K a b c)"
  using hkdf_sha256_ok by (fastforce simp: returns_def)

lemma returns_master: "key_lib_ok K \<Longrightarrow> returns (unwrap (kl_new_master K n b))"
  by (auto simp: key_lib_ok_def returns_def unwrap_def split: option.split)

lemmas returns_rules = returns_bind returns_hardened returns_normal returns_hkdf returns_master returns_Ok

lemma returns_derive_key_lnd: "key_lib_ok K \<Longrightarrow> f < 2 ^ 31 \<Longrightarrow> i < 2 ^ 31 \<Longrightarrow> returns (derive_key_lnd K n m f i)"
  unfolding derive_key_lnd_def Let_def by (intro returns_rules) (auto split: network.splits)

lemma returns_master_key: "key_lib_ok K \<Longrightarrow> returns (master_key K style n seed)"
  by (cases style) (auto simp: master_key_def intro!: returns_rules)

lemma returns_node_keys:
  assumes "key_lib_ok K"
  shows "returns (node_keys K style n seed :: ('e, _) outcome)"
proof -
  obtain r where "hkdf_sha256 K seed (as_bytes ''nodeid'') [] = (Ok r :: ('e, bytes) outcome)" "length r = 32"
    using hkdf_sha256_ok [OF assms] by blast
  then show ?thesis using assms
    by (cases style) (auto simp: node_keys_def unwrap_secret intro!: returns_rules returns_master_key returns_derive_key_lnd)
qed

lemma returns_account: "key_lib_ok K \<Longrightarrow> returns (get_account_extended_key K style n seed)"
  by (cases style) (auto simp: get_account_extended_key_def get_account_extended_key_native_def
      get_account_extended_key_lnd_def intro!: returns_rules)

lemma returns_random:
  "key_lib_ok K \<Longrightarrow> km_rand_bytes_child_index km < 2 ^ 31 \<Longrightarrow> returns (get_secure_random_bytes K km)"
  using random_ok by (fastforce simp: returns_def)

lemma keys_manager_new_ok: "key_lib_ok K \<Longrightarrow> returns (keys_manager_new K style seed network start)"
  unfolding keys_manager_new_def channels_seed_def
  by (auto intro!: returns_rules returns_master_key returns_node_keys returns_account returns_random split: prod.split)

theorem channel_keys_from_seed_witness:
  "\<exists>km cs keys km'. keys_manager_new example_key_lib Ldk (replicate 32 1) Testnet (1, 2) = (Ok km :: (unit, _) outcome) \<and>
     channel_secrets_of example_key_lib Ldk Testnet (replicate 32 1) [9] = (Ok cs :: (unit, _) outcome) \<and>
     get_channel_keys_with_id example_key_lib [9] 1000 km = (Ok (keys, km') :: (unit, _) outcome) \<and>
     signs_with example_key_lib cs keys"
proof -
  obtain km where km: "keys_manager_new example_key_lib Ldk (replicate 32 1) Testnet (1, 2) = (Ok km :: (unit, _) outcome)"
    using keys_manager_new_ok [OF example_key_lib_ok] by (fastforce simp: returns_def)
  then have "km_rand_bytes_child_index km < 2 ^ 31" using keys_manager_new_root(6) [OF km] by simp
  with channel_keys_from_seed [OF example_key_lib_ok example_signer_ok _ km, of example_lib "[]" km "[9]" 1000] km
  show ?thesis by auto
qed

lemma returns_lnd_signer:
  assumes "key_lib_ok K" and "km_style km = Lnd" and "km_lnd_basepoint_index km < 2 ^ 31"
    and "km_rand_bytes_child_index km < 2 ^ 31"
  shows "returns (get_channel_keys_with_id K cid v km :: ('e, _) outcome)"
proof -
  have "returns (keys_id K Lnd cid base :: ('e, _) outcome)" for base
    using keys_id_ok [OF assms(1), of Lnd cid base, where ?'e = 'e] by (auto simp: returns_def)
  moreover have "returns (hkdf_sha256_keys K a b c :: ('e, _) outcome)" for a b c
    using hkdf_sha256_keys_ok [OF assms(1), of a b c, where ?'e = 'e] by (auto simp: returns_def)
  ultimately show ?thesis using assms
    by (auto simp: get_channel_keys_with_id_def get_channel_keys_with_keys_id_def channel_keys_def channel_keys_lnd_def Let_def
        intro!: returns_rules returns_random returns_derive_key_lnd split: prod.split)
qed

lemma signer_counters:
  assumes "get_channel_keys_with_id K cid v km = (Ok (keys, km') :: ('e, _) outcome)"
  shows "km_lnd_basepoint_index km' = km_lnd_basepoint_index km + 1 \<and>
         km_rand_bytes_child_index km' = km_rand_bytes_child_index km + 1 \<and> km_style km' = km_style km"
  using assms
  by (auto simp: get_channel_keys_with_id_def get_channel_keys_with_keys_id_def get_secure_random_bytes_def
      outcome_simps Let_def)

definition example_km :: keys_manager where
  "example_km = (let xk = \<lparr>xk_network = Testnet, xk_private_key = replicate 32 7, xk_chain_code = []\<rparr> in
     \<lparr>km_seed = replicate 32 1, km_style = Lnd, km_network = Testnet, km_master_key = xk,
      km_node_secret = replicate 32 1, km_bolt12_secret = replicate 32 1, km_persistence_secret = replicate 32 1,
      km_inbound_payment_key = replicate 32 1, km_channel_seed_base = replicate 32 1, km_account_extended_key = xk,
      km_destination_script = [0, 20, 1], km_ldk_shutdown_pubkey = replicate 33 2, km_channel_master_key = xk,
      km_channel_id_master_key = xk, km_channel_id_child_index = 0, km_rand_bytes_master_key = xk,
      km_rand_bytes_child_index = 0, km_rand_bytes_unique_start = [], km_lnd_basepoint_index = 0, km_unique_start = []\<rparr>)"

theorem lnd_keys_not_stable_witness:
  "\<exists>keys1 km1 keys2 km2.
     get_channel_keys_with_id example_key_lib [9] 1000 example_km = (Ok (keys1, km1) :: (unit, _) outcome) \<and>
     get_channel_keys_with_id example_key_lib [9] 1000 km1 = (Ok (keys2, km2) :: (unit, _) outcome) \<and>
     funding_key keys1 \<noteq> funding_key keys2"
proof -
  have e: "km_style example_km = Lnd" "km_lnd_basepoint_index example_km = 0" "km_rand_bytes_child_index example_km = 0"
    by (simp_all add: example_km_def Let_def)
  obtain keys1 km1 where 1: "get_channel_keys_with_id example_key_lib [9] 1000 example_km = (Ok (keys1, km1) :: (unit, _) outcome)"
    using returns_lnd_signer [OF example_key_lib_ok, of example_km] e by (fastforce simp: returns_def)
  obtain keys2 km2 where 2: "get_channel_keys_with_id example_key_lib [9] 1000 km1 = (Ok (keys2, km2) :: (unit, _) outcome)"
    using returns_lnd_signer [OF example_key_lib_ok, of km1] e signer_counters [OF 1] by (fastforce simp: returns_def)
  from lnd_keys_not_stable [OF example_key_lib_ok example_signer_ok e(1) example_ckd_inj 1 2] 1 2 show ?thesis by blast
qed

theorem spend_conserves_value_witness:
  "\<exists>tx km'. spend_spendable_outputs example_lib example_key_lib
       [StaticOutput (OutPoint [7] 0) \<lparr>out_value = 2000000, script_pubkey = [0, 20, 1]\<rparr>]
       [\<lparr>out_value = 1000000, script_pubkey = [1]\<rparr>] [2] 1000 example_km = Ok (tx, km') \<and>
     map previous_output (tx_inputs tx) = [OutPoint [7] 0] \<and> total_out (tx_outputs tx) \<le> 2000000"
proof -
  let ?ds = "[StaticOutput (OutPoint [7] 0) \<lparr>out_value = 2000000, script_pubkey = [0, 20, 1]\<rparr>]"
  let ?outs = "[\<lparr>out_value = 1000000, script_pubkey = [1]\<rparr>] :: tx_out list"
  let ?tx0 = "\<lparr>tx_version = 2, lock_time = 0, tx_inputs = map (descriptor_input example_key_lib) ?ds, tx_outputs = ?outs\<rparr>"
  obtain acc where "get_account_extended_key example_key_lib Lnd Testnet (replicate 32 1) = (Ok acc :: (unit, _) outcome)"
    using returns_account [OF example_key_lib_ok] by (fastforce simp: returns_def)
  moreover obtain x where "ckd_normal example_key_lib 1 acc = (Ok x :: (unit, _) outcome)"
    using returns_normal [OF example_key_lib_ok, of 1] by (fastforce simp: returns_def)
  ultimately obtain tx km' where run: "spend_spendable_outputs example_lib example_key_lib ?ds ?outs [2] 1000 example_km = Ok (tx, km')"
    by (simp add: spend_spendable_outputs_def collect_input_def maybe_add_change_output_def output_sum_below_def
        sign_input_def sign_static_output_def example_lib_def example_km_def MAX_VALUE_MSAT_def fee_for_weight_def
        asserts_def Let_def)
  have v: "varint_ok example_lib" by (simp add: varint_ok_def example_lib_def)
  have "0 \<le> fee_for_weight (int (lib_weight example_lib ?tx0) + 2 + int (sum_list (map (descriptor_witness example_key_lib) ?ds))) 1000"
    by (simp add: fee_for_weight_def)
  with spend_conserves_value [OF run v _ _ refl] run show ?thesis
    by (auto simp: descriptor_value_def descriptor_outpoint_def MAX_VALUE_MSAT_def)
qed

end
