(* ===== verification/Persister.thy ===== *)
theory Persister
  imports Node_State Tracker Keys_Manager
begin

text \<open>
  What a signer stores: \<^verbatim>\<open>vls-core/src/persist/model.rs\<close> and \<^verbatim>\<open>vls-persist/src/model.rs\<close> (the stored
  entries and their conversions) and \<^verbatim>\<open>vls-persist/src/kv_json.rs\<close> (the persister that keeps them in
  the buckets of an ordered key value store).  A bucket maps keys to entries; that the JSON
  encoding of an entry can be read back is taken for granted.  The locale \<open>channel_store\<close> states
  what a node relies on, and the persister is an instance of it.
\<close>

section \<open>Entries\<close>

record node_state_entry =
  nse_invoices :: "(bytes \<times> payment_state) list"
  nse_issued_invoices :: "(bytes \<times> payment_state) list"
  nse_velocity_control :: velocity_control
  nse_fee_velocity_control :: velocity_control
  nse_preimages :: "bytes list"

definition node_state_to_entry :: "node_state \<Rightarrow> node_state_entry" where
  "node_state_to_entry st =
     \<lparr>nse_invoices = invoices st, nse_issued_invoices = issued_invoices st,
      nse_velocity_control = ns_velocity_control st, nse_fee_velocity_control = ns_fee_velocity_control st,
      nse_preimages = List.map_filter preimage (values_of (payments st))\<rparr>"

record node_entry =
  nent_key_derivation_style :: u8
  nent_network :: string

record core_node_entry =
  cne_key_derivation_style :: u8
  cne_network :: string
  cne_state :: node_state

record channel_entry =
  ce_channel_value_satoshis :: u64
  ce_channel_setup :: "channel_setup option"
  ce_id :: "channel_id option"
  ce_enforcement_state :: enforcement_state
  ce_blockheight :: "u32 option"

record chain_tracker_entry =
  cte_headers :: "bytes list"
  cte_tip :: bytes
  cte_height :: u32
  cte_network :: network
  cte_listeners :: "(outpoint, monitor_state \<times> listen_slot) amap"

text \<open>The consensus encoding of headers, public keys and network names are code of other crates.\<close>

record persist_lib =
  pl_serialize_headers :: "headers \<Rightarrow> bytes"
  pl_deserialize_headers :: "bytes \<Rightarrow> headers option"
  pl_deserialize_header :: "bytes \<Rightarrow> block_header option"
  pl_pubkey_from_slice :: "bytes \<Rightarrow> pubkey option"
  pl_network_to_string :: "network \<Rightarrow> string"
  pl_network_from_str :: "string \<Rightarrow> network option"

type_synonym node_tracker = "(outpoint, monitor_state) chain_tracker"

definition tracker_to_entry :: "persist_lib \<Rightarrow> node_tracker \<Rightarrow> chain_tracker_entry" where
  "tracker_to_entry PL t =
     \<lparr>cte_headers = map (pl_serialize_headers PL) (tr_headers t), cte_tip = pl_serialize_headers PL (tr_tip t),
      cte_height = tr_height t, cte_network = tr_network t, cte_listeners = tr_listeners t\<rparr>"

definition into_tracker :: "persist_lib \<Rightarrow> chain_tracker_entry \<Rightarrow> ('e, node_tracker) outcome" where
  "into_tracker PL e =
     bindo (case pl_deserialize_headers PL (cte_tip e) of
              Some t \<Rightarrow> Ok t
            | None \<Rightarrow> bindo (unwrap (pl_deserialize_header PL (cte_tip e))) (\<lambda>h. Ok (Headers h (replicate 32 0)))) (\<lambda>tip.
     bindo (foldo (\<lambda>b hs. bindo (unwrap (pl_deserialize_headers PL b)) (\<lambda>h. Ok (hs @ [h]))) (cte_headers e) []) (\<lambda>hs.
     Ok (tracker_restore hs tip (cte_height e) (cte_network e) (cte_listeners e))))"

text \<open>The key of a channel: the 33 bytes of the node id and the channel id.\<close>

definition node_channel_id :: "pubkey \<Rightarrow> channel_id \<Rightarrow> bytes" where
  "node_channel_id node_id channel_id = node_id @ channel_id"

definition new_prefix :: "pubkey \<Rightarrow> bytes" where
  "new_prefix node_id = node_id"

definition nci_node_id :: "persist_lib \<Rightarrow> bytes \<Rightarrow> ('e, pubkey) outcome" where
  "nci_node_id PL key = unwrap (pl_pubkey_from_slice PL (take 33 key))"

definition nci_channel_id :: "bytes \<Rightarrow> channel_id" where
  "nci_channel_id key = drop 33 key"

section \<open>The persister\<close>

datatype persist_error = PersistUnavailable string | PersistNotFound string | PersistAlreadyExists string | PersistInternal string

record kv_store =
  kv_nodes :: "(bytes, node_entry) amap"
  kv_node_states :: "(bytes, node_state_entry) amap"
  kv_channels :: "(bytes, channel_entry) amap"
  kv_allowlists :: "(bytes, string list) amap"
  kv_chain_trackers :: "(bytes, chain_tracker_entry) amap"

definition kv_empty :: kv_store where
  "kv_empty = \<lparr>kv_nodes = [], kv_node_states = [], kv_channels = [], kv_allowlists = [], kv_chain_trackers = []\<rparr>"

definition kv_new_node ::
    "persist_lib \<Rightarrow> pubkey \<Rightarrow> key_derivation_style \<Rightarrow> network \<Rightarrow> node_state \<Rightarrow> kv_store \<Rightarrow> (persist_error, kv_store) outcome" where
  "kv_new_node PL node_id style network st s =
     bindo (asserts (map_of (kv_nodes s) node_id = None)) (\<lambda>_.
     Ok (s\<lparr>kv_node_states := AList.update node_id (node_state_to_entry st) (kv_node_states s),
           kv_nodes := AList.update node_id
             \<lparr>nent_key_derivation_style = style_to_u8 style, nent_network = pl_network_to_string PL network\<rparr> (kv_nodes s)\<rparr>))"

definition kv_update_node :: "pubkey \<Rightarrow> node_state \<Rightarrow> kv_store \<Rightarrow> (persist_error, kv_store) outcome" where
  "kv_update_node node_id st s =
     Ok (s\<lparr>kv_node_states := AList.update node_id (node_state_to_entry st) (kv_node_states s)\<rparr>)"

definition has_prefix :: "bytes \<Rightarrow> bytes \<Rightarrow> bool" where
  "has_prefix pre key \<longleftrightarrow> take (length pre) key = pre"

definition kv_delete_node :: "pubkey \<Rightarrow> kv_store \<Rightarrow> (persist_error, kv_store) outcome" where
  "kv_delete_node node_id s =
     Ok (s\<lparr>kv_channels := filter (\<lambda>(k, _). \<not> has_prefix (new_prefix node_id) k) (kv_channels s),
           kv_nodes := AList.delete node_id (kv_nodes s),
           kv_chain_trackers := AList.delete node_id (kv_chain_trackers s)\<rparr>)"

text \<open>The transactions of \<^verbatim>\<open>new_channel\<close> and \<^verbatim>\<open>update_channel\<close> abort, and the abort is a panic.\<close>

definition kv_new_channel :: "pubkey \<Rightarrow> channel_stub \<Rightarrow> kv_store \<Rightarrow> (persist_error, kv_store) outcome" where
  "kv_new_channel node_id stub s =
     (let key = node_channel_id node_id (stub_id0 stub);
          entry = \<lparr>ce_channel_value_satoshis = 0, ce_channel_setup = None, ce_id = None,
                   ce_enforcement_state = enforcement_state_new 0, ce_blockheight = Some (stub_blockheight stub)\<rparr> in
      bindo (asserts (map_of (kv_channels s) key = None)) (\<lambda>_.
      Ok (s\<lparr>kv_channels := AList.update key entry (kv_channels s)\<rparr>)))"

definition kv_delete_channel :: "pubkey \<Rightarrow> channel_id \<Rightarrow> kv_store \<Rightarrow> (persist_error, kv_store) outcome" where
  "kv_delete_channel node_id channel_id s =
     Ok (s\<lparr>kv_channels := AList.delete (node_channel_id node_id channel_id) (kv_channels s)\<rparr>)"

definition kv_new_chain_tracker :: "persist_lib \<Rightarrow> pubkey \<Rightarrow> node_tracker \<Rightarrow> kv_store \<Rightarrow> (persist_error, kv_store) outcome" where
  "kv_new_chain_tracker PL node_id tracker s =
     bindo (asserts (map_of (kv_chain_trackers s) node_id = None)) (\<lambda>_.
     Ok (s\<lparr>kv_chain_trackers := AList.update node_id (tracker_to_entry PL tracker) (kv_chain_trackers s)\<rparr>))"

definition kv_update_tracker :: "persist_lib \<Rightarrow> pubkey \<Rightarrow> node_tracker \<Rightarrow> kv_store \<Rightarrow> (persist_error, kv_store) outcome" where
  "kv_update_tracker PL node_id tracker s =
     Ok (s\<lparr>kv_chain_trackers := AList.update node_id (tracker_to_entry PL tracker) (kv_chain_trackers s)\<rparr>)"

definition kv_get_tracker :: "persist_lib \<Rightarrow> pubkey \<Rightarrow> kv_store \<Rightarrow> (persist_error, node_tracker) outcome" where
  "kv_get_tracker PL node_id s =
     bindo (ok_or (PersistNotFound ''tracker'') (map_of (kv_chain_trackers s) node_id)) (into_tracker PL)"

definition channel_to_entry :: "channel \<Rightarrow> channel_entry" where
  "channel_to_entry c =
     \<lparr>ce_channel_value_satoshis = channel_value_sat (chan_setup c), ce_channel_setup = Some (chan_setup c),
      ce_id = chan_id c, ce_enforcement_state = enforcement_state c, ce_blockheight = None\<rparr>"

definition kv_update_channel :: "pubkey \<Rightarrow> channel \<Rightarrow> kv_store \<Rightarrow> (persist_error, kv_store) outcome" where
  "kv_update_channel node_id c s =
     (let key = node_channel_id node_id (chan_id0 c) in
      bindo (asserts (map_of (kv_channels s) key \<noteq> None)) (\<lambda>_.
      Ok (s\<lparr>kv_channels := AList.update key (channel_to_entry c) (kv_channels s)\<rparr>)))"

definition kv_get_channel :: "pubkey \<Rightarrow> channel_id \<Rightarrow> kv_store \<Rightarrow> (persist_error, channel_entry) outcome" where
  "kv_get_channel node_id channel_id s =
     ok_or (PersistNotFound ''channel'') (map_of (kv_channels s) (node_channel_id node_id channel_id))"

definition kv_get_node_channels :: "pubkey \<Rightarrow> kv_store \<Rightarrow> (persist_error, (channel_id \<times> channel_entry) list) outcome" where
  "kv_get_node_channels node_id s =
     Ok (map (\<lambda>(k, e). (nci_channel_id k, e))
          (sort_key fst (filter (\<lambda>(k, _). has_prefix (new_prefix node_id) k) (kv_channels s))))"

definition kv_update_node_allowlist :: "pubkey \<Rightarrow> string list \<Rightarrow> kv_store \<Rightarrow> (persist_error, kv_store) outcome" where
  "kv_update_node_allowlist node_id allowlist s =
     Ok (s\<lparr>kv_allowlists := AList.update node_id allowlist (kv_allowlists s)\<rparr>)"

definition kv_get_node_allowlist :: "pubkey \<Rightarrow> kv_store \<Rightarrow> (persist_error, string list) outcome" where
  "kv_get_node_allowlist node_id s = Ok (get_or [] (kv_allowlists s) node_id)"

definition kv_get_nodes ::
    "lib \<Rightarrow> persist_lib \<Rightarrow> kv_store \<Rightarrow> (persist_error, (pubkey \<times> core_node_entry) list) outcome" where
  "kv_get_nodes L PL s =
     foldo (\<lambda>(key, e) res.
         bindo (unwrap (map_of (kv_node_states s) key)) (\<lambda>se.
         bindo (node_state_restore L (nse_invoices se) (nse_issued_invoices se) (nse_preimages se) 0
                  (nse_velocity_control se) (nse_fee_velocity_control se)) (\<lambda>st.
         bindo (unwrap (pl_pubkey_from_slice PL key)) (\<lambda>node_id.
         Ok (res @ [(node_id, \<lparr>cne_key_derivation_style = nent_key_derivation_style e,
                               cne_network = nent_network e, cne_state = st\<rparr>)])))))
       (sort_key fst (kv_nodes s)) []"

definition kv_clear_database :: "kv_store \<Rightarrow> (persist_error, kv_store) outcome" where
  "kv_clear_database s = Ok (s\<lparr>kv_channels := [], kv_nodes := []\<rparr>)"

definition kv_recovery_required :: "kv_store \<Rightarrow> bool" where
  "kv_recovery_required s \<longleftrightarrow> kv_nodes s = []"

section \<open>The interface\<close>

text \<open>
  The methods of the trait \<^verbatim>\<open>Persist\<close> that a node calls, on a store of any type.  A call that fails
  leaves the store as it was.
\<close>

record 's persist =
  p_new_node :: "pubkey \<Rightarrow> key_derivation_style \<Rightarrow> network \<Rightarrow> node_state \<Rightarrow> 's \<Rightarrow> (persist_error, 's) outcome"
  p_update_node :: "pubkey \<Rightarrow> node_state \<Rightarrow> 's \<Rightarrow> (persist_error, 's) outcome"
  p_new_channel :: "pubkey \<Rightarrow> channel_stub \<Rightarrow> 's \<Rightarrow> (persist_error, 's) outcome"
  p_delete_channel :: "pubkey \<Rightarrow> channel_id \<Rightarrow> 's \<Rightarrow> (persist_error, 's) outcome"
  p_new_tracker :: "pubkey \<Rightarrow> node_tracker \<Rightarrow> 's \<Rightarrow> (persist_error, 's) outcome"
  p_update_tracker :: "pubkey \<Rightarrow> node_tracker \<Rightarrow> 's \<Rightarrow> (persist_error, 's) outcome"
  p_get_tracker :: "pubkey \<Rightarrow> 's \<Rightarrow> (persist_error, node_tracker) outcome"
  p_update_channel :: "pubkey \<Rightarrow> channel \<Rightarrow> 's \<Rightarrow> (persist_error, 's) outcome"
  p_get_node_channels :: "pubkey \<Rightarrow> 's \<Rightarrow> (persist_error, (channel_id \<times> channel_entry) list) outcome"
  p_update_node_allowlist :: "pubkey \<Rightarrow> string list \<Rightarrow> 's \<Rightarrow> (persist_error, 's) outcome"
  p_get_node_allowlist :: "pubkey \<Rightarrow> 's \<Rightarrow> (persist_error, string list) outcome"
  p_get_nodes :: "lib \<Rightarrow> 's \<Rightarrow> (persist_error, (pubkey \<times> core_node_entry) list) outcome"
  p_on_initial_restore :: bool

definition kv_json_persister :: "persist_lib \<Rightarrow> kv_store persist" where
  "kv_json_persister PL =
     \<lparr>p_new_node = kv_new_node PL, p_update_node = kv_update_node, p_new_channel = kv_new_channel, p_delete_channel = kv_delete_channel,
      p_new_tracker = kv_new_chain_tracker PL, p_update_tracker = kv_update_tracker PL, p_get_tracker = kv_get_tracker PL,
      p_update_channel = kv_update_channel, p_get_node_channels = kv_get_node_channels,
      p_update_node_allowlist = kv_update_node_allowlist, p_get_node_allowlist = kv_get_node_allowlist,
      p_get_nodes = (\<lambda>L. kv_get_nodes L PL), p_on_initial_restore = False\<rparr>"

text \<open>
  What a node relies on.  \<open>look\<close> is the stored entry of a channel, \<open>trk\<close> the stored tracker and
  \<open>ok\<close> an invariant of the store; \<open>valid\<close> are the node ids.
\<close>

definition stub_entry :: "channel_stub \<Rightarrow> channel_entry" where
  "stub_entry stub =
     \<lparr>ce_channel_value_satoshis = 0, ce_channel_setup = None, ce_id = None,
      ce_enforcement_state = enforcement_state_new 0, ce_blockheight = Some (stub_blockheight stub)\<rparr>"

locale channel_store =
  fixes P :: "'s persist"
    and look :: "'s \<Rightarrow> pubkey \<Rightarrow> channel_id \<Rightarrow> channel_entry option"
    and trk :: "'s \<Rightarrow> pubkey \<Rightarrow> node_tracker option"
    and ok :: "'s \<Rightarrow> bool"
    and ids :: "'s \<Rightarrow> pubkey list"
    and valid :: "pubkey \<Rightarrow> bool"
  assumes new_channel: "ok s \<Longrightarrow> valid n \<Longrightarrow> look s n (stub_id0 stub) = None \<Longrightarrow>
        \<exists>s'. p_new_channel P n stub s = Ok s' \<and> ok s' \<and> ids s' = ids s \<and> trk s' n = trk s n \<and>
             look s' n = (look s n)(stub_id0 stub \<mapsto> stub_entry stub)"
    and update_channel: "ok s \<Longrightarrow> valid n \<Longrightarrow> look s n (chan_id0 c) \<noteq> None \<Longrightarrow>
        \<exists>s'. p_update_channel P n c s = Ok s' \<and> ok s' \<and> ids s' = ids s \<and> trk s' n = trk s n \<and>
             look s' n = (look s n)(chan_id0 c \<mapsto> channel_to_entry c)"
    and delete_channel: "ok s \<Longrightarrow> valid n \<Longrightarrow>
        \<exists>s'. p_delete_channel P n cid s = Ok s' \<and> ok s' \<and> ids s' = ids s \<and> trk s' n = trk s n \<and>
             look s' n = (look s n)(cid := None)"
    and update_tracker: "ok s \<Longrightarrow> valid n \<Longrightarrow>
        \<exists>s'. p_update_tracker P n t s = Ok s' \<and> ok s' \<and> ids s' = ids s \<and> trk s' n = Some (t\<lparr>tr_decode_state := None\<rparr>) \<and> look s' n = look s n"
    and get_tracker: "ok s \<Longrightarrow> valid n \<Longrightarrow> trk s n = Some t \<Longrightarrow> p_get_tracker P n s = Ok t"
    and get_node_channels: "ok s \<Longrightarrow> valid n \<Longrightarrow>
        \<exists>xs. p_get_node_channels P n s = Ok xs \<and> distinct (map fst xs) \<and> map_of xs = look s n"
    and update_allowlist: "ok s \<Longrightarrow> valid n \<Longrightarrow>
        \<exists>s'. p_update_node_allowlist P n al s = Ok s' \<and> ok s' \<and> ids s' = ids s \<and> trk s' n = trk s n \<and> look s' n = look s n \<and>
             p_get_node_allowlist P n s' = Ok al"
    and update_node: "ok s \<Longrightarrow> valid n \<Longrightarrow>
        \<exists>s'. p_update_node P n st s = Ok s' \<and> ok s' \<and> ids s' = ids s \<and> trk s' n = trk s n \<and> look s' n = look s n"
    and new_node: "ok s \<Longrightarrow> valid n \<Longrightarrow> p_new_node P n style net st s = Ok s' \<Longrightarrow>
        ok s' \<and> trk s' n = trk s n \<and> look s' n = look s n \<and> (ids s = [] \<longrightarrow> ids s' = [n])"
    and new_tracker: "ok s \<Longrightarrow> valid n \<Longrightarrow> p_new_tracker P n t s = Ok s' \<Longrightarrow>
        ok s' \<and> ids s' = ids s \<and> trk s' n = Some (t\<lparr>tr_decode_state := None\<rparr>) \<and> look s' n = look s n"
    and get_nodes: "ok s \<Longrightarrow> valid n \<Longrightarrow> p_get_nodes P L s = Ok xs \<Longrightarrow> map fst xs = ids s"

text \<open>Encoded headers can be read back, and a public key is its 33 bytes.\<close>

definition persist_lib_ok :: "persist_lib \<Rightarrow> bool" where
  "persist_lib_ok PL \<longleftrightarrow> (\<forall>h. pl_deserialize_headers PL (pl_serialize_headers PL h) = Some h) \<and>
     (\<forall>b k. pl_pubkey_from_slice PL b = Some k \<longrightarrow> k = b)"

definition kv_look :: "kv_store \<Rightarrow> pubkey \<Rightarrow> channel_id \<Rightarrow> channel_entry option" where
  "kv_look s n cid = map_of (kv_channels s) (node_channel_id n cid)"

definition kv_trk :: "persist_lib \<Rightarrow> kv_store \<Rightarrow> pubkey \<Rightarrow> node_tracker option" where
  "kv_trk PL s n =
     (case map_of (kv_chain_trackers s) n of
        None \<Rightarrow> None
      | Some e \<Rightarrow> (case (into_tracker PL e :: (persist_error, _) outcome) of Ok t \<Rightarrow> Some t | _ \<Rightarrow> None))"

definition kv_ids :: "kv_store \<Rightarrow> pubkey list" where
  "kv_ids s = map fst (sort_key fst (kv_nodes s))"

definition kv_ok :: "kv_store \<Rightarrow> bool" where
  "kv_ok s \<longleftrightarrow> amap_wf (kv_channels s)"

definition node_id_ok :: "persist_lib \<Rightarrow> pubkey \<Rightarrow> bool" where
  "node_id_ok PL n \<longleftrightarrow> length n = 33 \<and> persist_lib_ok PL"

lemma kv_defs_frame [simp]:
  "kv_trk PL (s\<lparr>kv_channels := c\<rparr>) = kv_trk PL s" "kv_trk PL (s\<lparr>kv_allowlists := a\<rparr>) = kv_trk PL s"
  "kv_ids (s\<lparr>kv_channels := c\<rparr>) = kv_ids s" "kv_ids (s\<lparr>kv_allowlists := a\<rparr>) = kv_ids s"
  "kv_ids (s\<lparr>kv_node_states := ns\<rparr>) = kv_ids s" "kv_ids (s\<lparr>kv_chain_trackers := t\<rparr>) = kv_ids s"
  "kv_trk PL (s\<lparr>kv_nodes := nn\<rparr>) = kv_trk PL s" "kv_look (s\<lparr>kv_nodes := nn\<rparr>) = kv_look s"
  "kv_look (s\<lparr>kv_chain_trackers := t\<rparr>) = kv_look s" "kv_look (s\<lparr>kv_allowlists := a\<rparr>) = kv_look s"
  "kv_trk PL (s\<lparr>kv_node_states := ns\<rparr>) = kv_trk PL s" "kv_look (s\<lparr>kv_node_states := ns\<rparr>) = kv_look s"
  by (simp_all add: kv_trk_def kv_look_def kv_ids_def fun_eq_iff)

lemma kv_look_update:
  "kv_look (s\<lparr>kv_channels := AList.update (node_channel_id n cid) e (kv_channels s)\<rparr>) n = (kv_look s n)(cid \<mapsto> e)"
  by (simp add: kv_look_def node_channel_id_def amap_simps fun_eq_iff)

lemma kv_look_delete:
  "kv_look (s\<lparr>kv_channels := AList.delete (node_channel_id n cid) (kv_channels s)\<rparr>) n = (kv_look s n)(cid := None)"
  by (auto simp: kv_look_def node_channel_id_def delete_conv fun_eq_iff)

lemma into_tracker_entry:
  assumes "persist_lib_ok PL"
  shows "into_tracker PL (tracker_to_entry PL t) = (Ok (t\<lparr>tr_decode_state := None\<rparr>) :: ('e, _) outcome)"
proof -
  have "foldo (\<lambda>b hs. bindo (unwrap (pl_deserialize_headers PL b)) (\<lambda>h. Ok (hs @ [h])))
      (map (pl_serialize_headers PL) xs) ys = (Ok (ys @ xs) :: ('e, _) outcome)" for xs ys
    using assms by (induction xs arbitrary: ys) (auto simp: persist_lib_ok_def unwrap_def)
  then show ?thesis using assms
    by (simp add: into_tracker_def tracker_to_entry_def persist_lib_ok_def tracker_restore_def)
qed

lemma has_prefix_key: "length n = 33 \<Longrightarrow> has_prefix (new_prefix n) k \<longleftrightarrow> k = node_channel_id n (nci_channel_id k)"
  unfolding has_prefix_def new_prefix_def node_channel_id_def nci_channel_id_def
  by (metis append_eq_conv_conj append_take_drop_id)

lemma nci_node_channel_id: "length n = 33 \<Longrightarrow> nci_channel_id (node_channel_id n cid) = cid"
  by (simp add: nci_channel_id_def node_channel_id_def)

lemma map_of_node_channels:
  assumes n: "length n = 33" and "distinct (map fst m)"
  shows "map_of (map (\<lambda>(k, e). (nci_channel_id k, e)) (filter (\<lambda>(k, _). has_prefix (new_prefix n) k) m)) cid =
         map_of m (node_channel_id n cid)"
  using assms(2)
proof (induction m)
  case (Cons x m)
  obtain k e where x: "x = (k, e)" by (cases x)
  show ?case
  proof (cases "k = node_channel_id n cid")
    case True
    then show ?thesis by (simp add: x has_prefix_key [OF n] nci_node_channel_id [OF n])
  next
    case False
    then have "has_prefix (new_prefix n) k \<Longrightarrow> nci_channel_id k \<noteq> cid" by (auto simp: has_prefix_key [OF n])
    with Cons False show ?thesis by (auto simp: x)
  qed
qed simp

lemma distinct_sort_fst: "distinct (map fst (m :: ('k :: linorder \<times> 'v) list)) \<Longrightarrow> distinct (map fst (sort_key fst m))"
  by (simp add: distinct_map)

lemma map_of_sort_key_fst:
  assumes "distinct (map fst (m :: ('k :: linorder \<times> 'v) list))"
  shows "map_of (sort_key fst m) = map_of m"
proof
  fix k
  show "map_of (sort_key fst m) k = map_of m k"
  proof (cases "map_of m k")
    case None
    then have "k \<notin> fst ` set (sort_key fst m)" by (simp add: map_of_eq_None_iff)
    then have "map_of (sort_key fst m) k = None" by (simp only: map_of_eq_None_iff) simp
    with None show ?thesis by simp
  next
    case (Some v)
    then have "(k, v) \<in> set (sort_key fst m)" by (simp add: map_of_SomeD)
    with Some show ?thesis using distinct_sort_fst [OF assms] by simp
  qed
qed

lemma kv_listing:
  assumes n: "length n = 33" and wf: "amap_wf (kv_channels s)"
  shows "\<exists>xs. kv_get_node_channels n s = Ok xs \<and> distinct (map fst xs) \<and> map_of xs = kv_look s n"
proof -
  let ?m = "sort_key fst (kv_channels s)"
  have d: "distinct (map fst (kv_channels s))" using wf by (simp add: amap_wf_def keys_of_def)
  have "sort_key fst (filter (\<lambda>(k, _). has_prefix (new_prefix n) k) (kv_channels s)) =
        filter (\<lambda>(k, _). has_prefix (new_prefix n) k) ?m"
    by (simp add: filter_sort)
  moreover have "distinct (map fst (map (\<lambda>(k, e). (nci_channel_id k, e)) (filter (\<lambda>(k, _). has_prefix (new_prefix n) k) ?m)))"
  proof -
    let ?ks = "filter (has_prefix (new_prefix n)) (map fst ?m)"
    have "map fst (map (\<lambda>(k, e). (nci_channel_id k, e)) (filter (\<lambda>(k, _). has_prefix (new_prefix n) k) ?m)) =
        map nci_channel_id ?ks"
      by (simp add: filter_map comp_def) (simp add: case_prod_unfold)
    moreover have "inj_on nci_channel_id (set ?ks)"
    proof (rule inj_onI)
      fix k k'
      assume "k \<in> set ?ks" "k' \<in> set ?ks" "nci_channel_id k = nci_channel_id k'"
      then show "k = k'" by (auto simp: has_prefix_key [OF n])
    qed
    moreover have "distinct ?ks" using distinct_sort_fst [OF d] by simp
    ultimately show ?thesis by (simp add: distinct_map)
  qed
  moreover have "map_of (map (\<lambda>(k, e). (nci_channel_id k, e)) (filter (\<lambda>(k, _). has_prefix (new_prefix n) k) ?m)) = kv_look s n"
    using d by (auto simp: fun_eq_iff kv_look_def map_of_node_channels [OF n] distinct_sort_fst map_of_sort_key_fst)
  ultimately show ?thesis by (simp add: kv_get_node_channels_def)
qed

lemma foldo_firsts:
  assumes "\<And>x res z. f x res = (Ok z :: ('e, _) outcome) \<Longrightarrow> \<exists>y. z = res @ [y] \<and> fst y = fst x"
  shows "foldo f m ys = (Ok xs :: ('e, _) outcome) \<Longrightarrow> map fst xs = map fst ys @ map fst m"
proof (induction m arbitrary: ys)
  case (Cons x m)
  then obtain z where z: "f x ys = (Ok z :: ('e, _) outcome)" "foldo f m z = (Ok xs :: ('e, _) outcome)" by (auto simp: outcome_simps)
  with assms [OF z(1)] Cons.IH [OF z(2)] show ?case by auto
qed simp

lemma sort_key_Nil_iff: "sort_key f xs = [] \<longleftrightarrow> xs = []"
  by (metis length_0_conv length_sort)

interpretation kv: channel_store "kv_json_persister PL" kv_look "kv_trk PL" kv_ok kv_ids "node_id_ok PL" for PL
proof
  fix s n and stub :: channel_stub
  assume "kv_ok s" "kv_look s n (stub_id0 stub) = None"
  moreover from this have "map_of (kv_channels s) (node_channel_id n (stub_id0 stub)) = None" by (simp add: kv_look_def)
  ultimately show "\<exists>s'. p_new_channel (kv_json_persister PL) n stub s = Ok s' \<and> kv_ok s' \<and> kv_ids s' = kv_ids s \<and> kv_trk PL s' n = kv_trk PL s n \<and>
      kv_look s' n = (kv_look s n)(stub_id0 stub \<mapsto> stub_entry stub)"
    by (simp add: kv_json_persister_def kv_new_channel_def asserts_def kv_look_update kv_ok_def stub_entry_def)
next
  fix s n and c :: channel
  assume "kv_ok s" "kv_look s n (chan_id0 c) \<noteq> None"
  moreover from this have "map_of (kv_channels s) (node_channel_id n (chan_id0 c)) \<noteq> None" by (simp add: kv_look_def)
  ultimately show "\<exists>s'. p_update_channel (kv_json_persister PL) n c s = Ok s' \<and> kv_ok s' \<and> kv_ids s' = kv_ids s \<and> kv_trk PL s' n = kv_trk PL s n \<and>
      kv_look s' n = (kv_look s n)(chan_id0 c \<mapsto> channel_to_entry c)"
    by (simp add: kv_json_persister_def kv_update_channel_def asserts_def Let_def kv_look_update kv_ok_def)
next
  fix s n cid
  assume "kv_ok s"
  then show "\<exists>s'. p_delete_channel (kv_json_persister PL) n cid s = Ok s' \<and> kv_ok s' \<and> kv_ids s' = kv_ids s \<and> kv_trk PL s' n = kv_trk PL s n \<and>
      kv_look s' n = (kv_look s n)(cid := None)"
    by (simp add: kv_json_persister_def kv_delete_channel_def kv_look_delete kv_ok_def amap_wf_def keys_of_def distinct_delete)
next
  fix s n and t :: node_tracker
  assume "kv_ok s" "node_id_ok PL n"
  then show "\<exists>s'. p_update_tracker (kv_json_persister PL) n t s = Ok s' \<and> kv_ok s' \<and> kv_ids s' = kv_ids s \<and>
      kv_trk PL s' n = Some (t\<lparr>tr_decode_state := None\<rparr>) \<and> kv_look s' n = kv_look s n"
    by (simp add: kv_json_persister_def kv_update_tracker_def kv_ok_def node_id_ok_def kv_trk_def amap_simps into_tracker_entry)
next
  fix s n and t :: node_tracker
  assume "kv_trk PL s n = Some t"
  then show "p_get_tracker (kv_json_persister PL) n s = Ok t"
    by (auto simp: kv_json_persister_def kv_get_tracker_def kv_trk_def ok_or_def split: option.splits outcome.splits)
next
  fix s n
  assume "kv_ok s" "node_id_ok PL n"
  then show "\<exists>xs. p_get_node_channels (kv_json_persister PL) n s = Ok xs \<and> distinct (map fst xs) \<and> map_of xs = kv_look s n"
    using kv_listing by (simp add: kv_json_persister_def kv_ok_def node_id_ok_def)
next
  fix s n al
  assume "kv_ok s"
  then show "\<exists>s'. p_update_node_allowlist (kv_json_persister PL) n al s = Ok s' \<and> kv_ok s' \<and> kv_ids s' = kv_ids s \<and> kv_trk PL s' n = kv_trk PL s n \<and>
      kv_look s' n = kv_look s n \<and> p_get_node_allowlist (kv_json_persister PL) n s' = Ok al"
    by (simp add: kv_json_persister_def kv_update_node_allowlist_def kv_get_node_allowlist_def kv_ok_def amap_simps get_or_def)
next
  fix s n and st :: node_state
  assume "kv_ok s"
  then show "\<exists>s'. p_update_node (kv_json_persister PL) n st s = Ok s' \<and> kv_ok s' \<and> kv_ids s' = kv_ids s \<and> kv_trk PL s' n = kv_trk PL s n \<and>
      kv_look s' n = kv_look s n"
    by (simp add: kv_json_persister_def kv_update_node_def kv_ok_def)
next
  fix s s' n style net and st :: node_state
  assume "kv_ok s" "p_new_node (kv_json_persister PL) n style net st s = Ok s'"
  then show "kv_ok s' \<and> kv_trk PL s' n = kv_trk PL s n \<and> kv_look s' n = kv_look s n \<and> (kv_ids s = [] \<longrightarrow> kv_ids s' = [n])"
    by (auto simp: kv_json_persister_def kv_new_node_def kv_ok_def kv_ids_def outcome_simps sort_key_Nil_iff)
next
  fix s s' n and t :: node_tracker
  assume "kv_ok s" "node_id_ok PL n" "p_new_tracker (kv_json_persister PL) n t s = Ok s'"
  then show "kv_ok s' \<and> kv_ids s' = kv_ids s \<and> kv_trk PL s' n = Some (t\<lparr>tr_decode_state := None\<rparr>) \<and> kv_look s' n = kv_look s n"
    by (auto simp: kv_json_persister_def kv_new_chain_tracker_def kv_ok_def node_id_ok_def kv_trk_def amap_simps
        into_tracker_entry outcome_simps)
next
  fix s n L xs
  assume "node_id_ok PL n" "p_get_nodes (kv_json_persister PL) L s = Ok xs"
  then show "map fst xs = kv_ids s"
    by (auto simp: kv_json_persister_def kv_get_nodes_def kv_ids_def node_id_ok_def persist_lib_ok_def unwrap_def
        outcome_simps split: option.splits dest!: foldo_firsts [rotated])
qed

end
