(* ===== verification/Allowlist.thy ===== *)
theory Allowlist
  imports Keys_Manager Op_Monad
begin

text \<open>
  The destinations a node trusts (\<^verbatim>\<open>vls-core/src/node.rs\<close>): \<^verbatim>\<open>Allowable\<close> with its text form, the
  wallet keys, and \<^verbatim>\<open>impl Wallet for Node\<close>.  Addresses, extended public keys and their text forms are
  code of other crates (\<open>addr_lib\<close>).  The main lemma says that every entry that was read from a
  string is written so that it is read back.
\<close>

section \<open>Entries\<close>

record ext_pub_key =
  xp_network :: network
  xp_key :: bytes

datatype allowable = AllowScript script | AllowXPub ext_pub_key | AllowPayee pubkey

text \<open>
  \<open>al_address_from_script\<close> is the text of \<^verbatim>\<open>Address::from_script\<close>, \<open>al_parse_address\<close> gives the network
  and the script of an address.
\<close>

record addr_lib =
  al_address_from_script :: "network \<Rightarrow> script \<Rightarrow> string option"
  al_parse_address :: "string \<Rightarrow> (network \<times> script) option"
  al_pubkey_to_hex :: "pubkey \<Rightarrow> string"
  al_parse_pubkey :: "string \<Rightarrow> pubkey option"
  al_xpub_to_string :: "ext_pub_key \<Rightarrow> string"
  al_parse_xpub :: "string \<Rightarrow> ext_pub_key option"
  al_script_to_hex :: "script \<Rightarrow> string"
  al_derive_pub :: "ext_pub_key \<Rightarrow> child_number list \<Rightarrow> pubkey option"
  al_p2wpkh_script :: "pubkey \<Rightarrow> script"
  al_p2shwpkh_script :: "pubkey \<Rightarrow> script"
  al_p2pkh_script :: "pubkey \<Rightarrow> script"
  al_p2wpkh_address :: "network \<Rightarrow> pubkey \<Rightarrow> string"
  al_p2shwpkh_address :: "network \<Rightarrow> pubkey \<Rightarrow> string"

definition allowable_to_string :: "addr_lib \<Rightarrow> network \<Rightarrow> allowable \<Rightarrow> string" where
  "allowable_to_string A network a =
     (case a of
        AllowScript s \<Rightarrow>
          (case al_address_from_script A network s of
             Some addr \<Rightarrow> ''address:'' @ addr
           | None \<Rightarrow> ''invalid_script:'' @ al_script_to_hex A s)
      | AllowPayee p \<Rightarrow> ''payee:'' @ al_pubkey_to_hex A p
      | AllowXPub x \<Rightarrow> ''xpub:'' @ al_xpub_to_string A x)"

text \<open>\<^verbatim>\<open>splitn(2, ":")\<close>: what stands before the first colon, and what stands after it if there is one.\<close>

definition split_colon :: "string \<Rightarrow> string \<times> string option" where
  "split_colon s =
     (let pre = takeWhile (\<lambda>c. c \<noteq> CHR '':'') s
      in (pre, if pre = s then None else Some (drop (length pre + 1) s)))"

definition allowable_address :: "addr_lib \<Rightarrow> network \<Rightarrow> string \<Rightarrow> string \<Rightarrow> (string, allowable) outcome" where
  "allowable_address A network s body =
     bindo (ok_or s (al_parse_address A body)) (\<lambda>(n, scr).
     if n \<noteq> network then Err (s @ '': expected network {}'') else Ok (AllowScript scr))"

definition allowable_from_str :: "addr_lib \<Rightarrow> network \<Rightarrow> string \<Rightarrow> (string, allowable) outcome" where
  "allowable_from_str A network s =
     (case split_colon s of
        (pre, Some body) \<Rightarrow>
          if pre = ''address'' then allowable_address A network s body
          else if pre = ''payee'' then bindo (ok_or s (al_parse_pubkey A body)) (\<lambda>p. Ok (AllowPayee p))
          else if pre = ''xpub'' then
            bindo (ok_or s (al_parse_xpub A body)) (\<lambda>x.
            if xp_network x \<noteq> network then Err (s @ '': expected network {}'') else Ok (AllowXPub x))
          else Err s
      | (pre, None) \<Rightarrow> allowable_address A network s pre)"

definition allowable_to_script :: "allowable \<Rightarrow> (unit, script) outcome" where
  "allowable_to_script a = (case a of AllowScript s \<Rightarrow> Ok s | _ \<Rightarrow> Err ())"

section \<open>The wallet\<close>

definition get_wallet_privkey :: "key_lib \<Rightarrow> keys_manager \<Rightarrow> u32 list \<Rightarrow> (status, secret) outcome" where
  "get_wallet_privkey K km child_path =
     (if length child_path \<noteq> get_key_path_len (km_style km)
      then Err (invalid_argument ''get_wallet_key: bad child_path len : {}'')
      else
        bindo (foldo (\<lambda>elem xkey.
                 bindo (unwrap (kl_from_normal_idx K elem)) (\<lambda>c.
                 ok_or (internal_error ''derive child_path failed: {}'') (kl_ckd_priv K xkey c)))
               child_path (km_account_extended_key km)) (\<lambda>xkey.
        Ok (xk_private_key xkey)))"

definition get_wallet_pubkey :: "key_lib \<Rightarrow> keys_manager \<Rightarrow> u32 list \<Rightarrow> (status, pubkey) outcome" where
  "get_wallet_pubkey K km child_path =
     bindo (get_wallet_privkey K km child_path) (\<lambda>s. Ok (kl_public_key K s))"

definition check_wallet_pubkey :: "key_lib \<Rightarrow> keys_manager \<Rightarrow> u32 list \<Rightarrow> pubkey \<Rightarrow> (status, bool) outcome" where
  "check_wallet_pubkey K km child_path p =
     bindo (get_wallet_pubkey K km child_path) (\<lambda>q. Ok (q = p))"

definition node_can_spend :: "key_lib \<Rightarrow> addr_lib \<Rightarrow> keys_manager \<Rightarrow> u32 list \<Rightarrow> script \<Rightarrow> (status, bool) outcome" where
  "node_can_spend K A km child_path scr =
     (if child_path = [] then Ok False
      else
        bindo (get_wallet_pubkey K km child_path) (\<lambda>p.
        Ok (scr = al_p2wpkh_script A p \<or> scr = al_p2shwpkh_script A p)))"

definition get_native_address :: "key_lib \<Rightarrow> addr_lib \<Rightarrow> keys_manager \<Rightarrow> u32 list \<Rightarrow> (status, string) outcome" where
  "get_native_address K A km child_path =
     (if child_path = [] then Err (invalid_argument ''empty child path'')
      else bindo (get_wallet_pubkey K km child_path) (\<lambda>p. Ok (al_p2wpkh_address A (km_network km) p)))"

definition get_wrapped_address :: "key_lib \<Rightarrow> addr_lib \<Rightarrow> keys_manager \<Rightarrow> u32 list \<Rightarrow> (status, string) outcome" where
  "get_wrapped_address K A km child_path =
     (if child_path = [] then Err (invalid_argument ''empty child path'')
      else bindo (get_wallet_pubkey K km child_path) (\<lambda>p. Ok (al_p2shwpkh_address A (km_network km) p)))"

definition node_allowlist_contains_payee :: "allowable list \<Rightarrow> pubkey \<Rightarrow> bool" where
  "node_allowlist_contains_payee al p \<longleftrightarrow> AllowPayee p \<in> set al"

text \<open>
  \<^verbatim>\<open>allowlist_contains\<close>.  A path element that is no normal child number, or a derivation that fails,
  panics; the trait returns a plain boolean, so the panic is a value of the model only.
\<close>

definition xpub_matches :: "addr_lib \<Rightarrow> script \<Rightarrow> child_number list \<Rightarrow> ext_pub_key \<Rightarrow> ('e, bool) outcome" where
  "xpub_matches A scr child_path xp =
     bindo (unwrap (al_derive_pub A xp child_path)) (\<lambda>p.
     Ok (scr = al_p2wpkh_script A p \<or> scr = al_p2pkh_script A p))"

definition node_allowlist_contains ::
    "key_lib \<Rightarrow> addr_lib \<Rightarrow> allowable list \<Rightarrow> script \<Rightarrow> u32 list \<Rightarrow> ('e, bool) outcome" where
  "node_allowlist_contains K A al scr path =
     (if AllowScript scr \<in> set al then Ok True
      else if path = [] then Ok False
      else
        bindo (foldo (\<lambda>i cs. bindo (unwrap (kl_from_normal_idx K i)) (\<lambda>c. Ok (cs @ [c]))) path []) (\<lambda>child_path.
        foldo (\<lambda>a found. if found then Ok True
                         else case a of AllowXPub xp \<Rightarrow> xpub_matches A scr child_path xp | _ \<Rightarrow> Ok False)
          al False))"

text \<open>The wallet that the validators consult.\<close>

definition wallet_of :: "key_lib \<Rightarrow> addr_lib \<Rightarrow> keys_manager \<Rightarrow> allowable list \<Rightarrow> node_wallet" where
  "wallet_of K A km al =
     \<lparr>can_spend = node_can_spend K A km, allowlist_contains_payee = node_allowlist_contains_payee al,
      allowlist_contains = (\<lambda>scr path. (node_allowlist_contains K A al scr path :: (unit, bool) outcome) = Ok True)\<rparr>"

section \<open>Reading back what was written\<close>

text \<open>
  What the code relies on, for the network of the node: the text of an address, a public key or an
  extended key parses to the same value, and a script that came from an address has an address.
\<close>

definition addr_lib_ok :: "addr_lib \<Rightarrow> network \<Rightarrow> bool" where
  "addr_lib_ok A n \<longleftrightarrow>
     (\<forall>scr addr. al_address_from_script A n scr = Some addr \<longrightarrow> al_parse_address A addr = Some (n, scr)) \<and>
     (\<forall>body scr. al_parse_address A body = Some (n, scr) \<longrightarrow> al_address_from_script A n scr \<noteq> None) \<and>
     (\<forall>p. al_parse_pubkey A (al_pubkey_to_hex A p) = Some p) \<and>
     (\<forall>x. al_parse_xpub A (al_xpub_to_string A x) = Some x)"

text \<open>Entries that can be written and read back.\<close>

definition readable :: "addr_lib \<Rightarrow> network \<Rightarrow> allowable \<Rightarrow> bool" where
  "readable A n a \<longleftrightarrow> allowable_from_str A n (allowable_to_string A n a) = Ok a"

lemma split_colon_prefix:
  assumes "\<forall>c \<in> set pre. c \<noteq> CHR '':''"
  shows "split_colon (pre @ CHR '':'' # body) = (pre, Some body)"
proof -
  have "takeWhile (\<lambda>c. c \<noteq> CHR '':'') (pre @ CHR '':'' # body) = pre" using assms by (simp add: takeWhile_append)
  then show ?thesis by (simp add: split_colon_def Let_def)
qed

lemmas split_literals =
  split_colon_prefix [of "''address''", simplified] split_colon_prefix [of "''payee''", simplified]
  split_colon_prefix [of "''xpub''", simplified]

lemma from_str_script:
  assumes "allowable_from_str A n s = Ok (AllowScript scr)"
  shows "\<exists>body. al_parse_address A body = Some (n, scr)"
  using assms
  by (auto simp: allowable_from_str_def allowable_address_def outcome_simps ok_or_def
      split: prod.splits option.splits if_splits)

lemma from_str_xpub: "allowable_from_str A n s = Ok (AllowXPub x) \<Longrightarrow> xp_network x = n"
  by (auto simp: allowable_from_str_def allowable_address_def outcome_simps ok_or_def
      split: prod.splits option.splits if_splits)

lemma allowable_roundtrip:
  assumes "addr_lib_ok A n" and "allowable_from_str A n s = Ok a"
  shows "readable A n a"
proof (cases a)
  case (AllowScript scr)
  with assms obtain addr where "al_address_from_script A n scr = Some addr" "al_parse_address A addr = Some (n, scr)"
    using from_str_script [of A n s scr] by (fastforce simp: addr_lib_ok_def)
  then show ?thesis
    by (simp add: readable_def AllowScript allowable_to_string_def allowable_from_str_def split_literals
        allowable_address_def ok_or_def)
next
  case (AllowXPub x)
  with assms from_str_xpub [of A n s x] show ?thesis
    by (simp add: readable_def allowable_to_string_def allowable_from_str_def split_literals ok_or_def addr_lib_ok_def)
next
  case (AllowPayee p)
  with assms(1) show ?thesis
    by (simp add: readable_def allowable_to_string_def allowable_from_str_def split_literals ok_or_def addr_lib_ok_def)
qed

end
