(* ===== verification/Node_Channels.thy ===== *)
theory Node_Channels
  imports Channel Tracker Node_Payments Persister Allowlist
begin

text \<open>
  The \<^verbatim>\<open>Node\<close> of \<^verbatim>\<open>vls-core/src/node.rs\<close>: its channels, the chain tracker with their monitors, the
  allowlist, on-chain signing, the heartbeat, and restoring everything from the persister.  A
  channel is reached through up to two ids that share one slot, and a monitor is shared between its
  channel and the tracker, so slots and monitors live in stores and are named by addresses.
\<close>

section \<open>State\<close>

record node_config =
  nc_network :: network
  nc_style :: key_derivation_style
  nc_use_checkpoints :: bool

record slot_entry =
  se_slot :: channel_slot
  se_monitor :: nat

record 's node =
  nd_config :: node_config
  nd_keys :: keys_manager
  nd_channels :: "(channel_id, nat) amap"
  nd_slots :: "(nat, slot_entry) amap"
  nd_monitors :: "(nat, monitor_state) amap"
  nd_next :: nat
  nd_allowlist :: "allowable list"
  nd_tracker :: "(outpoint, nat) chain_tracker"
  nd_state :: node_state
  nd_id :: pubkey
  nd_store :: 's

record heartbeat =
  hb_chain_tip :: bytes
  hb_chain_height :: u32
  hb_chain_timestamp :: u32
  hb_current_timestamp :: u32

record signed_heartbeat =
  shb_signature :: signature
  shb_heartbeat :: heartbeat

text \<open>
  The services a node is made with.  \<open>sv_encode_heartbeat\<close> is the encoding of \<^verbatim>\<open>serde_bolt\<close>,
  \<open>sv_checkpoint\<close> the latest checkpoint of \<^verbatim>\<open>txoo\<close>.
\<close>

record 's services =
  sv_lib :: lib
  sv_keys :: key_lib
  sv_addr :: addr_lib
  sv_chain :: chain_lib
  sv_persist :: "'s persist"
  sv_persist_lib :: persist_lib
  sv_policy :: simple_policy
  sv_validator :: validator
  sv_encode_heartbeat :: "heartbeat \<Rightarrow> bytes"
  sv_genesis :: "network \<Rightarrow> block_header \<times> bytes"
  sv_checkpoint :: "network \<Rightarrow> (u32 \<times> bytes \<times> bytes \<times> block_header) option"

definition CHANNEL_STUB_PRUNE_BLOCKS :: u32 where
  "CHANNEL_STUB_PRUNE_BLOCKS = 6"

text \<open>The wallet of the node, as validators see it.\<close>

definition nd_wallet :: "'s services \<Rightarrow> 's node \<Rightarrow> node_wallet" where
  "nd_wallet S nd = wallet_of (sv_keys S) (sv_addr S) (nd_keys nd) (nd_allowlist nd)"

text \<open>The tracker with the states of its monitors, as it is persisted.\<close>

definition monitor_at :: "'s node \<Rightarrow> nat \<Rightarrow> monitor_state" where
  "monitor_at nd a = get_or (monitor_new 0) (nd_monitors nd) a"

definition deref_tracker :: "'s node \<Rightarrow> node_tracker" where
  "deref_tracker nd =
     (let t = nd_tracker nd in
      \<lparr>tr_headers = tr_headers t, tr_tip = tr_tip t, tr_height = tr_height t, tr_network = tr_network t,
       tr_listeners = map (\<lambda>(k, a, slot). (k, monitor_at nd a, slot)) (tr_listeners t),
       tr_decode_state = tr_decode_state t\<rparr>)"

text \<open>Calls of the persister: \<^verbatim>\<open>expect\<close> turns an error into a panic, \<^verbatim>\<open>map_err\<close> into a status.\<close>

definition persist_expect :: "('s node \<Rightarrow> 's \<Rightarrow> (persist_error, 's) outcome) \<Rightarrow> ('s node, unit) op" where
  "persist_expect f = updateS (\<lambda>nd.
     case f nd (nd_store nd) of Ok s' \<Rightarrow> Ok (nd\<lparr>nd_store := s'\<rparr>) | Err _ \<Rightarrow> Panic | Panic \<Rightarrow> Panic)"

definition persist_or :: "string \<Rightarrow> ('s node \<Rightarrow> 's \<Rightarrow> (persist_error, 's) outcome) \<Rightarrow> ('s node, unit) op" where
  "persist_or msg f = updateS (\<lambda>nd.
     case f nd (nd_store nd) of
       Ok s' \<Rightarrow> Ok (nd\<lparr>nd_store := s'\<rparr>) | Err _ \<Rightarrow> Err (internal_error msg) | Panic \<Rightarrow> Panic)"

section \<open>Finding channels\<close>

definition slot_at :: "'s node \<Rightarrow> nat \<Rightarrow> slot_entry option" where
  "slot_at nd a = map_of (nd_slots nd) a"

definition slot_of :: "'s node \<Rightarrow> channel_id \<Rightarrow> channel_slot option" where
  "slot_of nd cid =
     (case map_of (nd_channels nd) cid of
        None \<Rightarrow> None
      | Some a \<Rightarrow> map_option se_slot (slot_at nd a))"

definition get_channel :: "channel_id \<Rightarrow> ('s node, nat) op" where
  "get_channel cid = readS (\<lambda>nd. ok_or (invalid_argument ''no such channel: {}'') (map_of (nd_channels nd) cid))"

definition with_channel_base :: "channel_id \<Rightarrow> (channel_slot \<Rightarrow> (status, 'a) outcome) \<Rightarrow> ('s node, 'a) op" where
  "with_channel_base cid f =
     bindS (get_channel cid) (\<lambda>a.
     readS (\<lambda>nd. bindo (unwrap (slot_at nd a)) (\<lambda>e. f (se_slot e))))"

definition put_slot :: "nat \<Rightarrow> channel_slot \<Rightarrow> 's node \<Rightarrow> 's node" where
  "put_slot a slot nd =
     (case slot_at nd a of
        None \<Rightarrow> nd
      | Some e \<Rightarrow> nd\<lparr>nd_slots := AList.update a (e\<lparr>se_slot := slot\<rparr>) (nd_slots nd)\<rparr>)"

text \<open>
  \<^verbatim>\<open>with_ready_channel\<close>: the handler sees the channel and, through the node, the node state; the chain
  state it sees is that of the monitor of the channel.
\<close>

definition with_ready_channel ::
    "channel_id \<Rightarrow> (chain_state \<Rightarrow> (chan_world, 'a) op) \<Rightarrow> ('s node, 'a) op" where
  "with_ready_channel cid f =
     bindS (get_channel cid) (\<lambda>a nd.
     case slot_at nd a of
       None \<Rightarrow> (Panic, nd)
     | Some e \<Rightarrow>
         (case se_slot e of
            Stub _ \<Rightarrow> (Err (invalid_argument ''channel not ready: {}''), nd)
          | Ready chan \<Rightarrow>
              (let (r, w) = f (as_chain_state (monitor_at nd (se_monitor e))) \<lparr>w_chan = chan, w_state = nd_state nd\<rparr>
               in (r, put_slot a (Ready (w_chan w)) (nd\<lparr>nd_state := w_state w\<rparr>)))))"

text \<open>The channels in the order of their ids.\<close>

definition channels_in_order :: "'s node \<Rightarrow> (channel_id \<times> nat) list" where
  "channels_in_order nd = sort_key fst (nd_channels nd)"

definition has_funding_outpoint :: "'s node \<Rightarrow> outpoint \<Rightarrow> nat \<Rightarrow> bool" where
  "has_funding_outpoint nd outpoint a =
     (case slot_at nd a of
        Some e \<Rightarrow> (case se_slot e of Ready c \<Rightarrow> funding_outpoint (chan_setup c) = outpoint | Stub _ \<Rightarrow> False)
      | None \<Rightarrow> False)"

definition find_channel_with_funding_outpoint :: "'s node \<Rightarrow> outpoint \<Rightarrow> nat option" where
  "find_channel_with_funding_outpoint nd outpoint =
     map_option snd (List.find (\<lambda>(_, a). has_funding_outpoint nd outpoint a) (channels_in_order nd))"

section \<open>Opening channels\<close>

text \<open>A call of the keys manager that moves one of its counters.\<close>

definition keysS :: "(keys_manager \<Rightarrow> (status, 'a \<times> keys_manager) outcome) \<Rightarrow> ('s node, 'a) op" where
  "keysS f = (\<lambda>nd. case f (nd_keys nd) of
     Ok (a, km) \<Rightarrow> (Ok a, nd\<lparr>nd_keys := km\<rparr>) | Err e \<Rightarrow> (Err e, nd) | Panic \<Rightarrow> (Panic, nd))"

definition insert_slot :: "channel_id list \<Rightarrow> channel_slot \<Rightarrow> nat \<Rightarrow> 's node \<Rightarrow> 's node" where
  "insert_slot ids slot mon nd =
     nd\<lparr>nd_channels := foldl (\<lambda>m i. AList.update i (nd_next nd) m) (nd_channels nd) ids,
        nd_slots := AList.update (nd_next nd) \<lparr>se_slot = slot, se_monitor = mon\<rparr> (nd_slots nd),
        nd_next := nd_next nd + 1\<rparr>"

definition new_channel :: "'s services \<Rightarrow> channel_id option \<Rightarrow> ('s node, channel_id \<times> channel_slot option) op" where
  "new_channel S opt_channel_id =
     bindS (case opt_channel_id of
              Some cid \<Rightarrow> returnS cid
            | None \<Rightarrow> keysS (Keys_Manager.get_channel_id (sv_keys S))) (\<lambda>cid.
     bindS (readS (\<lambda>nd. if length (nd_channels nd) \<ge> max_channels (sv_policy S)
              then Err (failed_precondition ''too many channels ({} >= {})'') else Ok ())) (\<lambda>_.
     bindS (getS (\<lambda>nd. slot_of nd cid)) (\<lambda>existing.
     case existing of
       Some slot \<Rightarrow> returnS (cid, Some slot)
     | None \<Rightarrow>
         bindS (keysS (get_channel_keys_with_id (sv_keys S) cid 0)) (\<lambda>keys.
         bindS (getS (\<lambda>nd. tr_height (nd_tracker nd))) (\<lambda>height.
         let stub = \<lparr>stub_keys = keys, stub_id0 = cid, stub_blockheight = height\<rparr> in
         bindS (modifyS (insert_slot [cid] (Stub stub) 0)) (\<lambda>_.
         bindS (persist_expect (\<lambda>nd. p_new_channel (sv_persist S) (nd_id nd) stub)) (\<lambda>_.
         returnS (cid, Some (Stub stub)))))))))"

definition channel_keys_with_channel_value :: "key_lib \<Rightarrow> channel_stub \<Rightarrow> u64 \<Rightarrow> signer_keys" where
  "channel_keys_with_channel_value K stub channel_value =
     (let keys = stub_keys stub in
      kl_signer_new K
        \<lparr>cs_funding_key = funding_key keys, cs_revocation_base_key = revocation_base_key keys,
         cs_htlc_base_key = htlc_base_key keys, cs_payment_key = payment_key keys,
         cs_delayed_payment_base_key = delayed_payment_base_key keys, cs_commitment_seed = commitment_seed keys\<rparr>
        channel_value (kl_channel_keys_id K keys) (kl_signer_random K keys))"

definition channel_setup_to_channel_transaction_parameters ::
    "channel_setup \<Rightarrow> channel_public_keys \<Rightarrow> channel_parameters" where
  "channel_setup_to_channel_transaction_parameters su pubs =
     \<lparr>cp_holder_pubkeys = pubs,
      cp_holder_selected_contest_delay = holder_selected_contest_delay su,
      cp_is_outbound_from_holder = is_outbound su,
      cp_counterparty_pubkeys = counterparty_points su,
      cp_counterparty_selected_contest_delay = counterparty_selected_contest_delay su,
      cp_funding_txid = op_txid (funding_outpoint su),
      cp_funding_index = ucast (op_vout (funding_outpoint su)),
      cp_opt_anchors = is_anchors su,
      cp_opt_non_zero_fee_anchors = is_zero_fee_htlc su\<rparr>"

text \<open>The channel that \<^verbatim>\<open>ready_channel\<close> makes from a stub.\<close>

definition promote_stub ::
    "'s services \<Rightarrow> channel_stub \<Rightarrow> channel_id \<Rightarrow> channel_id option \<Rightarrow> channel_setup \<Rightarrow> (status, channel) outcome" where
  "promote_stub S stub id0 opt_channel_id su =
     (let K = sv_keys S;
          keys = channel_keys_with_channel_value K stub (channel_value_sat su);
          params = channel_setup_to_channel_transaction_parameters su (holder_pubkeys keys) in
      bindo (if is_outbound su
             then ok_or (policy_status ''beneficial channel value underflow: {} - {}'')
                    (checked_sub (channel_value_sat su * 1000) (push_value_msat su))
             else Ok (push_value_msat su)) (\<lambda>to_holder_msat.
      Ok \<lparr>chan_keys = kl_provide_parameters K params keys,
          enforcement_state = enforcement_state_new (v_minimum_initial_balance (sv_validator S) to_holder_msat),
          chan_setup = su, chan_id0 = id0, chan_id = opt_channel_id\<rparr>))"

definition ready_ids :: "channel_id \<Rightarrow> channel_id option \<Rightarrow> channel_id list" where
  "ready_ids id0 opt_channel_id =
     (let chan_id = (case opt_channel_id of None \<Rightarrow> id0 | Some i \<Rightarrow> i)
      in chan_id # (if id0 \<noteq> chan_id then [id0] else []))"

text \<open>A new monitor gets the address of the slot that it belongs to.\<close>

definition add_ready :: "channel \<Rightarrow> monitor_state \<Rightarrow> 's node \<Rightarrow> 's node" where
  "add_ready chan monitor nd =
     (let outpoint = funding_outpoint (chan_setup chan) in
      insert_slot (ready_ids (chan_id0 chan) (chan_id chan)) (Ready chan) (nd_next nd)
        (nd\<lparr>nd_monitors := AList.update (nd_next nd) monitor (nd_monitors nd),
            nd_tracker := add_listener outpoint (nd_next nd) {op_txid outpoint} (nd_tracker nd)\<rparr>))"

definition persist_tracker :: "'s services \<Rightarrow> ('s node, unit) op" where
  "persist_tracker S = persist_or ''tracker persist failed''
     (\<lambda>nd. p_update_tracker (sv_persist S) (nd_id nd) (deref_tracker nd))"

definition ready_channel ::
    "'s services \<Rightarrow> channel_id \<Rightarrow> channel_id option \<Rightarrow> channel_setup \<Rightarrow> u32 list \<Rightarrow> ('s node, channel) op" where
  "ready_channel S id0 opt_channel_id su holder_shutdown_key_path =
     bindS (readS (\<lambda>nd. ok_or (invalid_argument ''channel does not exist: {}'') (map_of (nd_channels nd) id0))) (\<lambda>a.
     bindS (readS (\<lambda>nd. unwrap (slot_at nd a))) (\<lambda>e.
     case se_slot e of
       Ready c \<Rightarrow>
         liftS (if chan_setup c \<noteq> su
                then Err (invalid_argument ''channel already ready with different setup: {}'') else Ok c)
     | Stub stub \<Rightarrow>
         bindS (readS (\<lambda>nd. add_funding_outpoint (funding_outpoint su) (monitor_new (tr_height (nd_tracker nd))))) (\<lambda>monitor.
         bindS (liftS (promote_stub S stub id0 opt_channel_id su)) (\<lambda>chan.
         bindS (readS (\<lambda>nd. into_status (v_validate_ready_channel (sv_validator S) (nd_wallet S nd) su
                  holder_shutdown_key_path))) (\<lambda>_.
         bindS (modifyS (add_ready chan monitor)) (\<lambda>_.
         bindS (persist_tracker S) (\<lambda>_.
         bindS (persist_or ''persist failed'' (\<lambda>nd. p_update_channel (sv_persist S) (nd_id nd) chan)) (\<lambda>_.
         returnS chan))))))))"

section \<open>Heartbeat and pruning\<close>

definition saturating_sub :: "u32 \<Rightarrow> u32 \<Rightarrow> u32" where
  "saturating_sub a b = (if b \<le> a then a - b else 0)"

definition stub_expired :: "u32 \<Rightarrow> 's node \<Rightarrow> nat \<Rightarrow> bool" where
  "stub_expired current_blockheight nd a =
     (case slot_at nd a of
        Some e \<Rightarrow>
          (case se_slot e of
             Ready _ \<Rightarrow> False
           | Stub stub \<Rightarrow> saturating_sub current_blockheight (stub_blockheight stub) > CHANNEL_STUB_PRUNE_BLOCKS)
      | None \<Rightarrow> False)"

definition prune_channels :: "'s services \<Rightarrow> u32 \<Rightarrow> ('s node, unit) op" where
  "prune_channels S current_blockheight =
     bindS (getS (\<lambda>nd. map fst (filter (\<lambda>(_, a). stub_expired current_blockheight nd a) (channels_in_order nd)))) (\<lambda>ids.
     foldr (\<lambda>cid m.
         bindS (modifyS (\<lambda>nd. nd\<lparr>nd_channels := AList.delete cid (nd_channels nd)\<rparr>)) (\<lambda>_.
         bindS (persist_expect (\<lambda>nd. p_delete_channel (sv_persist S) (nd_id nd) cid)) (\<lambda>_. m)))
       ids (returnS ()))"

text \<open>The clock is read twice: \<open>now\<close> for pruning, \<open>now2\<close> for the timestamp.\<close>

definition stateS :: "(node_state, 'a) op \<Rightarrow> ('s node, 'a) op" where
  "stateS f = (\<lambda>nd. let (r, st) = f (nd_state nd) in (r, nd\<lparr>nd_state := st\<rparr>))"

definition get_heartbeat :: "'s services \<Rightarrow> bool \<Rightarrow> duration \<Rightarrow> duration \<Rightarrow> ('s node, signed_heartbeat) op" where
  "get_heartbeat S timeless now now2 =
     bindS (stateS (heartbeat_prune timeless now)) (\<lambda>_.
     bindS (getS (\<lambda>nd. tr_height (nd_tracker nd))) (\<lambda>height.
     bindS (prune_channels S height) (\<lambda>_.
     getS (\<lambda>nd.
       let tip = tr_tip (nd_tracker nd);
           hb = \<lparr>hb_chain_tip = ck_block_hash (sv_chain S) (hd_header tip), hb_chain_height = tr_height (nd_tracker nd),
                 hb_chain_timestamp = bh_time (hd_header tip), hb_current_timestamp = ucast (as_secs now2)\<rparr>
       in \<lparr>shb_signature = sign_heartbeat (sv_keys S) (nd_keys nd) (sv_encode_heartbeat S hb),
           shb_heartbeat = hb\<rparr>))))"

definition node_channel_balance :: "'s node \<Rightarrow> ('e, channel_balance) outcome" where
  "node_channel_balance nd =
     foldo (\<lambda>(_, a) sum.
         case slot_at nd a of
           Some e \<Rightarrow>
             (case se_slot e of
                Ready chan \<Rightarrow> bindo (balance chan (nd_state nd)) (\<lambda>b. Ok (accumulate sum b))
              | Stub _ \<Rightarrow> Ok sum)
         | None \<Rightarrow> Ok sum)
       (channels_in_order nd) channel_balance_zero"

section \<open>The allowlist\<close>

definition parse_allowables :: "'s services \<Rightarrow> string list \<Rightarrow> ('s node, allowable list) op" where
  "parse_allowables S strs = readS (\<lambda>nd.
     foldo (\<lambda>s acc.
         bindo (map_err (\<lambda>_. invalid_argument ''could not parse {}'')
                  (allowable_from_str (sv_addr S) (nc_network (nd_config nd)) s)) (\<lambda>a. Ok (acc @ [a])))
       strs [])"

definition update_allowlist :: "'s services \<Rightarrow> ('s node, unit) op" where
  "update_allowlist S = persist_or ''persist failed'' (\<lambda>nd.
     p_update_node_allowlist (sv_persist S) (nd_id nd)
       (map (allowable_to_string (sv_addr S) (nc_network (nd_config nd))) (nd_allowlist nd)))"

definition allowlist :: "'s services \<Rightarrow> ('s node, string list) op" where
  "allowlist S = getS (\<lambda>nd. map (allowable_to_string (sv_addr S) (nc_network (nd_config nd))) (nd_allowlist nd))"

definition add_allowlist :: "'s services \<Rightarrow> string list \<Rightarrow> ('s node, unit) op" where
  "add_allowlist S addlist =
     bindS (parse_allowables S addlist) (\<lambda>allowables.
     bindS (modifyS (\<lambda>nd. nd\<lparr>nd_allowlist := foldl (\<lambda>al a. List.insert a al) (nd_allowlist nd) allowables\<rparr>)) (\<lambda>_.
     update_allowlist S))"

definition set_allowlist :: "'s services \<Rightarrow> string list \<Rightarrow> ('s node, unit) op" where
  "set_allowlist S strs =
     bindS (parse_allowables S strs) (\<lambda>allowables.
     bindS (modifyS (\<lambda>nd. nd\<lparr>nd_allowlist := foldl (\<lambda>al a. List.insert a al) [] allowables\<rparr>)) (\<lambda>_.
     update_allowlist S))"

definition remove_allowlist :: "'s services \<Rightarrow> string list \<Rightarrow> ('s node, unit) op" where
  "remove_allowlist S rmlist =
     bindS (parse_allowables S rmlist) (\<lambda>allowables.
     bindS (modifyS (\<lambda>nd. nd\<lparr>nd_allowlist := foldl (\<lambda>al a. removeAll a al) (nd_allowlist nd) allowables\<rparr>)) (\<lambda>_.
     update_allowlist S))"

section \<open>Making and restoring nodes\<close>

text \<open>
  A tracker that comes with its monitors: the monitors move to the store of the node, at addresses
  from 0 on.
\<close>

definition monitors_of :: "node_tracker \<Rightarrow> (nat, monitor_state) amap" where
  "monitors_of t = zip [0..<length (tr_listeners t)] (map (\<lambda>(_, m, _). m) (tr_listeners t))"

definition ref_tracker :: "node_tracker \<Rightarrow> (outpoint, nat) chain_tracker" where
  "ref_tracker t =
     \<lparr>tr_headers = tr_headers t, tr_tip = tr_tip t, tr_height = tr_height t, tr_network = tr_network t,
      tr_listeners = map (\<lambda>(a, k, _, slot). (k, a, slot)) (zip [0..<length (tr_listeners t)] (tr_listeners t)),
      tr_decode_state = tr_decode_state t\<rparr>"

definition make_keys_manager ::
    "'s services \<Rightarrow> node_config \<Rightarrow> bytes \<Rightarrow> u64 \<times> u32 \<Rightarrow> ('e, keys_manager \<times> pubkey) outcome" where
  "make_keys_manager S config seed start =
     bindo (keys_manager_new (sv_keys S) (nc_style config) seed (nc_network config) start) (\<lambda>km.
     bindo (unwrap_ok (get_node_id (sv_keys S) km RecipientNode)) (\<lambda>node_id. Ok (km, node_id)))"

definition new_full ::
    "'s services \<Rightarrow> node_config \<Rightarrow> allowable list \<Rightarrow> node_state \<Rightarrow> keys_manager \<Rightarrow> pubkey \<Rightarrow> node_tracker \<Rightarrow> 's \<Rightarrow>
     ('e, 's node) outcome" where
  "new_full S config al st km node_id t store =
     bindo (velocity_control_new (global_velocity_control (sv_policy S))) (\<lambda>vc.
     bindo (velocity_control_new (fee_velocity_control (sv_policy S))) (\<lambda>fee_vc.
     Ok \<lparr>nd_config = config, nd_keys = km, nd_channels = [], nd_slots = [], nd_monitors = monitors_of t,
         nd_next = length (tr_listeners t), nd_allowlist = remdups al, nd_tracker = ref_tracker t,
         nd_state = with_log_prefix vc fee_vc (take 4 (al_pubkey_to_hex (sv_addr S) node_id)) st,
         nd_id = node_id, nd_store = store\<rparr>))"

definition node_new ::
    "'s services \<Rightarrow> node_config \<Rightarrow> bytes \<Rightarrow> u64 \<times> u32 \<Rightarrow> allowable list \<Rightarrow> 's \<Rightarrow> ('e, 's node) outcome" where
  "node_new S config seed start al store =
     bindo (velocity_control_new (global_velocity_control (sv_policy S))) (\<lambda>vc.
     bindo (velocity_control_new (fee_velocity_control (sv_policy S))) (\<lambda>fee_vc.
     bindo (make_keys_manager S config seed start) (\<lambda>(km, node_id).
     bindo (unwrap_ok (if nc_use_checkpoints config
                       then for_network (sv_chain S) (sv_genesis S) (sv_checkpoint S) (nc_network config)
                       else from_genesis (sv_chain S) (sv_genesis S) (nc_network config))) (\<lambda>t.
     new_full S config al (node_state_new vc fee_vc) km node_id t store))))"

definition new_from_persistence ::
    "'s services \<Rightarrow> node_config \<Rightarrow> bytes \<Rightarrow> u64 \<times> u32 \<Rightarrow> allowable list \<Rightarrow> node_state \<Rightarrow> 's \<Rightarrow> ('e, 's node) outcome" where
  "new_from_persistence S config seed start al st store =
     bindo (make_keys_manager S config seed start) (\<lambda>(km, node_id).
     bindo (unwrap_ok (p_get_tracker (sv_persist S) node_id store)) (\<lambda>t.
     new_full S config al st km node_id t store))"

definition restore_slot ::
    "'s services \<Rightarrow> channel_id \<Rightarrow> channel_entry \<Rightarrow> u32 \<Rightarrow> signer_keys \<Rightarrow> 's node \<Rightarrow> (status, channel_slot \<times> nat) outcome" where
  "restore_slot S id0 e blockheight keys nd =
     (case ce_channel_setup e of
        None \<Rightarrow> Ok (Stub \<lparr>stub_keys = keys, stub_id0 = id0, stub_blockheight = blockheight\<rparr>, 0)
      | Some su \<Rightarrow>
          (let params = channel_setup_to_channel_transaction_parameters su (holder_pubkeys keys);
               keys' = kl_provide_parameters (sv_keys S) params keys in
           bindo (unwrap (map_of (tr_listeners (nd_tracker nd)) (funding_outpoint su))) (\<lambda>(monitor, _).
           Ok (Ready \<lparr>chan_keys = keys', enforcement_state = ce_enforcement_state e, chan_setup = su,
                      chan_id0 = id0, chan_id = ce_id e\<rparr>, monitor))))"

definition restore_channel ::
    "'s services \<Rightarrow> channel_id \<Rightarrow> channel_entry \<Rightarrow> u32 \<Rightarrow> ('s node, channel_slot) op" where
  "restore_channel S id0 e blockheight =
     bindS (readS (\<lambda>nd. asserts (map_of (nd_channels nd) id0 = None))) (\<lambda>_.
     bindS (keysS (get_channel_keys_with_id (sv_keys S) id0 (ce_channel_value_satoshis e))) (\<lambda>keys.
     bindS (readS (restore_slot S id0 e blockheight keys)) (\<lambda>(slot, monitor).
     bindS (modifyS (insert_slot (id0 # (case ce_id e of None \<Rightarrow> [] | Some i \<Rightarrow> [i])) slot monitor)) (\<lambda>_.
     bindS (modifyS (\<lambda>nd. nd\<lparr>nd_keys := snd (increment_channel_id_child_index (nd_keys nd))\<rparr>)) (\<lambda>_.
     returnS slot)))))"

text \<open>One round of the loop of \<^verbatim>\<open>restore_node\<close> over the persisted channels.\<close>

definition restore_entry :: "'s services \<Rightarrow> u32 \<Rightarrow> channel_id \<times> channel_entry \<Rightarrow> ('s node, unit) op" where
  "restore_entry S blockheight ie =
     bindS (restore_channel S (fst ie) (snd ie)
              (case ce_blockheight (snd ie) of None \<Rightarrow> blockheight | Some h \<Rightarrow> h)) (\<lambda>slot.
     case slot of
       Stub _ \<Rightarrow> returnS ()
     | Ready chan \<Rightarrow> modifyS (\<lambda>nd. nd\<lparr>nd_state := restore_payments chan (nd_state nd)\<rparr>))"

definition seqS :: "('s, unit) op list \<Rightarrow> ('s, unit) op" where
  "seqS ms = foldr (\<lambda>m rest. bindS m (\<lambda>_. rest)) ms (returnS ())"

definition fast_forward :: "'s services \<Rightarrow> 's node \<Rightarrow> 's node" where
  "fast_forward S nd =
     (case sv_checkpoint S (nc_network (nd_config nd)) of
        None \<Rightarrow> nd
      | Some (height, _, filter_header, header) \<Rightarrow>
          if tr_height (nd_tracker nd) = 0
          then nd\<lparr>nd_tracker := (nd_tracker nd)\<lparr>tr_headers := [], tr_tip := Headers header filter_header, tr_height := height\<rparr>\<rparr>
          else nd)"

text \<open>A channel that is reached through two ids is written twice.\<close>

definition maybe_sync_persister :: "'s services \<Rightarrow> ('s node, unit) op" where
  "maybe_sync_persister S =
     (if p_on_initial_restore (sv_persist S)
      then
        bindS (persist_or ''sync persist failed'' (\<lambda>nd.
          p_new_node (sv_persist S) (nd_id nd) (nc_style (nd_config nd)) (nc_network (nd_config nd)) (nd_state nd))) (\<lambda>_.
        bindS (persist_or ''sync persist failed'' (\<lambda>nd.
          p_update_node_allowlist (sv_persist S) (nd_id nd)
            (map (allowable_to_string (sv_addr S) (nc_network (nd_config nd))) (nd_allowlist nd)))) (\<lambda>_.
        bindS (persist_tracker S) (\<lambda>_.
        bindS (getS channels_in_order) (\<lambda>cs.
        seqS (map (\<lambda>(_, a).
          bindS (readS (\<lambda>nd. unwrap (slot_at nd a))) (\<lambda>e.
          case se_slot e of
            Stub _ \<Rightarrow> returnS ()
          | Ready c \<Rightarrow> persist_or ''sync persist failed'' (\<lambda>nd. p_update_channel (sv_persist S) (nd_id nd) c))) cs)))))
      else returnS ())"

definition restore_node ::
    "'s services \<Rightarrow> pubkey \<Rightarrow> core_node_entry \<Rightarrow> bytes \<Rightarrow> u64 \<times> u32 \<Rightarrow> 's \<Rightarrow> (status, 's node) outcome" where
  "restore_node S node_id entry seed start store =
     bindo (unwrap (pl_network_from_str (sv_persist_lib S) (cne_network entry))) (\<lambda>network.
     bindo (unwrap_ok (style_try_from (cne_key_derivation_style entry))) (\<lambda>style.
     bindo (unwrap_ok (p_get_node_allowlist (sv_persist S) node_id store)) (\<lambda>strs.
     bindo (foldo (\<lambda>str acc. bindo (unwrap_ok (allowable_from_str (sv_addr S) network str)) (\<lambda>a. Ok (acc @ [a])))
              strs []) (\<lambda>al.
     let st = cne_state entry;
         st' = st\<lparr>payments := foldl (\<lambda>pays h. AList.update h routed_payment_new pays) (payments st) (keys_of (invoices st))\<rparr> in
     bindo (new_from_persistence S \<lparr>nc_network = network, nc_style = style, nc_use_checkpoints = True\<rparr> seed start al st' store) (\<lambda>nd0.
     bindo (asserts (nd_id nd0 = node_id)) (\<lambda>_.
     let nd1 = fast_forward S nd0 in
     bindo (unwrap_ok (p_get_node_channels (sv_persist S) node_id store)) (\<lambda>entries.
     case bindS (seqS (map (restore_entry S (tr_height (nd_tracker nd1))) entries)) (\<lambda>_. maybe_sync_persister S) nd1 of
       (Ok _, nd2) \<Rightarrow> Ok nd2
     | (Err e, _) \<Rightarrow> Err e
     | (Panic, _) \<Rightarrow> Panic)))))))"

text \<open>
  \<^verbatim>\<open>restore_nodes\<close>: the persister is shared, so that a node sees what restoring the earlier ones
  wrote; the seeds are kept by hex id.
\<close>

definition restore_nodes ::
    "'s services \<Rightarrow> (string \<rightharpoonup> bytes) \<Rightarrow> u64 \<times> u32 \<Rightarrow> 's \<Rightarrow> (status, (pubkey, 's node) amap \<times> 's) outcome" where
  "restore_nodes S seeds start store =
     bindo (unwrap_ok (p_get_nodes (sv_persist S) (sv_lib S) store)) (\<lambda>entries.
     foldo (\<lambda>(node_id, entry) (nodes, st).
         bindo (unwrap (seeds (al_pubkey_to_hex (sv_addr S) node_id))) (\<lambda>seed.
         bindo (restore_node S node_id entry seed start st) (\<lambda>nd.
         Ok (AList.update node_id nd nodes, nd_store nd))))
       entries ([], store))"

section \<open>On-chain transactions\<close>

datatype spend_type = SpendInvalid | SpendP2pkh | SpendP2wpkh | SpendP2shP2wpkh | SpendP2wsh

definition spend_type_try_from :: "int \<Rightarrow> spend_type option" where
  "spend_type_try_from i =
     (if i = 0 then Some SpendInvalid
      else if i = 1 then Some SpendP2pkh
      else if i = 3 then Some SpendP2wpkh
      else if i = 4 then Some SpendP2shP2wpkh
      else if i = 5 then Some SpendP2wsh
      else None)"

text \<open>A key that takes the place of the wallet key, with the rest of the witness.\<close>

type_synonym uniclose_key = "(secret \<times> bytes list) option"

definition signature_to_bitcoin_vec :: "lib \<Rightarrow> signature \<Rightarrow> bytes" where
  "signature_to_bitcoin_vec L sig = lib_serialize_der L sig @ [1]"

definition funded_channels :: "'s services \<Rightarrow> transaction \<Rightarrow> 's node \<Rightarrow> nat option list" where
  "funded_channels S tx nd =
     map (\<lambda>ndx. find_channel_with_funding_outpoint nd (OutPoint (lib_txid (sv_lib S) tx) (of_nat ndx)))
       [0..<length (tx_outputs tx)]"

definition onchain_sighash ::
    "'s services \<Rightarrow> transaction \<Rightarrow> nat \<Rightarrow> spend_type \<Rightarrow> u64 \<Rightarrow> script \<Rightarrow> bytes list \<Rightarrow> (status, bytes) outcome" where
  "onchain_sighash S tx idx spendtype amount_sat script_code wit =
     (case spendtype of
        SpendP2pkh \<Rightarrow>
          bindo (asserts (0 < length (tx_inputs tx))) (\<lambda>_. Ok (kl_legacy_sighash (sv_keys S) tx 0 script_code))
      | SpendP2wsh \<Rightarrow>
          bindo (asserts (wit \<noteq> [])) (\<lambda>_.
          bindo (asserts (idx < length (tx_inputs tx))) (\<lambda>_.
          Ok (lib_segwit_sighash (sv_lib S) tx idx (last wit) amount_sat SighashAll)))
      | SpendInvalid \<Rightarrow> Err (invalid_argument ''unsupported spend_type={:?}'')
      | _ \<Rightarrow>
          bindo (asserts (idx < length (tx_inputs tx))) (\<lambda>_.
          Ok (lib_segwit_sighash (sv_lib S) tx idx script_code amount_sat SighashAll)))"

definition sign_onchain_input ::
    "'s services \<Rightarrow> keys_manager \<Rightarrow> transaction \<Rightarrow> u32 list list \<Rightarrow> u64 list \<Rightarrow> spend_type list \<Rightarrow> nat \<times> uniclose_key \<Rightarrow>
     (status, bytes list) outcome" where
  "sign_onchain_input S km tx ipaths values_sat spendtypes = (\<lambda>(idx, uck).
     bindo (index spendtypes idx) (\<lambda>spendtype.
     if spendtype = SpendInvalid then Ok []
     else
       bindo (index values_sat idx) (\<lambda>amount_sat.
       bindo (case uck of
                Some (key, stack) \<Rightarrow> Ok (key, stack)
              | None \<Rightarrow>
                  bindo (index ipaths idx) (\<lambda>path.
                  bindo (get_wallet_privkey (sv_keys S) km path) (\<lambda>key.
                  Ok (key, [kl_public_key (sv_keys S) key])))) (\<lambda>(privkey, wit).
       let script_code = kl_p2pkh_script (sv_keys S) (kl_public_key (sv_keys S) privkey) in
       bindo (onchain_sighash S tx idx spendtype amount_sat script_code wit) (\<lambda>sighash.
       let sig = lib_sign_ecdsa (sv_lib S) privkey sighash in
       Ok (signature_to_bitcoin_vec (sv_lib S) sig # wit))))))"

text \<open>\<^verbatim>\<open>Channel::funding_signed\<close> adds the inputs to the monitor, after the tracker watches them.\<close>

definition funding_signed :: "transaction \<Rightarrow> nat \<Rightarrow> 's node \<Rightarrow> 's node" where
  "funding_signed tx monitor nd =
     nd\<lparr>nd_monitors := AList.update monitor (add_funding_inputs tx (monitor_at nd monitor)) (nd_monitors nd)\<rparr>"

definition watch_funding :: "transaction \<Rightarrow> nat option \<Rightarrow> ('s node, unit) op" where
  "watch_funding tx slot_opt =
     (case slot_opt of
        None \<Rightarrow> returnS ()
      | Some a \<Rightarrow> updateS (\<lambda>nd.
          bindo (unwrap (slot_at nd a)) (\<lambda>e.
          case se_slot e of
            Stub _ \<Rightarrow> Panic
          | Ready chan \<Rightarrow>
              bindo (add_listener_watches (funding_outpoint (chan_setup chan))
                       (set (map previous_output (tx_inputs tx))) (nd_tracker nd)) (\<lambda>t.
              Ok (funding_signed tx (se_monitor e) (nd\<lparr>nd_tracker := t\<rparr>))))))"

definition unchecked_sign_onchain_tx ::
    "'s services \<Rightarrow> transaction \<Rightarrow> u32 list list \<Rightarrow> u64 list \<Rightarrow> spend_type list \<Rightarrow> uniclose_key list \<Rightarrow>
     ('s node, bytes list list) op" where
  "unchecked_sign_onchain_tx S tx ipaths values_sat spendtypes uniclosekeys =
     bindS (getS (funded_channels S tx)) (\<lambda>channels.
     bindS (readS (\<lambda>nd.
       foldo (\<lambda>iu witvec.
           bindo (sign_onchain_input S (nd_keys nd) tx ipaths values_sat spendtypes iu) (\<lambda>w. Ok (witvec @ [w])))
         (enumerate 0 uniclosekeys) [])) (\<lambda>witvec.
     bindS (seqS (map (watch_funding tx) channels)) (\<lambda>_.
     bindS (persist_tracker S) (\<lambda>_.
     returnS witvec))))"

definition weight_lower_bound ::
    "lib \<Rightarrow> transaction \<Rightarrow> spend_type list \<Rightarrow> uniclose_key list \<Rightarrow> ('e, nat) outcome" where
  "weight_lower_bound L tx spendtypes uniclosekeys =
     foldo (\<lambda>(idx, uck) w.
         bindo (index spendtypes idx) (\<lambda>spendtype.
         if spendtype = SpendInvalid then Ok w
         else
           let wit_len = (case uck of Some (_, stack) \<Rightarrow> sum_list (map (\<lambda>v. 1 + length v) stack) | None \<Rightarrow> 33)
           in Ok (w + (2 + 1 + 1 + 72 + 1 + wit_len))))
       (enumerate 0 uniclosekeys) (lib_weight L tx)"

text \<open>
  \<^verbatim>\<open>check_onchain_tx\<close>, at \<open>now\<close> seconds.  Its error is a \<^verbatim>\<open>ValidationError\<close>, for the caller may ask the user to
  approve unknown destinations.
\<close>

definition check_onchain_tx ::
    "'s services \<Rightarrow> u64 \<Rightarrow> transaction \<Rightarrow> transaction list \<Rightarrow> u64 list \<Rightarrow> spend_type list \<Rightarrow> uniclose_key list \<Rightarrow>
     u32 list list \<Rightarrow> 's node \<Rightarrow> (validation_error, unit) outcome \<times> 's node" where
  "check_onchain_tx S now tx input_txs values_sat spendtypes uniclosekeys opaths nd =
     (let V = sv_validator S;
          channels = map (\<lambda>a. Option.bind a (\<lambda>b. map_option se_slot (slot_at nd b))) (funded_channels S tx nd);
          put = (\<lambda>vc. nd\<lparr>nd_state := (nd_state nd)\<lparr>ns_fee_velocity_control := vc\<rparr>\<rparr>) in
      case bindo (weight_lower_bound (sv_lib S) tx spendtypes uniclosekeys) (\<lambda>w.
           bindo (v_validate_onchain_tx V (nd_wallet S nd) channels tx input_txs values_sat opaths w) (\<lambda>non_beneficial_sat.
           velocity_insert (ns_fee_velocity_control (nd_state nd)) now (non_beneficial_sat * 1000))) of
        Err e \<Rightarrow> (Err e, nd)
      | Panic \<Rightarrow> (Panic, nd)
      | Ok (True, vc) \<Rightarrow> (Ok (), put vc)
      | Ok (False, vc) \<Rightarrow>
          (policy_error_with_filter ''policy-onchain-fee-range'' ''fee velocity would be exceeded {} + {} > {}''
             (v_filter V), put vc))"

section \<open>Signing messages\<close>

definition do_sign_gossip_message :: "'s services \<Rightarrow> bytes \<Rightarrow> 's node \<Rightarrow> signature" where
  "do_sign_gossip_message S encoded nd =
     lib_sign_ecdsa (sv_lib S) (km_node_secret (nd_keys nd)) (lib_sha256d (sv_lib S) encoded)"

definition sign_node_announcement :: "'s services \<Rightarrow> bytes \<Rightarrow> 's node \<Rightarrow> signature" where
  "sign_node_announcement S na nd = do_sign_gossip_message S na nd"

definition sign_channel_update :: "'s services \<Rightarrow> bytes \<Rightarrow> 's node \<Rightarrow> signature" where
  "sign_channel_update S cu nd = do_sign_gossip_message S cu nd"

definition sign_message :: "'s services \<Rightarrow> bytes \<Rightarrow> 's node \<Rightarrow> bytes" where
  "sign_message S message nd =
     (let buffer = as_bytes ''Lightning Signed Message:'' @ message;
          (sig, rid) = kl_sign_recoverable (sv_keys S) (lib_sha256d (sv_lib S) buffer) (km_node_secret (nd_keys nd))
      in sig @ [rid])"

definition ecdh :: "'s services \<Rightarrow> pubkey \<Rightarrow> 's node \<Rightarrow> bytes" where
  "ecdh S other_key nd = kl_ecdh (sv_keys S) other_key (km_node_secret (nd_keys nd))"

end
