(* ===== verification/Channel_Safety.thy ===== *)
theory Channel_Safety
  imports Channel
begin

text \<open>
  What holds over every sequence of calls on a channel: the secret of one of our commitments is
  never released if that commitment was or will be signed for broadcast, and no counterparty
  commitment number is signed with two different contents.
\<close>

section \<open>What each operation does to our side\<close>

abbreviation w_next :: "chan_world \<Rightarrow> u64" where
  "w_next w \<equiv> next_holder_commit_num (w_estate w)"

abbreviation w_closed :: "chan_world \<Rightarrow> bool" where
  "w_closed w \<equiv> channel_closed (w_estate w)"

text \<open>The number of our next commitment and the closed flag are as before.\<close>

definition holder_same :: "chan_world \<Rightarrow> chan_world \<Rightarrow> bool" where
  "holder_same w w' \<longleftrightarrow> w_next w' = w_next w \<and> w_closed w' = w_closed w"

lemma holder_same_refl [simp]: "holder_same w w"
  by (simp add: holder_same_def)

lemma estate_set_estate [simp]: "w_estate (set_estate st w) = st"
  by (simp add: set_estate_def)

lemma w_chan_set_estate [simp]: "chan_keys (w_chan (set_estate st w)) = w_keys w"
  "chan_setup (w_chan (set_estate st w)) = w_setup w" "chan_id0 (w_chan (set_estate st w)) = chan_id0 (w_chan w)"
  "w_state (set_estate st w) = w_state w"
  by (simp_all add: set_estate_def)

lemma set_next_cp_commit_num_holder:
  assumes "set_next_counterparty_commit_num f st num p i = Ok st'"
  shows "next_holder_commit_num st' = next_holder_commit_num st" and "channel_closed st' = channel_closed st"
  using assms
  by (auto simp: set_next_counterparty_commit_num_def estate_set_next_counterparty_commit_num_def
      Let_def outcome_simps split: if_splits)

lemma set_next_cp_revoke_num_holder:
  assumes "set_next_counterparty_revoke_num f st num = Ok st'"
  shows "next_holder_commit_num st' = next_holder_commit_num st" and "channel_closed st' = channel_closed st"
  using assms
  by (auto simp: set_next_counterparty_revoke_num_def estate_set_next_counterparty_revoke_num_def
      Let_def outcome_simps split: if_splits)

lemma advance_counterparty_holder:
  "wp (advance_counterparty_commitment E n p info i d) (\<lambda>_ w'. holder_same w w') w"
  by (auto simp: advance_counterparty_commitment_def validate_payments_op_def
      set_next_counterparty_commit_num_op_def apply_payments_op_def persist_def wp_simps
      outcome_simps holder_same_def set_next_cp_commit_num_holder)

lemma sign_counterparty_phase2_holder:
  "wp (sign_counterparty_commitment_tx_phase2 E p n fr a b offs recs) (\<lambda>_ w'. holder_same w w') w"
  unfolding sign_counterparty_commitment_tx_phase2_def Let_def
  by (auto simp: wp_simps intro!: wp_bind_mono [OF advance_counterparty_holder])

lemma sign_counterparty_holder:
  "wp (sign_counterparty_commitment_tx E tx ws p n fr offs recs) (\<lambda>_ w'. holder_same w w') w"
  unfolding sign_counterparty_commitment_tx_def Let_def
  by (auto simp: wp_simps intro!: wp_bind_mono [OF advance_counterparty_holder])

lemma store_secret_holder:
  "wp (store_counterparty_secret E n s) (\<lambda>_ w'. holder_same w w') w"
  by (auto simp: store_counterparty_secret_def wp_simps outcome_simps holder_same_def split: outcome.splits option.splits)

lemma validate_revocation_holder:
  "wp (validate_counterparty_revocation E n s) (\<lambda>_ w'. holder_same w w') w"
  unfolding validate_counterparty_revocation_def
  by (auto simp: wp_simps persist_def outcome_simps intro!: wp_bind_mono [OF store_secret_holder])
    (auto simp: holder_same_def set_next_cp_revoke_num_holder)

text \<open>Operations that may set the closed flag and change nothing else on our side.\<close>

definition may_close :: "chan_world \<Rightarrow> chan_world \<Rightarrow> bool" where
  "may_close w w' \<longleftrightarrow> w_next w' = w_next w \<and> (w_closed w \<longrightarrow> w_closed w')"

lemma sign_holder_phase2_effect:
  assumes "enforced (v_filter (env_validator E)) ''policy-other''"
  shows "wp (sign_holder_commitment_tx_phase2 E n)
           (\<lambda>r w'. may_close w w' \<and> (\<forall>x. r = Ok x \<longrightarrow> n + 1 = w_next w \<and> w_closed w')) w"
  using assms
  by (auto simp: sign_holder_commitment_tx_phase2_def Let_def wp_simps sign_holder_tx_def close_channel_def
      persist_def may_close_def get_current_holder_commitment_info_def outcome_simps policy_simps)

lemma sign_holder_recovery_effect:
  "wp (sign_holder_commitment_tx_for_recovery E)
     (\<lambda>r w'. may_close w w' \<and> (\<forall>x. r = Ok x \<longrightarrow> w_closed w')) w"
  by (auto simp: sign_holder_commitment_tx_for_recovery_def Let_def wp_simps sign_holder_tx_def close_channel_def
      persist_def may_close_def)

lemma sign_mutual_close_phase2_effect: "wp (sign_mutual_close_tx_phase2 E a b hs cs path) (\<lambda>_ w'. may_close w w') w"
  by (auto simp: sign_mutual_close_tx_phase2_def Let_def wp_simps close_channel_def persist_def may_close_def)

lemma sign_mutual_close_effect: "wp (sign_mutual_close_tx E tx opaths) (\<lambda>_ w'. may_close w w') w"
  by (auto simp: sign_mutual_close_tx_def Let_def wp_simps close_channel_def persist_def may_close_def)

lemma unwrap_ok_iff [outcome_simps]: "unwrap_ok m = Ok a \<longleftrightarrow> m = Ok a" "unwrap_ok m \<noteq> Err e"
  by (cases m; simp)+

text \<open>Accepting a holder commitment: the counter moves to \<open>n + 1\<close>, from there or from \<open>n\<close>.\<close>

definition holder_advanced :: "u64 \<Rightarrow> chan_world \<Rightarrow> chan_world \<Rightarrow> bool" where
  "holder_advanced n w w' \<longleftrightarrow> w_closed w' = w_closed w \<and> w_next w' = n + 1 \<and> (n + 1 = w_next w \<or> n = w_next w)"

lemma accept_holder_effect:
  assumes "enforced (v_filter (env_validator E)) ''policy-revoke-new-commitment-signed''"
  shows "wp (accept_holder_commitment E n info i d sg)
           (\<lambda>r w'. (holder_same w w' \<or> holder_advanced n w w') \<and>
              (\<forall>p so. r = Ok (p, so) \<longrightarrow> holder_advanced n w w' \<and> (so \<noteq> None \<longrightarrow> 1 \<le> n))) w"
  using assms
  by (auto simp: accept_holder_commitment_def advance_holder_commitment_state_def validate_payments_op_def
      apply_payments_op_def persist_def wp_simps bindS_assoc outcome_simps policy_simps holder_advanced_def
      set_next_holder_commit_num_def estate_set_next_holder_commit_num_def Let_def)

lemma point_Ok: "get_per_commitment_point L chan n = Ok p \<Longrightarrow>
    n \<le> next_holder_commit_num (enforcement_state chan) + 1"
  by (auto simp: get_per_commitment_point_def not_less split: if_splits)

context commitment_validator
begin

lemma validate_holder_phase2_effect:
  assumes "env_lib E = L" and "env_validator E = V"
  shows "wp (validate_holder_commitment_tx_phase2 E n fr a b offs recs sg hsg)
           (\<lambda>r w'. (holder_same w w' \<or> holder_advanced n w w' \<and> n \<le> w_next w + 1 \<and> (w_closed w \<longrightarrow> n \<noteq> w_next w)) \<and>
              (\<forall>p so. r = Ok (p, so) \<longrightarrow> holder_advanced n w w' \<and> (so \<noteq> None \<longrightarrow> 1 \<le> n))) w"
  unfolding validate_holder_commitment_tx_phase2_def Let_def assms
  using tags_enforced assms holder_not_closing
  by (auto simp: wp_simps outcome_simps dest: point_Ok
      intro!: wp_mono [OF accept_holder_effect [of E]])

lemma recomposed_effect:
  assumes "env_lib E = L" and "env_validator E = V"
  shows "wp (make_validated_recomposed_holder_commitment_tx E tx ws n p ks fr offs recs)
           (\<lambda>r w'. w' = w \<and> (\<forall>x. r = Ok x \<longrightarrow> w_closed w \<longrightarrow> n \<noteq> w_next w)) w"
  unfolding make_validated_recomposed_holder_commitment_tx_def Let_def assms
  using holder_not_closing by (auto simp: wp_simps outcome_simps)

lemma validate_holder_effect:
  assumes "env_lib E = L" and "env_validator E = V"
  shows "wp (channel_validate_holder_commitment_tx E tx ws n fr offs recs sg hsg)
           (\<lambda>r w'. (holder_same w w' \<or> holder_advanced n w w' \<and> n \<le> w_next w + 1 \<and> (w_closed w \<longrightarrow> n \<noteq> w_next w)) \<and>
              (\<forall>p so. r = Ok (p, so) \<longrightarrow> holder_advanced n w w' \<and> (so \<noteq> None \<longrightarrow> 1 \<le> n))) w"
  unfolding channel_validate_holder_commitment_tx_def Let_def assms
  using tags_enforced assms
  by (auto simp: wp_simps outcome_simps dest!: point_Ok
      intro!: wp_bind_mono [OF recomposed_effect [OF assms]] wp_mono [OF accept_holder_effect [of E]])

lemma sign_holder_redundant_effect:
  assumes "env_lib E = L" and "env_validator E = V"
  shows "wp (sign_holder_commitment_tx_phase2_redundant E n fr a b offs recs)
           (\<lambda>r w'. may_close w w' \<and> (\<forall>x. r = Ok x \<longrightarrow> w_next w < n + 2 \<and> n \<le> w_next w + 1 \<and> w_closed w')) w"
  unfolding sign_holder_commitment_tx_phase2_redundant_def Let_def assms
  using holder_not_revoked
  by (auto simp: wp_simps sign_holder_tx_def close_channel_def persist_def may_close_def outcome_simps
      dest!: point_Ok)

end

section \<open>Signed and revoked commitments\<close>

text \<open>
  Every way a channel is used, with the numbers of our commitments whose secret left the signer
  (\<open>R\<close>) and those signed for broadcast (\<open>S\<close>).  Commitment numbers that callers pass are 48 bit
  numbers, as the protocol has them; the node state may change arbitrarily between calls, because
  other channels and invoices change it, and the channel may be loaded again from its persisted
  enforcement state.
\<close>

definition valid_number :: "u64 \<Rightarrow> bool" where
  "valid_number n \<longleftrightarrow> n \<le> INITIAL_COMMITMENT_NUMBER"

definition released :: "u64 \<Rightarrow> (status, pubkey \<times> secret option) outcome \<Rightarrow> u64 set" where
  "released n r = (case r of Ok (_, Some _) \<Rightarrow> {n - 1} | _ \<Rightarrow> {})"

definition signed_if :: "u64 \<Rightarrow> (status, 'a) outcome \<Rightarrow> u64 set" where
  "signed_if n r = (if is_ok r then {n} else {})"

inductive chan_run :: "lib \<Rightarrow> validator \<Rightarrow> chan_world \<Rightarrow> u64 set \<Rightarrow> u64 set \<Rightarrow> bool" for L V where
  init: "w_estate w = enforcement_state_new v \<Longrightarrow> chan_run L V w {} {}"
| other: "chan_run L V w R S \<Longrightarrow> w_estate w' = w_estate w \<Longrightarrow> chan_run L V w' R S"
| secret: "chan_run L V w R S \<Longrightarrow> valid_number n \<Longrightarrow> get_per_commitment_secret L V (w_chan w) n = Ok s \<Longrightarrow>
    chan_run L V w (insert n R) S"
| validate2: "chan_run L V w R S \<Longrightarrow> env_lib E = L \<Longrightarrow> env_validator E = V \<Longrightarrow> valid_number n \<Longrightarrow>
    validate_holder_commitment_tx_phase2 E n fr a b offs recs sg hsg w = (r, w') \<Longrightarrow>
    chan_run L V w' (R \<union> released n r) S"
| validate1: "chan_run L V w R S \<Longrightarrow> env_lib E = L \<Longrightarrow> env_validator E = V \<Longrightarrow> valid_number n \<Longrightarrow>
    channel_validate_holder_commitment_tx E tx ws n fr offs recs sg hsg w = (r, w') \<Longrightarrow>
    chan_run L V w' (R \<union> released n r) S"
| sign_holder: "chan_run L V w R S \<Longrightarrow> env_lib E = L \<Longrightarrow> env_validator E = V \<Longrightarrow> valid_number n \<Longrightarrow>
    sign_holder_commitment_tx_phase2 E n w = (r, w') \<Longrightarrow> chan_run L V w' R (S \<union> signed_if n r)"
| sign_redundant: "chan_run L V w R S \<Longrightarrow> env_lib E = L \<Longrightarrow> env_validator E = V \<Longrightarrow> valid_number n \<Longrightarrow>
    sign_holder_commitment_tx_phase2_redundant E n fr a b offs recs w = (r2, w') \<Longrightarrow>
    chan_run L V w' R (S \<union> signed_if n r2)"
| recovery: "chan_run L V w R S \<Longrightarrow> env_lib E = L \<Longrightarrow> env_validator E = V \<Longrightarrow>
    sign_holder_commitment_tx_for_recovery E w = (r3, w') \<Longrightarrow>
    chan_run L V w' R (S \<union> signed_if (w_next w - 1) r3)"
| close2: "chan_run L V w R S \<Longrightarrow> env_lib E = L \<Longrightarrow> env_validator E = V \<Longrightarrow>
    sign_mutual_close_tx_phase2 E a b hs cs path w = (r4, w') \<Longrightarrow> chan_run L V w' R S"
| close1: "chan_run L V w R S \<Longrightarrow> env_lib E = L \<Longrightarrow> env_validator E = V \<Longrightarrow>
    sign_mutual_close_tx E tx opaths w = (r4, w') \<Longrightarrow> chan_run L V w' R S"
| counterparty2: "chan_run L V w R S \<Longrightarrow> env_lib E = L \<Longrightarrow> env_validator E = V \<Longrightarrow>
    sign_counterparty_commitment_tx_phase2 E p n fr a b offs recs w = (r2, w') \<Longrightarrow> chan_run L V w' R S"
| counterparty1: "chan_run L V w R S \<Longrightarrow> env_lib E = L \<Longrightarrow> env_validator E = V \<Longrightarrow>
    sign_counterparty_commitment_tx E tx ws p n fr offs recs w = (r4, w') \<Longrightarrow> chan_run L V w' R S"
| revocation: "chan_run L V w R S \<Longrightarrow> env_lib E = L \<Longrightarrow> env_validator E = V \<Longrightarrow>
    validate_counterparty_revocation E n s w = (r5, w') \<Longrightarrow> chan_run L V w' R S"
| delayed_sweep: "chan_run L V w R S \<Longrightarrow> sign_delayed_sweep E tx input n rs amt path w = (r4, w') \<Longrightarrow>
    chan_run L V w' R S"
| htlc_sweep: "chan_run L V w R S \<Longrightarrow> sign_counterparty_htlc_sweep E tx input p rs amt path w = (r4, w') \<Longrightarrow>
    chan_run L V w' R S"
| justice_sweep: "chan_run L V w R S \<Longrightarrow> sign_justice_sweep E tx input sk rs amt path w = (r4, w') \<Longrightarrow>
    chan_run L V w' R S"

definition run_inv :: "chan_world \<Rightarrow> u64 set \<Rightarrow> u64 set \<Rightarrow> bool" where
  "run_inv w R S \<longleftrightarrow> unat (w_next w) \<le> 2 ^ 48 \<and> (\<forall>k \<in> R. unat k + 2 \<le> unat (w_next w)) \<and>
     (\<forall>s \<in> S. unat (w_next w) \<le> unat s + 1 \<and> w_closed w)"

lemma run_inv_same: "run_inv w R S \<Longrightarrow> holder_same w w' \<Longrightarrow> run_inv w' R S"
  by (simp add: run_inv_def holder_same_def)

lemma run_inv_close: "run_inv w R S \<Longrightarrow> may_close w w' \<Longrightarrow> run_inv w' R S"
  by (auto simp: run_inv_def may_close_def)

lemma run_inv_disjoint: "run_inv w R S \<Longrightarrow> R \<inter> S = {}"
  by (fastforce simp: run_inv_def)

lemma unat_valid_number: "valid_number n \<Longrightarrow> unat n < 2 ^ 48"
  by (simp add: valid_number_def INITIAL_COMMITMENT_NUMBER_def word_le_nat_alt)

lemma unat_add_small:
  fixes n :: u64
  assumes "unat n < 2 ^ 48"
  shows "unat (n + 1) = unat n + 1" and "unat (n + 2) = unat n + 2"
  using assms by (simp_all add: unat_word_ariths)

lemma run_inv_secret:
  assumes "run_inv w R S" and "valid_number n" and "n + 2 \<le> w_next w"
  shows "run_inv w (insert n R) S"
  using assms unat_add_small(2) [OF unat_valid_number [OF assms(2)]]
  by (auto simp: run_inv_def word_le_nat_alt)

lemma run_inv_advance:
  assumes inv: "run_inv w R S" and n: "valid_number n" and adv: "holder_advanced n w w'"
    and closed: "w_closed w \<longrightarrow> n \<noteq> w_next w" and T: "T \<subseteq> {n - 1}" "T \<noteq> {} \<Longrightarrow> 1 \<le> n"
  shows "run_inv w' (R \<union> T) S"
proof -
  note unat_n = unat_valid_number [OF n]
  have next': "unat (w_next w') = unat n + 1"
    using adv unat_add_small(1) [OF unat_n] by (simp add: holder_advanced_def)
  have mono: "unat (w_next w) \<le> unat (w_next w')"
  proof -
    from adv have "w_next w' = w_next w \<or> n = w_next w" by (auto simp: holder_advanced_def)
    then show ?thesis using next' by auto
  qed
  have "unat k + 2 \<le> unat (w_next w')" if "k \<in> R \<union> T" for k
  proof (cases "k \<in> R")
    case True
    with inv mono show ?thesis by (fastforce simp: run_inv_def)
  next
    case False
    with that T have "k = n - 1" "1 \<le> n" by auto
    then have "unat k + 1 = unat n" by (simp add: unat_sub word_le_nat_alt)
    with next' show ?thesis by simp
  qed
  moreover have "unat (w_next w') \<le> unat s + 1 \<and> w_closed w'" if "s \<in> S" for s
  proof -
    from inv that have s: "unat (w_next w) \<le> unat s + 1" "w_closed w" by (auto simp: run_inv_def)
    with closed adv have "w_next w' = w_next w" by (auto simp: holder_advanced_def)
    with s adv show ?thesis by (simp add: holder_advanced_def)
  qed
  ultimately show ?thesis using next' unat_n by (auto simp: run_inv_def)
qed

lemma run_inv_sign:
  assumes "run_inv w R S" and "may_close w w'"
    and "\<And>x. r = Ok x \<Longrightarrow> unat (w_next w) \<le> unat n + 1 \<and> w_closed w'"
  shows "run_inv w' R (S \<union> signed_if n r)"
  using assms by (auto simp: run_inv_def may_close_def signed_if_def is_ok_iff split: if_splits)

lemma unat_le_pred: "unat (x :: u64) \<le> unat (x - 1) + 1"
proof (cases "x = 0")
  case False
  then have "unat (x - 1) = unat x - 1" by (simp add: unat_minus_one)
  then show ?thesis by simp
qed simp

lemma sweep_same:
  "wp (sign_delayed_sweep E tx input n rs amt path) (\<lambda>_ w'. w' = w) w"
  "wp (sign_counterparty_htlc_sweep E tx input p rs amt path) (\<lambda>_ w'. w' = w) w"
  "wp (sign_justice_sweep E tx input sk rs amt path) (\<lambda>_ w'. w' = w) w"
  by (auto simp: sign_delayed_sweep_def sign_counterparty_htlc_sweep_def sign_justice_sweep_def Let_def
      wp_simps persist_def)

lemma released_subset: "released n r \<subseteq> {n - 1}"
  by (auto simp: released_def split: outcome.splits option.splits prod.splits)

lemma released_nonempty: "released n r \<noteq> {} \<Longrightarrow> \<exists>p s. r = Ok (p, Some s)"
  by (auto simp: released_def split: outcome.splits option.splits prod.splits)

context commitment_validator
begin

lemma run_inv_validate:
  assumes "run_inv w R S" and "valid_number n"
    and "(holder_same w w' \<or> holder_advanced n w w' \<and> n \<le> w_next w + 1 \<and> (w_closed w \<longrightarrow> n \<noteq> w_next w)) \<and>
      (\<forall>p so. r = Ok (p, so) \<longrightarrow> holder_advanced n w w' \<and> (so \<noteq> None \<longrightarrow> 1 \<le> n))"
  shows "run_inv w' (R \<union> released n r) S"
proof (cases "holder_advanced n w w' \<and> (w_closed w \<longrightarrow> n \<noteq> w_next w)")
  case True
  show ?thesis
  proof (rule run_inv_advance [OF assms(1,2)])
    show "1 \<le> n" if "released n r \<noteq> {}"
      using released_nonempty [OF that] assms(3) by auto
  qed (use True released_subset in auto)
next
  case False
  then have same: "holder_same w w'" using assms(3) by blast
  show ?thesis
  proof (cases "released n r = {}")
    case True
    with same assms(1) show ?thesis by (simp add: run_inv_same)
  next
    case ne: False
    with assms(3) have adv: "holder_advanced n w w'" "1 \<le> n" using released_nonempty by blast+
    with same have "n + 1 = w_next w" by (auto simp: holder_advanced_def holder_same_def)
    then have "n \<noteq> w_next w" by (metis add_cancel_left_right zero_neq_one)
    with False adv show ?thesis by blast
  qed
qed

theorem run_invariant: "chan_run L V w R S \<Longrightarrow> run_inv w R S"
proof (induction rule: chan_run.induct)
  case (init w v)
  then show ?case by (simp add: run_inv_def)
next
  case (other w R S w')
  then show ?case by (simp add: run_inv_def)
next
  case (secret w R S n s)
  then have "n + 2 \<le> w_next w"
    using tags_enforced by (auto simp: get_per_commitment_secret_def outcome_simps policy_simps not_less)
  with secret show ?case by (simp add: run_inv_secret)
next
  case (validate2 w R S E n fr a b offs recs sg hsg r w')
  then show ?case
    using wpD [OF validate_holder_phase2_effect, of E, OF validate2(2,3,5)] run_inv_validate by blast
next
  case (validate1 w R S E n tx ws fr offs recs sg hsg r w')
  then show ?case
    using wpD [OF validate_holder_effect, of E, OF validate1(2,3,5)] run_inv_validate by blast
next
  case (sign_holder w R S E n r w')
  then have "may_close w w' \<and> (\<forall>x. r = Ok x \<longrightarrow> n + 1 = w_next w \<and> w_closed w')"
    using wpD [OF sign_holder_phase2_effect, of E] tags_enforced by blast
  then show ?case
    using sign_holder unat_add_small(1) [OF unat_valid_number, of n] by (intro run_inv_sign) auto
next
  case (sign_redundant w R S E n fr a b offs recs r2 w')
  then have "may_close w w' \<and> (\<forall>x. r2 = Ok x \<longrightarrow> w_next w < n + 2 \<and> n \<le> w_next w + 1 \<and> w_closed w')"
    using wpD [OF sign_holder_redundant_effect, of E] by blast
  then show ?case
    using sign_redundant unat_add_small(2) [OF unat_valid_number, of n]
    by (intro run_inv_sign) (auto simp: word_less_nat_alt)
next
  case (recovery w R S E r3 w')
  then have "may_close w w' \<and> (\<forall>x. r3 = Ok x \<longrightarrow> w_closed w')"
    using wpD [OF sign_holder_recovery_effect] by blast
  then show ?case using recovery unat_le_pred by (intro run_inv_sign) auto
next
  case (close2 w R S E a b hs cs path r4 w')
  then show ?case using wpD [OF sign_mutual_close_phase2_effect] run_inv_close by blast
next
  case (close1 w R S E tx opaths r4 w')
  then show ?case using wpD [OF sign_mutual_close_effect] run_inv_close by blast
next
  case (counterparty2 w R S E p n fr a b offs recs r2 w')
  then show ?case using wpD [OF sign_counterparty_phase2_holder] run_inv_same by blast
next
  case (counterparty1 w R S E tx ws p n fr offs recs r4 w')
  then show ?case using wpD [OF sign_counterparty_holder] run_inv_same by blast
next
  case (revocation w R S E n s r5 w')
  then show ?case using wpD [OF validate_revocation_holder] run_inv_same by blast
next
  case (delayed_sweep w R S E tx input n rs amt path r4 w')
  then show ?case using wpD [OF sweep_same(1)] by blast
next
  case (htlc_sweep w R S E tx input p rs amt path r4 w')
  then show ?case using wpD [OF sweep_same(2)] by blast
next
  case (justice_sweep w R S E tx input sk rs amt path r4 w')
  then show ?case using wpD [OF sweep_same(3)] by blast
qed

end

section \<open>A concrete run\<close>

text \<open>
  Two holder commitments of an outbound channel are validated, which releases the secret of the
  first; then the second is signed for broadcast.
\<close>

definition example_env :: chan_env where
  "example_env = \<lparr>env_lib = example_lib, env_validator = simple_validator example_lib example_policy,
     env_wallet = example_wallet, env_chain = example_cstate, env_persist_ok = True\<rparr>"

definition example_point :: "u64 \<Rightarrow> pubkey" where
  "example_point n = lib_get_per_commitment_point example_lib (replicate 32 3) (INITIAL_COMMITMENT_NUMBER - n)"

definition example_holder_info :: "u64 \<Rightarrow> commitment_info2" where
  "example_holder_info n = commitment_info2_new False [] 0 (example_point n) (example_point n) 2999000 6 [] [] 253"

definition example_estate :: "u64 \<Rightarrow> enforcement_state" where
  "example_estate n = (if n = 0 then enforcement_state_new 2999000 else
     (enforcement_state_new 2999000)\<lparr>next_holder_commit_num := n,
        current_holder_commit_info := Some (example_holder_info (n - 1)),
        current_counterparty_signatures := Some ([5], [])\<rparr>)"

definition example_world :: "u64 \<Rightarrow> chan_world" where
  "example_world n = \<lparr>w_chan = \<lparr>chan_keys = example_keys, enforcement_state = example_estate n,
       chan_setup = example_setup, chan_id0 = [9], chan_id = None\<rparr>,
     w_state = node_state_new example_velocity_control example_velocity_control\<rparr>"

lemma example_holder_commitment_ok:
  "validate_commitment_tx example_lib example_policy n example_setup example_cstate (example_holder_info k) = Ok ()"
  by (simp add: validate_commitment_tx_def example_holder_info_def commitment_info2_new_def example_setup_def
      example_lib_def example_cstate_def make_simple_policy_def guarded_def check_htlcs_def
      checked_add_def checked_sub_def ok_or_def MIN_CHAN_DUST_LIMIT_SATOSHIS_def value_to_parties_def
      is_zero_fee_htlc_def is_anchors_def validate_fee_def estimate_feerate_per_kw_def asserts_def
      expected_commitment_tx_weight_def)

lemma example_build_info:
  "build_holder_commitment_info example_lib (w_chan (example_world m)) (example_point n) 2999000 0 [] [] 253 =
     Ok (example_holder_info n)"
  by (simp add: build_holder_commitment_info_def example_world_def example_keys_def example_setup_def
      is_static_remotekey_def example_lib_def ok_or_def example_holder_info_def)

lemma example_get_point:
  "n \<le> next_holder_commit_num (example_estate m) + 1 \<Longrightarrow>
   get_per_commitment_point example_lib (w_chan (example_world m)) n = Ok (example_point n)"
  by (simp add: get_per_commitment_point_def example_world_def example_point_def example_keys_def)

lemma example_next [simp]: "next_holder_commit_num (example_estate n) = n"
  by (simp add: example_estate_def)

lemma example_holder_fields:
  "to_self_delay (example_holder_info n) = 6" "counterparty_selected_contest_delay example_setup = 6"
  "offered_htlcs (example_holder_info n) = []" "received_htlcs (example_holder_info n) = []"
  "feerate_per_kw (example_holder_info n) = 253"
  "channel_closed (example_estate n) = False"
  by (simp_all add: example_holder_info_def commitment_info2_new_def example_setup_def example_estate_def)

lemma example_validates:
  assumes "n = 0 \<or> n = 1"
  shows "validate_holder_commitment_tx example_lib example_policy (example_estate n) n p example_setup
           example_cstate (example_holder_info n) = Ok ()"
  using assms
  by (auto simp: validate_holder_commitment_tx_def example_holder_commitment_ok guarded_def
      example_holder_fields word_le_nat_alt)

lemma example_claimable:
  "claimable_balance (example_holder_info n) pm (is_outbound example_setup) (channel_value_sat example_setup) = Ok 3000000"
  by (simp add: claimable_balance_def example_setup_def example_holder_info_def commitment_info2_new_def unwrap_def
      Let_def value_to_parties_def total_value_def holder_htlcs_def add_htlcs_if_def checked_add_def checked_sub_def sum_u64_def)

lemma example_delta:
  assumes "n = 0 \<or> n = 1"
  shows "claimable_balances (example_estate n) pm (Some (example_holder_info n)) None example_setup =
           Ok (if n = 0 then 2999000 else 3000000, 3000000)"
  using assms
  by (auto simp: claimable_balances_def asserts_def info_balance_def example_claimable example_estate_def
      min_opt_def unwrap_def Let_def)

lemma example_summaries:
  "incoming_payments_summary (example_estate n) (Some (example_holder_info m)) None = []"
  "payments_summary (example_estate n) (Some (example_holder_info m)) None = []"
  by (simp_all add: incoming_payments_summary_def payments_summary_def example_estate_def htlcs_of_def
      example_holder_fields insert_zeros_def summarize_payments_def Let_def)

lemma example_signatures:
  "check_holder_tx_signatures example_lib (w_chan (example_world m)) p ks fr sg hsg
     (make_holder_commitment_tx example_lib (w_chan (example_world m)) n ks fr a b (htlcs_info2_to_oic [] [])) = Ok ()"
  by (simp add: check_holder_tx_signatures_def make_holder_commitment_tx_def example_lib_def htlcs_info2_to_oic_def
      example_world_def example_setup_def is_anchors_def ok_or_def)

lemma example_payments_validate:
  "validate_payments cid [] [] d (env_validator example_env) st = Ok ()"
  "apply_payments cid [] [] d (env_validator example_env) st = Ok st"
  by (simp_all add: validate_payments_def apply_payments_def unbalanced_payments_def summary_hashes_def keys_of_def
      example_env_def simple_validator_def make_simple_policy_def guarded_def)

lemma example_world_fields [simp]:
  "w_estate (example_world n) = example_estate n" "w_setup (example_world n) = example_setup"
  "w_keys (example_world n) = example_keys"
  by (simp_all add: example_world_def)

lemma example_advance:
  "set_estate (estate_set_next_holder_commit_num (n + 1) (example_holder_info n) ([5], []) (example_estate n))
     (example_world n) = example_world (n + 1)" if "n + 1 \<noteq> 0"
  using that by (simp add: set_estate_def example_world_def example_estate_def estate_set_next_holder_commit_num_def)

lemma example_secret:
  "get_per_commitment_secret example_lib V (w_chan (example_world 2)) 0 =
   Ok (derive_secret rev (replicate 32 3) 48 INITIAL_COMMITMENT_NUMBER)"
  by (simp add: get_per_commitment_secret_def guarded_def example_keys_def example_lib_def asserts_def)

lemma example_run_validate:
  assumes "n = 0 \<or> n = 1"
  shows "\<exists>p. validate_holder_commitment_tx_phase2 example_env n 253 2999000 0 [] [] [5] [] (example_world n) =
    (Ok (p, if n = 0 then None else Some (derive_secret rev (replicate 32 3) 48 INITIAL_COMMITMENT_NUMBER)),
     example_world (n + 1))"
proof -
  have lib: "env_lib example_env = example_lib"
    and val: "v_validate_holder_commitment_tx (env_validator example_env) = validate_holder_commitment_tx example_lib example_policy"
    "v_filter (env_validator example_env) = default_filter"
    and rest: "env_chain example_env = example_cstate" "env_persist_ok example_env"
    by (simp_all add: example_env_def simple_validator_def make_simple_policy_def)
  have n: "n \<le> n + 1" "n + 1 \<noteq> 0" "n + 1 \<le> n + 1 + 1" using assms by (auto simp: word_le_nat_alt)
  have adv: "advance_holder_commitment_state example_env n (example_holder_info n) ([5], []) (example_world n) =
      (Ok (example_point (n + 1),
           if n = 0 then None else Some (derive_secret rev (replicate 32 3) 48 INITIAL_COMMITMENT_NUMBER)),
       example_world (n + 1))"
    using assms n by (auto simp: advance_holder_commitment_state_def run_simps bindS_assoc lib val set_next_holder_commit_num_def
        guarded_def example_advance example_get_point example_secret)
  show ?thesis
    using n assms
    by (simp add: validate_holder_commitment_tx_phase2_def Let_def run_simps lib val rest example_get_point
        example_build_info example_delta example_validates example_signatures example_holder_fields
        accept_holder_commitment_def example_summaries validate_payments_op_def example_payments_validate
        bindS_def [of "advance_holder_commitment_state _ _ _ _"] adv apply_payments_op_def persist_def)
qed

lemma example_run_sign:
  "\<exists>w'. sign_holder_commitment_tx_phase2 example_env 1 (example_world 2) = (Ok ([1], []), w')"
proof -
  have "get_current_holder_commitment_info f (example_estate 2) 1 = Ok (example_holder_info 1)" for f
    by (simp add: get_current_holder_commitment_info_def estate_get_current_holder_commitment_info_def guarded_def
        example_estate_def unwrap_def)
  moreover have "env_lib example_env = example_lib" "env_persist_ok example_env" by (simp_all add: example_env_def)
  moreover have "get_per_commitment_point example_lib (w_chan (example_world 2)) 1 = Ok (example_point 1)"
    by (rule example_get_point) (simp add: word_le_nat_alt)
  moreover have "lib_sign_holder_commitment example_lib k t = Some ([1], [])" for k t by (simp add: example_lib_def)
  ultimately show ?thesis
    by (simp add: sign_holder_commitment_tx_phase2_def Let_def run_simps sign_holder_tx_def ok_or_def
        close_channel_def persist_def)
qed

lemma example_run: "\<exists>w. chan_run example_lib (simple_validator example_lib example_policy) w {0} {1}"
proof -
  let ?run = "chan_run example_lib (simple_validator example_lib example_policy)"
  have env: "env_lib example_env = example_lib" "env_validator example_env = simple_validator example_lib example_policy"
    by (simp_all add: example_env_def)
  have valid: "valid_number 0" "valid_number 1"
    by (simp_all add: valid_number_def INITIAL_COMMITMENT_NUMBER_def word_le_nat_alt)
  have "?run (example_world 0) {} {}"
    by (rule chan_run.init [of _ 2999000]) (simp add: example_estate_def)
  with env valid example_run_validate [of 0] have "?run (example_world 1) {} {}"
    by (fastforce dest: chan_run.validate2 [where n = 0] simp: released_def)
  with env valid example_run_validate [of 1] have "?run (example_world 2) {0} {}"
    by (fastforce dest: chan_run.validate2 [where n = 1] simp: released_def)
  moreover obtain w' where "sign_holder_commitment_tx_phase2 example_env 1 (example_world 2) = (Ok ([1], []), w')"
    using example_run_sign by blast
  ultimately have "?run w' {0} ({} \<union> signed_if 1 (Ok ([1], []) :: (status, signature \<times> signature list) outcome))"
    using env valid by (intro chan_run.sign_holder)
  then show ?thesis by (auto simp: signed_if_def)
qed

text \<open>
  C1: The signer never lets itself be punished.  In every run of a channel, under the default
  enforcement of the policy tags and with either validator, no commitment of ours is both signed
  for broadcast and revoked: neither is a signed commitment's secret released later, nor is a
  commitment signed whose secret is already out.
\<close>

theorem signed_and_revoked_disjoint:
  assumes "chan_run L V w R S" and "all_enforced (pol_filter P)"
    and "V = simple_validator L P \<or> V = make_onchain_validator L (Some P) net"
  shows "R \<inter> S = {}"
proof -
  have "commitment_validator L V"
    using assms(2,3) simple_validator_contract [OF assms(2)] onchain_validator_contract
    by (auto simp: make_onchain_validator_def make_onchain_policy_def)
  then show ?thesis
    using commitment_validator.run_invariant [OF _ assms(1)] run_inv_disjoint by blast
qed

theorem signed_and_revoked_disjoint_witness:
  "\<exists>w. chan_run example_lib (simple_validator example_lib example_policy) w {0} {1} \<and> {0} \<inter> {1 :: u64} = {}"
  using example_run signed_and_revoked_disjoint [OF _ default_policy_enforced disjI1 [OF refl]] by blast

end
