(* ===== verification/Channel_Counterparty.thy ===== *)
theory Channel_Counterparty
  imports Channel_Safety
begin

text \<open>
  The counterparty's commitments over every sequence of calls on a channel: a number is signed
  with one content only, and only while the commitment two before it is revoked.
\<close>

section \<open>What each operation does to the counterparty's side\<close>

abbreviation cp_next :: "chan_world \<Rightarrow> u64" where
  "cp_next w \<equiv> next_counterparty_commit_num (w_estate w)"

abbreviation cp_revoke :: "chan_world \<Rightarrow> u64" where
  "cp_revoke w \<equiv> next_counterparty_revoke_num (w_estate w)"

abbreviation cp_info :: "chan_world \<Rightarrow> commitment_info2 option" where
  "cp_info w \<equiv> current_counterparty_commit_info (w_estate w)"

definition cp_same :: "chan_world \<Rightarrow> chan_world \<Rightarrow> bool" where
  "cp_same w w' \<longleftrightarrow> cp_next w' = cp_next w \<and> cp_revoke w' = cp_revoke w \<and> cp_info w' = cp_info w"

lemma cp_same_refl [simp]: "cp_same w w"
  by (simp add: cp_same_def)

text \<open>The counterparty's commitment \<open>n\<close> with content \<open>i\<close> is signed: again, or as the next one.\<close>

definition cp_signed :: "u64 \<Rightarrow> commitment_info2 \<Rightarrow> chan_world \<Rightarrow> chan_world \<Rightarrow> bool" where
  "cp_signed n i w w' \<longleftrightarrow> cp_revoke w' = cp_revoke w \<and> n + 1 \<le> cp_revoke w + 2 \<and>
     (n + 1 = cp_next w \<and> cp_info w = Some i \<and> cp_next w' = cp_next w \<and> cp_info w' = cp_info w \<or>
      n = cp_next w \<and> cp_next w' = n + 1 \<and> cp_info w' = Some i)"

lemma cp_signed_frame [simp]: "cp_signed n i w (w'\<lparr>w_state := st\<rparr>) \<longleftrightarrow> cp_signed n i w w'"
  by (simp add: cp_signed_def)

lemma set_next_cp_commit_num_cases:
  assumes "set_next_counterparty_commit_num f st num p i = Ok st'" and "enforced f revoked_tag"
    and "num + 1 \<noteq> 0"
  shows "next_counterparty_revoke_num st' = next_counterparty_revoke_num st"
    and "num \<le> next_counterparty_revoke_num st + 2"
    and "num = next_counterparty_commit_num st \<and> next_counterparty_commit_num st' = num \<and>
           current_counterparty_commit_info st' = current_counterparty_commit_info st \<or>
         num = next_counterparty_commit_num st + 1 \<and> next_counterparty_commit_num st' = num \<and>
           current_counterparty_commit_info st' = Some i"
proof -
  have e: "estate_set_next_counterparty_commit_num num p i st = (Ok st' :: (validation_error, _) outcome)"
    and n: "num = next_counterparty_commit_num st \<or> num = next_counterparty_commit_num st + 1" "num \<noteq> 0"
    using set_cp_commit_num_Ok [OF assms(1,2)] by blast+
  show "num \<le> next_counterparty_revoke_num st + 2" using set_cp_commit_num_Ok(3) [OF assms(1,2)] .
  show "next_counterparty_revoke_num st' = next_counterparty_revoke_num st"
    using e by (auto simp: estate_set_next_counterparty_commit_num_def Let_def outcome_simps split: if_splits)
  have "\<not> x + 1 \<le> x" if "x + 1 \<noteq> 0" for x :: u64
    using that unatSuc [of x] by (simp add: word_le_nat_alt add.commute)
  with e n assms(3) show "num = next_counterparty_commit_num st \<and> next_counterparty_commit_num st' = num \<and>
           current_counterparty_commit_info st' = current_counterparty_commit_info st \<or>
         num = next_counterparty_commit_num st + 1 \<and> next_counterparty_commit_num st' = num \<and>
           current_counterparty_commit_info st' = Some i"
    by (auto simp: estate_set_next_counterparty_commit_num_def Let_def outcome_simps split: if_splits)
qed

lemma advance_counterparty_effect:
  assumes tags: "enforced (v_filter (env_validator E)) revoked_tag" and "valid_number n"
    and retry: "n + 1 = cp_next w \<Longrightarrow> cp_info w = Some info"
  shows "wp (advance_counterparty_commitment E n p info i d)
           (\<lambda>r w'. (cp_same w w' \<or> cp_signed n info w w') \<and> (\<forall>x. r = Ok x \<longrightarrow> cp_signed n info w w')) w"
proof -
  have "unat (n + 1 + 1) \<noteq> 0"
    using unat_add_small(2) [OF unat_valid_number [OF assms(2)]] by (simp add: add.assoc)
  then have n: "n + 1 + 1 \<noteq> 0" by force
  have "cp_signed n info w (set_estate st w)"
    if "set_next_counterparty_commit_num (v_filter (env_validator E)) (w_estate w) (n + 1) p info = Ok st" for st
    using set_next_cp_commit_num_cases [OF that tags n] retry by (auto simp: cp_signed_def)
  then show ?thesis
    by (auto simp: advance_counterparty_commitment_def validate_payments_op_def
        set_next_counterparty_commit_num_op_def apply_payments_op_def persist_def wp_simps outcome_simps)
qed

lemma advance_counterparty_return:
  assumes "enforced (v_filter (env_validator E)) revoked_tag" and "valid_number n"
    and "n + 1 = cp_next w \<Longrightarrow> cp_info w = Some info"
  shows "wp (bindS (advance_counterparty_commitment E n p info i d) (\<lambda>_. returnS x))
           (\<lambda>r w'. (cp_same w w' \<or> cp_signed n info w w') \<and> (\<forall>x. r = Ok x \<longrightarrow> cp_signed n info w w')) w"
  by (rule wp_bind_mono [OF advance_counterparty_effect [OF assms]]) (auto simp: wp_simps)

text \<open>
  What the \<open>lightning\<close> crate promises of a commitment transaction it builds: it keeps the number
  it was given.
\<close>

definition lib_keeps_number :: "lib \<Rightarrow> bool" where
  "lib_keeps_number L \<longleftrightarrow> (\<forall>b n x y an fa fb ks fr hs pr.
     ct_commitment_number (lib_new_commitment_tx L b n x y an fa fb ks fr hs pr) = n)"

text \<open>A call either leaves the counterparty's side alone or signs one content of number \<open>n\<close>.\<close>

definition cp_call :: "u64 \<Rightarrow> (commitment_info2 \<Rightarrow> bool) \<Rightarrow> chan_world \<Rightarrow> (status, 'a) outcome \<Rightarrow> chan_world \<Rightarrow> bool" where
  "cp_call n G w r w' \<longleftrightarrow> (cp_same w w' \<or> (\<exists>i. G i \<and> cp_signed n i w w')) \<and>
     (\<forall>x. r = Ok x \<longrightarrow> (\<exists>i. G i \<and> cp_signed n i w w'))"

lemma cp_call_same: "\<not> is_ok r \<Longrightarrow> cp_call n G w r w"
  by (cases r) (auto simp: cp_call_def)

context commitment_validator
begin

lemma advance_validated:
  assumes "env_validator E = V" and "valid_number n" and "G info"
    and "v_validate_counterparty_commitment_tx V (w_estate w) n p su cs info = Ok u"
  shows "wp (bindS (advance_counterparty_commitment E n p' info i d) (\<lambda>_. returnS x)) (cp_call n G w) w"
proof (rule wp_mono [OF advance_counterparty_return [OF _ assms(2)]])
  show "enforced (v_filter (env_validator E)) revoked_tag" by (simp add: assms(1) tags_enforced)
  show "cp_info w = Some info" if "n + 1 = cp_next w"
    using counterparty_retry_same [OF assms(4) that] by simp
qed (use assms(3) in \<open>auto simp: cp_call_def\<close>)

lemma sign_counterparty_phase2_effect:
  assumes "env_lib E = L" and "env_validator E = V" and n: "valid_number n"
  shows "wp (sign_counterparty_commitment_tx_phase2 E p n fr a b offs recs)
           (cp_call n (\<lambda>i. build_counterparty_commitment_info L (w_chan w) p a b offs recs fr = Ok i) w) w"
  unfolding sign_counterparty_commitment_tx_phase2_def Let_def assms(1,2)
  using assms
  by (auto simp: wp_simps outcome_simps intro: cp_call_same intro!: advance_validated)

lemma sign_counterparty_effect:
  assumes "env_lib E = L" and "env_validator E = V" and n: "valid_number n" and L: "lib_keeps_number L"
  shows "wp (sign_counterparty_commitment_tx E tx ws p n fr offs recs)
           (cp_call n (\<lambda>i. \<exists>ci. v_decode_commitment_tx V (w_keys w) (w_setup w) True tx ws = Ok ci \<and>
              build_counterparty_commitment_info L (w_chan w) p (ci_to_countersigner_value_sat ci)
                (ci_to_broadcaster_value_sat ci) offs recs fr = Ok i) w) w"
proof -
  have num: "INITIAL_COMMITMENT_NUMBER -
      ct_commitment_number (make_counterparty_commitment_tx L ch p n fr x y hs) = n" for ch x y hs
    using L by (simp add: make_counterparty_commitment_tx_def make_counterparty_commitment_tx_with_keys_def
        lib_keeps_number_def)
  show ?thesis
    unfolding sign_counterparty_commitment_tx_def Let_def assms(1,2)
    using assms
    by (auto simp: wp_simps outcome_simps num intro: cp_call_same intro!: advance_validated)
qed

end

text \<open>A revocation: the counter moves from \<open>n\<close> to \<open>n + 1\<close> on a secret that matches the recorded point.\<close>

definition revocation_matches :: "lib \<Rightarrow> chan_world \<Rightarrow> u64 \<Rightarrow> secret \<Rightarrow> bool" where
  "revocation_matches L w n s \<longleftrightarrow> get_previous_counterparty_point (w_estate w) n = Some (lib_public_key L s)"

definition cp_revoked :: "lib \<Rightarrow> u64 \<Rightarrow> secret \<Rightarrow> chan_world \<Rightarrow> chan_world \<Rightarrow> bool" where
  "cp_revoked L n s w w' \<longleftrightarrow> cp_next w' = cp_next w \<and> cp_info w' = cp_info w \<and>
     (cp_revoke w' = cp_revoke w \<or>
      n = cp_revoke w \<and> cp_revoke w' = n + 1 \<and> n + 1 + 1 \<le> cp_next w \<and> revocation_matches L w n s)"

lemma store_secret_cp: "wp (store_counterparty_secret E n s) (\<lambda>_ w'. cp_same w w') w"
  by (auto simp: store_counterparty_secret_def wp_simps outcome_simps cp_same_def split: outcome.splits option.splits)

context commitment_validator
begin

lemma revocation_effect:
  assumes "env_lib E = L" and "env_validator E = V"
  shows "wp (validate_counterparty_revocation E n s) (\<lambda>r w'. cp_revoked L n s w w') w"
proof -
  have step: "cp_revoked L n s w (set_estate st w1)"
    if "v_validate_counterparty_revocation V (w_estate w) n s = Ok ()" and "cp_same w w1"
      and "set_next_counterparty_revoke_num (v_filter V) (w_estate w1) (n + 1) = Ok st" for w1 st
    using set_cp_revoke_num_Ok(3,5) [OF that(3) tags_enforced] that(2) revocation_num [OF that(1)] revocation_backed [OF that(1)]
    by (auto simp: cp_revoked_def cp_same_def revocation_matches_def estate_set_next_counterparty_revoke_num_def
        outcome_simps Let_def split: if_splits)
  have same: "cp_revoked L n s w w1" if "cp_same w w1" for w1
    using that by (simp add: cp_revoked_def cp_same_def)
  show ?thesis
    unfolding validate_counterparty_revocation_def assms
    by (auto simp: wp_simps persist_def outcome_simps same intro: step intro!: wp_bind_mono [OF store_secret_cp])
qed

end

text \<open>Our own commitments, closing and sweeps leave the counterparty's side alone.\<close>

lemma accept_holder_cp: "wp (accept_holder_commitment E n info i d sg) (\<lambda>_ w'. cp_same w w') w"
  by (auto simp: accept_holder_commitment_def advance_holder_commitment_state_def validate_payments_op_def
      apply_payments_op_def persist_def wp_simps bindS_assoc outcome_simps cp_same_def
      set_next_holder_commit_num_def estate_set_next_holder_commit_num_def Let_def)

lemma recomposed_cp: "wp (make_validated_recomposed_holder_commitment_tx E tx ws n p ks fr offs recs) (\<lambda>_ w'. w' = w) w"
  by (auto simp: make_validated_recomposed_holder_commitment_tx_def Let_def wp_simps)

lemma holder_ops_cp:
  "wp (validate_holder_commitment_tx_phase2 E n fr a b offs recs sg hsg) (\<lambda>_ w'. cp_same w w') w"
  "wp (channel_validate_holder_commitment_tx E tx ws n fr offs recs sg hsg) (\<lambda>_ w'. cp_same w w') w"
  "wp (sign_holder_commitment_tx_phase2 E n) (\<lambda>_ w'. cp_same w w') w"
  "wp (sign_holder_commitment_tx_phase2_redundant E n fr a b offs recs) (\<lambda>_ w'. cp_same w w') w"
  "wp (sign_holder_commitment_tx_for_recovery E) (\<lambda>_ w'. cp_same w w') w"
  "wp (sign_mutual_close_tx_phase2 E a b hs cs path) (\<lambda>_ w'. cp_same w w') w"
  "wp (sign_mutual_close_tx E tx opaths) (\<lambda>_ w'. cp_same w w') w"
  by (auto simp: validate_holder_commitment_tx_phase2_def channel_validate_holder_commitment_tx_def
      sign_holder_commitment_tx_phase2_def sign_holder_commitment_tx_phase2_redundant_def
      sign_holder_commitment_tx_for_recovery_def sign_mutual_close_tx_phase2_def sign_mutual_close_tx_def
      sign_holder_tx_def close_channel_def persist_def Let_def wp_simps cp_same_def [of _ "set_estate _ _"]
      intro!: wp_mono [OF accept_holder_cp] wp_bind_mono [OF recomposed_cp])

lemma sweep_cp:
  "wp (sign_delayed_sweep E tx input n rs amt path) (\<lambda>_ w'. cp_same w w') w"
  "wp (sign_counterparty_htlc_sweep E tx input p rs amt path) (\<lambda>_ w'. cp_same w w') w"
  "wp (sign_justice_sweep E tx input sk rs amt path) (\<lambda>_ w'. cp_same w w') w"
  by (auto intro!: wp_mono [OF sweep_same(1)] wp_mono [OF sweep_same(2)] wp_mono [OF sweep_same(3)])

lemmas cp_keeps = holder_ops_cp [THEN wpD] sweep_cp [THEN wpD]

section \<open>Signed counterparty commitments\<close>

text \<open>
  Every way a channel is used, with the counterparty commitments signed (\<open>C\<close>, number and content)
  and the numbers for which the counterparty gave a secret that matches the recorded point (\<open>K\<close>).
\<close>

definition cp_signed_if :: "u64 \<Rightarrow> (status, commitment_info2) outcome \<Rightarrow> (status, 'a) outcome \<Rightarrow>
    (u64 \<times> commitment_info2) set" where
  "cp_signed_if n i r = (if is_ok r then {(n, x) | x. i = Ok x} else {})"

inductive cp_run :: "lib \<Rightarrow> validator \<Rightarrow> chan_world \<Rightarrow> (u64 \<times> commitment_info2) set \<Rightarrow> u64 set \<Rightarrow> bool" for L V where
  init: "w_estate w = enforcement_state_new v \<Longrightarrow> cp_run L V w {} {}"
| other: "cp_run L V w C K \<Longrightarrow> w_estate w' = w_estate w \<Longrightarrow> cp_run L V w' C K"
| counterparty2: "cp_run L V w C K \<Longrightarrow> env_lib E = L \<Longrightarrow> env_validator E = V \<Longrightarrow> valid_number n \<Longrightarrow>
    sign_counterparty_commitment_tx_phase2 E p n fr a b offs recs w = (r2, w') \<Longrightarrow>
    cp_run L V w' (C \<union> cp_signed_if n (build_counterparty_commitment_info L (w_chan w) p a b offs recs fr) r2) K"
| counterparty1: "cp_run L V w C K \<Longrightarrow> env_lib E = L \<Longrightarrow> env_validator E = V \<Longrightarrow> valid_number n \<Longrightarrow>
    sign_counterparty_commitment_tx E tx ws p n fr offs recs w = (r, w') \<Longrightarrow>
    cp_run L V w' (C \<union> cp_signed_if n (bindo (into_status (v_decode_commitment_tx V (w_keys w) (w_setup w) True tx ws))
      (\<lambda>ci. build_counterparty_commitment_info L (w_chan w) p (ci_to_countersigner_value_sat ci)
        (ci_to_broadcaster_value_sat ci) offs recs fr)) r) K"
| revocation: "cp_run L V w C K \<Longrightarrow> env_lib E = L \<Longrightarrow> env_validator E = V \<Longrightarrow>
    validate_counterparty_revocation E n s w = (r3, w') \<Longrightarrow>
    cp_run L V w' C (K \<union> {k. k = n \<and> revocation_matches L w n s})"
| validate2: "cp_run L V w C K \<Longrightarrow>
    validate_holder_commitment_tx_phase2 E n fr a b offs recs sg hsg w = (r4, w') \<Longrightarrow> cp_run L V w' C K"
| validate1: "cp_run L V w C K \<Longrightarrow>
    channel_validate_holder_commitment_tx E tx ws n fr offs recs sg hsg w = (r4, w') \<Longrightarrow> cp_run L V w' C K"
| sign_holder: "cp_run L V w C K \<Longrightarrow> sign_holder_commitment_tx_phase2 E n w = (r5, w') \<Longrightarrow> cp_run L V w' C K"
| sign_redundant: "cp_run L V w C K \<Longrightarrow>
    sign_holder_commitment_tx_phase2_redundant E n fr a b offs recs w = (r2, w') \<Longrightarrow> cp_run L V w' C K"
| recovery: "cp_run L V w C K \<Longrightarrow> sign_holder_commitment_tx_for_recovery E w = (r6, w') \<Longrightarrow> cp_run L V w' C K"
| close2: "cp_run L V w C K \<Longrightarrow> sign_mutual_close_tx_phase2 E a b hs cs path w = (r, w') \<Longrightarrow> cp_run L V w' C K"
| close1: "cp_run L V w C K \<Longrightarrow> sign_mutual_close_tx E tx opaths w = (r, w') \<Longrightarrow> cp_run L V w' C K"
| delayed_sweep: "cp_run L V w C K \<Longrightarrow> sign_delayed_sweep E tx input n rs amt path w = (r, w') \<Longrightarrow> cp_run L V w' C K"
| htlc_sweep: "cp_run L V w C K \<Longrightarrow> sign_counterparty_htlc_sweep E tx input p rs amt path w = (r, w') \<Longrightarrow>
    cp_run L V w' C K"
| justice_sweep: "cp_run L V w C K \<Longrightarrow> sign_justice_sweep E tx input sk rs amt path w = (r, w') \<Longrightarrow> cp_run L V w' C K"

definition cp_inv :: "chan_world \<Rightarrow> (u64 \<times> commitment_info2) set \<Rightarrow> u64 set \<Rightarrow> bool" where
  "cp_inv w C K \<longleftrightarrow> unat (cp_next w) \<le> 2 ^ 48 \<and> unat (cp_next w) \<le> unat (cp_revoke w) + 2 \<and>
     unat (cp_revoke w) \<le> unat (cp_next w) \<and>
     (\<forall>n i. (n, i) \<in> C \<longrightarrow> unat n < unat (cp_next w) \<and> (n + 1 = cp_next w \<longrightarrow> cp_info w = Some i)) \<and>
     (\<forall>n i j. (n, i) \<in> C \<longrightarrow> (n, j) \<in> C \<longrightarrow> i = j) \<and> (\<forall>k. unat k < unat (cp_revoke w) \<longrightarrow> k \<in> K)"

lemma cp_inv_same: "cp_inv w C K \<Longrightarrow> cp_same w w' \<Longrightarrow> cp_inv w' C K"
  by (simp add: cp_inv_def cp_same_def)

lemma cp_inv_revoked:
  assumes "cp_inv w C K" and "cp_revoked L n s w w'"
  shows "cp_inv w' C (K \<union> {k. k = n \<and> revocation_matches L w n s})"
proof (cases "cp_revoke w' = cp_revoke w")
  case True
  with assms show ?thesis by (auto simp: cp_inv_def cp_revoked_def)
next
  case False
  with assms(2) have n: "n = cp_revoke w" "cp_revoke w' = n + 1" "n + 1 + 1 \<le> cp_next w" "revocation_matches L w n s"
    and same: "cp_next w' = cp_next w" "cp_info w' = cp_info w"
    by (auto simp: cp_revoked_def)
  have bound: "unat n \<le> 2 ^ 48" using assms(1) n(1) by (simp add: cp_inv_def)
  have u: "unat (n + 1) = unat n + 1" "unat (n + 1 + 1) = unat n + 2"
    using bound by (simp_all add: unat_word_ariths)
  have old: "k = n" if "unat k < Suc (unat n)" "k \<notin> K" for k
    using that assms(1) n(1) by (auto simp: cp_inv_def word_unat_eq_iff less_Suc_eq)
  show ?thesis using assms(1) n u same old by (auto simp: cp_inv_def word_le_nat_alt)
qed

lemma cp_inv_signed:
  assumes inv: "cp_inv w C K" and n: "valid_number n" and signed: "cp_signed n i w w'"
  shows "cp_inv w' (insert (n, i) C) K"
proof -
  note unat_n = unat_valid_number [OF n]
  have u: "unat (n + 1) = unat n + 1" by (rule unat_add_small [OF unat_n])
  have r: "unat (cp_revoke w + 2) = unat (cp_revoke w) + 2"
    using inv by (simp add: cp_inv_def unat_word_ariths)
  show ?thesis
  proof (cases "n + 1 = cp_next w")
    case True
    then have "n \<noteq> cp_next w" by (metis add_cancel_left_right zero_neq_one)
    with True signed have "cp_info w = Some i" "cp_same w w'" by (auto simp: cp_signed_def cp_same_def)
    with True inv u show ?thesis by (auto simp: cp_inv_def cp_same_def)
  next
    case False
    with signed have "n = cp_next w" "cp_next w' = n + 1" "cp_info w' = Some i" "cp_revoke w' = cp_revoke w"
      "n + 1 \<le> cp_revoke w + 2" by (auto simp: cp_signed_def)
    with inv u r unat_n show ?thesis by (fastforce simp: cp_inv_def word_le_nat_alt)
  qed
qed

lemma cp_inv_call:
  assumes "cp_inv w C K" and "valid_number n" and "cp_call n (\<lambda>i. b = Ok i) w r w'"
  shows "cp_inv w' (C \<union> cp_signed_if n b r) K"
proof -
  have mono: "cp_inv w' C K" if "cp_inv w' (insert x C) K" for x using that by (auto simp: cp_inv_def)
  show ?thesis
  proof (cases "\<exists>i. b = Ok i \<and> cp_signed n i w w'")
    case True
    then obtain i where "b = Ok i" "cp_signed n i w w'" by blast
    then have "cp_inv w' (insert (n, i) C) K" "cp_signed_if n b r \<subseteq> {(n, i)}"
      using cp_inv_signed [OF assms(1,2)] by (auto simp: cp_signed_if_def)
    then show ?thesis using mono by (cases "cp_signed_if n b r = {}") (auto simp: subset_singleton_iff)
  next
    case False
    with assms(3) have "cp_same w w'" "\<not> is_ok r" by (auto simp: cp_call_def is_ok_iff)
    with assms(1) show ?thesis by (simp add: cp_signed_if_def cp_inv_same)
  qed
qed

context commitment_validator
begin

theorem cp_run_invariant:
  assumes "lib_keeps_number L"
  shows "cp_run L V w C K \<Longrightarrow> cp_inv w C K"
proof (induction rule: cp_run.induct)
  case (init w v)
  then show ?case by (simp add: cp_inv_def enforcement_state_new_def)
next
  case (other w C K w')
  then show ?case by (simp add: cp_inv_def)
next
  case (counterparty2 w C K E n p fr a b offs recs r2 w')
  then show ?case
    using wpD [OF sign_counterparty_phase2_effect, of E] cp_inv_call by blast
next
  case (counterparty1 w C K E n tx ws p fr offs recs r w')
  then show ?case
    using wpD [OF sign_counterparty_effect [OF _ _ _ assms], of E n tx ws p fr offs recs w r w']
    by (intro cp_inv_call) (auto simp: outcome_simps)
next
  case (revocation w C K E n s r3 w')
  then show ?case using wpD [OF revocation_effect, of E] cp_inv_revoked by blast
qed (blast intro: cp_inv_same dest: cp_keeps)+

end

section \<open>A concrete run\<close>

text \<open>
  Three counterparty commitments are signed, the third one after the secret of the first was given.
\<close>

definition example_cp_secret :: "u64 \<Rightarrow> secret" where
  "example_cp_secret n = [ucast n]"

definition example_cp_point :: "u64 \<Rightarrow> pubkey" where
  "example_cp_point n = 2 # example_cp_secret n"

definition example_cp_info :: "u64 \<Rightarrow> commitment_info2" where
  "example_cp_info n = commitment_info2_new True [] 2999000 (example_cp_point n) (example_cp_point n) 0
     (holder_selected_contest_delay example_setup) [] [] 253"

definition example_at :: "u64 \<Rightarrow> u64 \<Rightarrow> chan_world \<Rightarrow> bool" where
  "example_at n r w \<longleftrightarrow> w_setup w = example_setup \<and> w_keys w = example_keys \<and>
     current_holder_commit_info (w_estate w) = None \<and> cp_next w = n \<and> cp_revoke w = r \<and>
     (cp_info w = None \<or> (\<exists>k. cp_info w = Some (example_cp_info k)))"

lemma example_cp_commitment_ok:
  "validate_commitment_tx example_lib example_policy n example_setup example_cstate (example_cp_info k) = Ok ()"
  by (simp add: validate_commitment_tx_def example_cp_info_def commitment_info2_new_def example_setup_def
      example_lib_def example_cstate_def make_simple_policy_def guarded_def check_htlcs_def
      checked_add_def checked_sub_def ok_or_def MIN_CHAN_DUST_LIMIT_SATOSHIS_def value_to_parties_def
      is_zero_fee_htlc_def is_anchors_def validate_fee_def estimate_feerate_per_kw_def asserts_def
      expected_commitment_tx_weight_def)

lemma example_cp_build:
  assumes "example_at m r w"
  shows "build_counterparty_commitment_info example_lib (w_chan w) (example_cp_point n) 2999000 0 [] [] 253 =
     Ok (example_cp_info n)"
  using assms
  by (simp add: build_counterparty_commitment_info_def example_at_def example_keys_def example_setup_def
      derive_counterparty_payment_pubkey_def is_static_remotekey_def example_lib_def ok_or_def example_cp_info_def)

lemma example_cp_claimable:
  "claimable_balance (example_cp_info n) pm (is_outbound example_setup) (channel_value_sat example_setup) = Ok 3000000"
  by (simp add: claimable_balance_def example_setup_def example_cp_info_def commitment_info2_new_def unwrap_def
      Let_def value_to_parties_def total_value_def holder_htlcs_def add_htlcs_if_def checked_add_def checked_sub_def sum_u64_def)

lemma example_cp_delta:
  assumes "example_at m r w"
  shows "\<exists>d. claimable_balances (w_estate w) pm None (Some (example_cp_info n)) example_setup = Ok d"
  using assms
  by (auto simp: claimable_balances_def asserts_def info_balance_def example_cp_claimable example_at_def
      min_opt_def unwrap_def Let_def or_else_def)

lemma example_cp_summaries:
  assumes "example_at m r w"
  shows "incoming_payments_summary (w_estate w) None (Some (example_cp_info n)) = []"
    and "payments_summary (w_estate w) None (Some (example_cp_info n)) = []"
  using assms
  by (auto simp: incoming_payments_summary_def payments_summary_def example_at_def htlcs_of_def or_else_def
      example_cp_info_def commitment_info2_new_def insert_zeros_def summarize_payments_def Let_def)

lemma example_cp_delay [simp]: "to_self_delay (example_cp_info n) = holder_selected_contest_delay example_setup"
  by (simp add: example_cp_info_def commitment_info2_new_def)

lemma example_cp_validates:
  assumes "example_at n r w" and "n \<le> r + 1"
  shows "validate_counterparty_commitment_tx example_lib example_policy (w_estate w) n (example_cp_point n) example_setup
           example_cstate (example_cp_info n) = Ok ()"
  using assms
  by (auto simp: validate_counterparty_commitment_tx_def example_cp_commitment_ok guarded_def example_at_def)

lemma example_cp_set:
  assumes "example_at n r w" and "(n, r) \<in> {(0, 0), (1, 0), (2, 1)}"
  shows "set_next_counterparty_commit_num f (w_estate w) (n + 1) p i =
    Ok ((w_estate w)\<lparr>previous_counterparty_point := current_counterparty_point (w_estate w),
          previous_counterparty_commit_info := cp_info w, current_counterparty_point := Some p,
          current_counterparty_commit_info := Some i, next_counterparty_commit_num := n + 1\<rparr>)"
  using assms
  by (auto simp: set_next_counterparty_commit_num_def estate_set_next_counterparty_commit_num_def guarded_def
      example_at_def Let_def asserts_def word_less_nat_alt word_le_nat_alt)

lemma example_cp_sign:
  assumes "example_at n r w" and "(n, r) \<in> {(0, 0), (1, 0), (2, 1)}"
  shows "\<exists>w'. sign_counterparty_commitment_tx_phase2 example_env (example_cp_point n) n 253 2999000 0 [] [] w =
      (Ok ([1], []), w') \<and> example_at (n + 1) r w' \<and> current_counterparty_point (w_estate w') = Some (example_cp_point n) \<and>
      previous_counterparty_point (w_estate w') = current_counterparty_point (w_estate w) \<and>
      counterparty_secrets (w_estate w') = counterparty_secrets (w_estate w)"
proof -
  have lib: "env_lib example_env = example_lib"
    and val: "v_validate_counterparty_commitment_tx (env_validator example_env) = validate_counterparty_commitment_tx example_lib example_policy"
    "v_filter (env_validator example_env) = default_filter"
    "v_validate_channel_value (env_validator example_env) = validate_channel_value example_policy"
    and rest: "env_chain example_env = example_cstate" "env_persist_ok example_env"
    by (simp_all add: example_env_def simple_validator_def make_simple_policy_def)
  have "n \<le> r + 1" using assms(2) by (auto simp: word_le_nat_alt)
  note valid = example_cp_validates [OF assms(1) this]
  have w: "w_setup w = example_setup" "w_keys w = example_keys" using assms(1) by (simp_all add: example_at_def)
  have chan_value: "validate_channel_value example_policy example_setup = Ok ()"
    by (simp add: validate_channel_value_def guarded_def example_setup_def make_simple_policy_def word_less_nat_alt)
  have sign: "lib_sign_counterparty_commitment example_lib k t = Some ([1], [])" for k t by (simp add: example_lib_def)
  obtain d where d: "claimable_balances (w_estate w) (has_preimage (w_state w)) None (Some (example_cp_info n)) example_setup =
      (Ok d :: (status, _) outcome)" using example_cp_delta [OF assms(1)] by blast
  show ?thesis
    using assms(1) by (simp add: sign_counterparty_commitment_tx_phase2_def Let_def run_simps lib val rest w chan_value
        example_cp_build [OF assms(1)] d valid sign ok_or_def
        advance_counterparty_commitment_def example_cp_summaries [OF assms(1)] validate_payments_op_def
        set_next_counterparty_commit_num_op_def example_payments_validate example_cp_set [OF assms]
        apply_payments_op_def persist_def bindS_assoc) (auto simp: example_at_def)
qed

lemma example_cp_revoke:
  assumes "example_at 2 0 w" and "previous_counterparty_point (w_estate w) = Some (example_cp_point 0)"
    and "counterparty_secrets (w_estate w) = Some secrets_new"
  shows "\<exists>w'. validate_counterparty_revocation example_env 0 (example_cp_secret 0) w = (Ok (), w') \<and> example_at 2 1 w' \<and>
    revocation_matches example_lib w 0 (example_cp_secret 0)"
proof -
  have val: "v_validate_counterparty_revocation (env_validator example_env) = sv_validate_counterparty_revocation example_lib example_policy"
    "v_filter (env_validator example_env) = default_filter" "env_persist_ok example_env"
    by (simp_all add: example_env_def simple_validator_def make_simple_policy_def)
  have key: "lib_public_key example_lib (example_cp_secret 0) = example_cp_point 0"
    by (simp add: example_lib_def example_cp_point_def)
  have place: "place_secret INITIAL_COMMITMENT_NUMBER = 0"
    by (simp add: place_secret_def INITIAL_COMMITMENT_NUMBER_def upt_rec)
  obtain x where "provide_secret (lib_sha256 (env_lib example_env)) secrets_new INITIAL_COMMITMENT_NUMBER (example_cp_secret 0) = Ok x"
    by (fastforce simp: provide_secret_def place Let_def secrets_new_def split: if_splits)
  then have store: "store_counterparty_secret example_env 0 (example_cp_secret 0) w = (Ok (), set_estate
      ((w_estate w)\<lparr>counterparty_secrets := Some x\<rparr>) w)"
    using assms(3) by (simp add: store_counterparty_secret_def updateS_def)
  show ?thesis
    using assms(1,2)
    by (simp add: validate_counterparty_revocation_def run_simps val sv_validate_counterparty_revocation_def example_at_def
        guarded_def get_previous_counterparty_point_def key bindS_def [of "store_counterparty_secret _ _ _"] store
        set_next_counterparty_revoke_num_def estate_set_next_counterparty_revoke_num_def Let_def asserts_def
        persist_def revocation_matches_def word_less_nat_alt liftS_def)
qed

lemma example_cp_run:
  "\<exists>w. cp_run example_lib (simple_validator example_lib example_policy) w
     {(2, example_cp_info 2), (1, example_cp_info 1), (0, example_cp_info 0)} {0}"
proof -
  let ?V = "simple_validator example_lib example_policy"
  have env: "env_lib example_env = example_lib" "env_validator example_env = ?V"
    by (simp_all add: example_env_def)
  have sign: "\<exists>w'. cp_run example_lib ?V w' (insert (n, example_cp_info n) C) K \<and> example_at (n + 1) r w' \<and>
      current_counterparty_point (w_estate w') = Some (example_cp_point n) \<and>
      previous_counterparty_point (w_estate w') = current_counterparty_point (w_estate w) \<and>
      counterparty_secrets (w_estate w') = counterparty_secrets (w_estate w)"
    if run: "cp_run example_lib ?V w C K" and at: "example_at n r w" and n: "(n, r) \<in> {(0, 0), (1, 0), (2, 1)}" for w C K n r
  proof -
    obtain w' where w': "sign_counterparty_commitment_tx_phase2 example_env (example_cp_point n) n 253 2999000 0 [] [] w =
        (Ok ([1], []), w')" "example_at (n + 1) r w'" "current_counterparty_point (w_estate w') = Some (example_cp_point n)"
      "previous_counterparty_point (w_estate w') = current_counterparty_point (w_estate w)"
      "counterparty_secrets (w_estate w') = counterparty_secrets (w_estate w)"
      using example_cp_sign [OF at n] by blast
    have "valid_number n" using n by (auto simp: valid_number_def INITIAL_COMMITMENT_NUMBER_def word_le_nat_alt)
    from cp_run.counterparty2 [OF run env this w'(1)] w'(2-) show ?thesis
      by (auto simp: cp_signed_if_def example_cp_build [OF at])
  qed
  have "cp_run example_lib ?V (example_world 0) {} {}"
    by (rule cp_run.init [of _ 2999000]) (simp add: example_estate_def)
  moreover have "example_at 0 0 (example_world 0)" "counterparty_secrets (w_estate (example_world 0)) = Some secrets_new"
    by (simp_all add: example_at_def example_estate_def enforcement_state_new_def)
  ultimately obtain w1 where w1: "cp_run example_lib ?V w1 {(0, example_cp_info 0)} {}" "example_at 1 0 w1"
    "current_counterparty_point (w_estate w1) = Some (example_cp_point 0)" "counterparty_secrets (w_estate w1) = Some secrets_new"
    using sign [of "example_world 0" "{}" "{}" 0 0] by auto
  then obtain w2 where w2: "cp_run example_lib ?V w2 {(1, example_cp_info 1), (0, example_cp_info 0)} {}" "example_at 2 0 w2"
    "previous_counterparty_point (w_estate w2) = Some (example_cp_point 0)" "counterparty_secrets (w_estate w2) = Some secrets_new"
    using sign [of w1 _ _ 1 0] by auto
  then obtain w3 where "cp_run example_lib ?V w3 {(1, example_cp_info 1), (0, example_cp_info 0)} {0}" "example_at 2 1 w3"
    using example_cp_revoke [OF w2(2-4)] cp_run.revocation [OF w2(1) env] by fastforce
  then show ?thesis using sign [of w3 _ _ 2 1] by blast
qed

text \<open>
  C2: The counterparty's commitments are unique.  In every run of a channel, under the default
  enforcement of the policy tags and with either validator, no two contents are ever signed for
  one counterparty commitment number, and a commitment is signed only after matching secrets of
  all commitments but the one before it were received, so that of the commitments ever signed
  at most two are unrevoked.
\<close>

theorem counterparty_commitments_unique:
  assumes "cp_run L V w C K" and "lib_keeps_number L" and "all_enforced (pol_filter P)"
    and "V = simple_validator L P \<or> V = make_onchain_validator L (Some P) net"
  shows "(\<forall>n i j. (n, i) \<in> C \<longrightarrow> (n, j) \<in> C \<longrightarrow> i = j) \<and>
    (\<forall>n i k. (n, i) \<in> C \<longrightarrow> unat k + 2 \<le> unat n \<longrightarrow> k \<in> K)"
proof -
  have "commitment_validator L V"
    using assms(3,4) simple_validator_contract [OF assms(3)] onchain_validator_contract
    by (auto simp: make_onchain_validator_def make_onchain_policy_def)
  then have inv: "cp_inv w C K" by (rule commitment_validator.cp_run_invariant [OF _ assms(2,1)])
  have "k \<in> K" if "(n, i) \<in> C" "unat k + 2 \<le> unat n" for n i k
  proof -
    from inv that(1) have "unat n < unat (cp_next w)" "unat (cp_next w) \<le> unat (cp_revoke w) + 2"
      unfolding cp_inv_def by blast+
    with that(2) have "unat k < unat (cp_revoke w)" by linarith
    with inv show ?thesis unfolding cp_inv_def by blast
  qed
  moreover have "\<forall>n i j. (n, i) \<in> C \<longrightarrow> (n, j) \<in> C \<longrightarrow> i = j" using inv unfolding cp_inv_def by blast
  ultimately show ?thesis by blast
qed

theorem counterparty_commitments_unique_witness:
  "\<exists>w. cp_run example_lib (simple_validator example_lib example_policy) w
     {(2, example_cp_info 2), (1, example_cp_info 1), (0, example_cp_info 0)} {0} \<and>
   (\<forall>i. (0, i) \<in> {(2 :: u64, example_cp_info 2), (1, example_cp_info 1), (0, example_cp_info 0)} \<longrightarrow> i = example_cp_info 0)"
proof -
  let ?C = "{(2 :: u64, example_cp_info 2), (1, example_cp_info 1), (0, example_cp_info 0)}"
  obtain w where w: "cp_run example_lib (simple_validator example_lib example_policy) w ?C {0}"
    using example_cp_run by (rule exE)
  have "lib_keeps_number example_lib" by (simp add: lib_keeps_number_def example_lib_def)
  note unique = counterparty_commitments_unique [OF w this default_policy_enforced disjI1 [OF refl], THEN conjunct1]
  have "i = example_cp_info 0" if "(0, i) \<in> ?C" for i
    by (rule unique [rule_format, OF that]) simp
  with w show ?thesis by (intro exI conjI allI impI)
qed

end
