(* ===== verification/Node_Runs.thy ===== *)
theory Node_Runs
  imports Node_Channels Channel_Counterparty
begin

text \<open>
  A signer over its whole life: it is built (\<^verbatim>\<open>RootHandlerBuilder\<close> of \<^verbatim>\<open>vls-protocol-signer\<close>), serves calls, and is
  built again from what it persisted.  What the channels guarantee one call at a time holds across
  restarts, because a call that succeeds persists its channel before it answers.
\<close>

section \<open>Building the signer\<close>

definition node_config_new :: "network \<Rightarrow> node_config" where
  "node_config_new network = \<lparr>nc_network = network, nc_style = Native, nc_use_checkpoints = True\<rparr>"

definition do_build ::
    "'s services \<Rightarrow> network \<Rightarrow> bytes \<Rightarrow> u64 \<times> u32 \<Rightarrow> string list \<Rightarrow> 's \<Rightarrow> (status, 's node) outcome" where
  "do_build S network seed start al store =
     (let P = sv_persist S; config = node_config_new network in
      bindo (unwrap_ok (p_get_nodes P (sv_lib S) store)) (\<lambda>nodes.
      if nodes = [] then
        bindo (node_new S config seed start [] store) (\<lambda>nd0.
        case bindS (add_allowlist S al) (\<lambda>_.
             bindS (persist_expect (\<lambda>nd. p_new_node P (nd_id nd) (nc_style config) (nc_network config) (nd_state nd))) (\<lambda>_.
             persist_expect (\<lambda>nd. p_new_tracker P (nd_id nd) (deref_tracker nd)))) nd0 of
          (Ok _, nd) \<Rightarrow> Ok nd
        | (_, nd) \<Rightarrow> Panic)
      else
        bindo (asserts (length nodes = 1)) (\<lambda>_.
        restore_node S (fst (hd nodes)) (snd (hd nodes)) seed start store)))"

section \<open>Blocks\<close>

text \<open>What the tracker left behind goes back to the node: watches to the tracker, states to the monitors.\<close>

definition write_back :: "node_tracker \<Rightarrow> 's node \<Rightarrow> 's node" where
  "write_back t nd =
     (let addr = (\<lambda>k. case map_of (tr_listeners (nd_tracker nd)) k of Some (a, _) \<Rightarrow> a | None \<Rightarrow> 0) in
      nd\<lparr>nd_tracker :=
           \<lparr>tr_headers = tr_headers t, tr_tip = tr_tip t, tr_height = tr_height t, tr_network = tr_network t,
            tr_listeners = map (\<lambda>(k, _, slot). (k, addr k, slot)) (tr_listeners t),
            tr_decode_state = tr_decode_state t\<rparr>,
         nd_monitors := foldl (\<lambda>ms (k, m, _). AList.update (addr k) m ms) (nd_monitors nd) (tr_listeners t)\<rparr>)"

definition trackerS :: "(node_tracker \<Rightarrow> (track_error, 'a) outcome \<times> node_tracker) \<Rightarrow> ('s node, unit) op" where
  "trackerS f = (\<lambda>nd.
     let (r, t) = f (deref_tracker nd) in (case r of Ok _ \<Rightarrow> Ok () | _ \<Rightarrow> Panic, write_back t nd))"

definition handle_add_block :: "'s services \<Rightarrow> block_header \<Rightarrow> txo_proof option \<Rightarrow> ('s node, unit) op" where
  "handle_add_block S header unspent_proof =
     bindS (liftS (ok_or (invalid_argument ''could not deserialize proof'') unspent_proof)) (\<lambda>prf.
     bindS (trackerS (add_block (sv_chain S) (monitor_listener (sv_lib S)) header prf)) (\<lambda>_.
     persist_expect (\<lambda>nd. p_update_tracker (sv_persist S) (nd_id nd) (deref_tracker nd))))"

definition handle_remove_block :: "'s services \<Rightarrow> txo_proof option \<Rightarrow> ('s node, unit) op" where
  "handle_remove_block S unspent_proof =
     bindS (liftS (ok_or (invalid_argument ''could not deserialize proof'') unspent_proof)) (\<lambda>prf.
     bindS (trackerS (remove_block (sv_chain S) (monitor_listener (sv_lib S)) prf)) (\<lambda>_.
     persist_expect (\<lambda>nd. p_update_tracker (sv_persist S) (nd_id nd) (deref_tracker nd))))"

definition handle_block_chunk :: "'s services \<Rightarrow> bytes \<Rightarrow> u32 \<Rightarrow> bytes \<Rightarrow> ('s node, unit) op" where
  "handle_block_chunk S hash offset content =
     trackerS (\<lambda>t. case block_chunk (sv_chain S) (monitor_listener (sv_lib S)) hash offset content t of
       Ok t' \<Rightarrow> (Ok (), t') | Err e \<Rightarrow> (Err e, t) | Panic \<Rightarrow> (Panic, t))"

section \<open>Calls on a channel\<close>

text \<open>The requests, with their arguments in the order of the operations of the channel.\<close>

datatype chan_call =
    GetSecret u64
  | ValidateHolder2 u64 u32 u64 u64 "htlc_info2 list" "htlc_info2 list" signature "signature list"
  | ValidateHolder1 transaction "bytes list" u64 u32 "htlc_info2 list" "htlc_info2 list" signature "signature list"
  | SignHolder2 u64
  | SignHolderRedundant u64 u32 u64 u64 "htlc_info2 list" "htlc_info2 list"
  | SignHolderRecovery
  | MutualClose2 u64 u64 "script option" "script option" "u32 list"
  | MutualClose1 transaction "u32 list list"
  | SignCounterparty2 pubkey u64 u32 u64 u64 "htlc_info2 list" "htlc_info2 list"
  | SignCounterparty1 transaction "bytes list" pubkey u64 u32 "htlc_info2 list" "htlc_info2 list"
  | CounterpartyRevocation u64 secret
  | SweepDelayed transaction nat u64 script u64 "u32 list"
  | SweepHtlc transaction nat pubkey script u64 "u32 list"
  | SweepJustice transaction nat secret script u64 "u32 list"

text \<open>
  What leaves the signer with the answer of a call: numbers of our commitments whose secret is
  released, numbers of our commitments signed for broadcast, and counterparty commitments signed.
\<close>

record call_effect =
  ef_released :: "u64 set"
  ef_signed :: "u64 set"
  ef_cp_signed :: "(u64 \<times> commitment_info2) set"

definition no_effect :: call_effect where
  "no_effect = \<lparr>ef_released = {}, ef_signed = {}, ef_cp_signed = {}\<rparr>"

definition released_by :: "u64 \<Rightarrow> pubkey \<times> secret option \<Rightarrow> call_effect" where
  "released_by n r = no_effect\<lparr>ef_released := (if snd r = None then {} else {n - 1})\<rparr>"

definition cp_signed_by :: "u64 \<Rightarrow> (status, commitment_info2) outcome \<Rightarrow> call_effect" where
  "cp_signed_by n i = no_effect\<lparr>ef_cp_signed := (case i of Ok x \<Rightarrow> {(n, x)} | _ \<Rightarrow> {})\<rparr>"

fun chan_exec :: "chan_env \<Rightarrow> chan_call \<Rightarrow> (chan_world, call_effect) op" where
  "chan_exec E (GetSecret n) =
     bindS (readS (\<lambda>w. get_per_commitment_secret (env_lib E) (env_validator E) (w_chan w) n)) (\<lambda>_.
     returnS (no_effect\<lparr>ef_released := {n}\<rparr>))"
| "chan_exec E (ValidateHolder2 n fr a b offs recs sg hsg) =
     bindS (validate_holder_commitment_tx_phase2 E n fr a b offs recs sg hsg) (\<lambda>r. returnS (released_by n r))"
| "chan_exec E (ValidateHolder1 tx ws n fr offs recs sg hsg) =
     bindS (channel_validate_holder_commitment_tx E tx ws n fr offs recs sg hsg) (\<lambda>r. returnS (released_by n r))"
| "chan_exec E (SignHolder2 n) =
     bindS (sign_holder_commitment_tx_phase2 E n) (\<lambda>_. returnS (no_effect\<lparr>ef_signed := {n}\<rparr>))"
| "chan_exec E (SignHolderRedundant n fr a b offs recs) =
     bindS (sign_holder_commitment_tx_phase2_redundant E n fr a b offs recs) (\<lambda>_. returnS (no_effect\<lparr>ef_signed := {n}\<rparr>))"
| "chan_exec E SignHolderRecovery =
     bindS (getS (\<lambda>w. next_holder_commit_num (w_estate w) - 1)) (\<lambda>n.
     bindS (sign_holder_commitment_tx_for_recovery E) (\<lambda>_. returnS (no_effect\<lparr>ef_signed := {n}\<rparr>)))"
| "chan_exec E (MutualClose2 a b hs cs path) =
     bindS (sign_mutual_close_tx_phase2 E a b hs cs path) (\<lambda>_. returnS no_effect)"
| "chan_exec E (MutualClose1 tx opaths) =
     bindS (sign_mutual_close_tx E tx opaths) (\<lambda>_. returnS no_effect)"
| "chan_exec E (SignCounterparty2 p n fr a b offs recs) =
     bindS (getS (\<lambda>w. build_counterparty_commitment_info (env_lib E) (w_chan w) p a b offs recs fr)) (\<lambda>i.
     bindS (sign_counterparty_commitment_tx_phase2 E p n fr a b offs recs) (\<lambda>_. returnS (cp_signed_by n i)))"
| "chan_exec E (SignCounterparty1 tx ws p n fr offs recs) =
     bindS (getS (\<lambda>w.
       bindo (into_status (v_decode_commitment_tx (env_validator E) (w_keys w) (w_setup w) True tx ws)) (\<lambda>ci.
       build_counterparty_commitment_info (env_lib E) (w_chan w) p (ci_to_countersigner_value_sat ci)
         (ci_to_broadcaster_value_sat ci) offs recs fr))) (\<lambda>i.
     bindS (sign_counterparty_commitment_tx E tx ws p n fr offs recs) (\<lambda>_. returnS (cp_signed_by n i)))"
| "chan_exec E (CounterpartyRevocation n s) =
     bindS (validate_counterparty_revocation E n s) (\<lambda>_. returnS no_effect)"
| "chan_exec E (SweepDelayed tx input n rs amt path) =
     bindS (sign_delayed_sweep E tx input n rs amt path) (\<lambda>_. returnS no_effect)"
| "chan_exec E (SweepHtlc tx input p rs amt path) =
     bindS (sign_counterparty_htlc_sweep E tx input p rs amt path) (\<lambda>_. returnS no_effect)"
| "chan_exec E (SweepJustice tx input sk rs amt path) =
     bindS (sign_justice_sweep E tx input sk rs amt path) (\<lambda>_. returnS no_effect)"

definition persists :: "chan_call \<Rightarrow> bool" where
  "persists call = (case call of GetSecret _ \<Rightarrow> False | _ \<Rightarrow> True)"

text \<open>
  A call on a ready channel of a node.  Persisting the channel is the last thing that such a call
  does; it is done here, where the store is.
\<close>

definition channel_call :: "'s services \<Rightarrow> channel_id \<Rightarrow> chan_call \<Rightarrow> ('s node, channel_id \<times> call_effect) op" where
  "channel_call S cid call =
     bindS (getS (nd_wallet S)) (\<lambda>W.
     bindS (with_ready_channel cid (\<lambda>cstate.
       bindS (chan_exec \<lparr>env_lib = sv_lib S, env_validator = sv_validator S, env_wallet = W, env_chain = cstate,
                         env_persist_ok = True\<rparr> call) (\<lambda>ef.
       getS (\<lambda>w. (w_chan w, ef))))) (\<lambda>(chan, ef).
     bindS (if persists call
            then persist_or ''persist failed'' (\<lambda>nd. p_update_channel (sv_persist S) (nd_id nd) chan)
            else returnS ()) (\<lambda>_.
     returnS (chan_id0 chan, ef))))"

section \<open>Calls on the node\<close>

text \<open>The node state is persisted when an invoice or keysend was added.\<close>

definition node_pay :: "'s services \<Rightarrow> pay_ctx \<Rightarrow> duration \<Rightarrow> pay_call \<Rightarrow> ('s node, bool) op" where
  "node_pay S X now call =
     bindS (getS (\<lambda>nd. length (invoices (nd_state nd)))) (\<lambda>before.
     bindS (stateS (pay_step X (env_at X now True) call)) (\<lambda>r.
     bindS (getS (\<lambda>nd. length (invoices (nd_state nd)))) (\<lambda>after.
     bindS (if after = before + 1
            then persist_expect (\<lambda>nd. p_update_node (sv_persist S) (nd_id nd) (nd_state nd))
            else returnS ()) (\<lambda>_.
     returnS r))))"

datatype node_call =
    NewChannel "channel_id option"
  | ReadyChannel channel_id "channel_id option" channel_setup "u32 list"
  | ChannelCall channel_id chan_call
  | GetHeartbeat bool duration duration
  | AddAllowlist "string list"
  | SetAllowlist "string list"
  | RemoveAllowlist "string list"
  | CheckOnchain u64 transaction "transaction list" "u64 list" "spend_type list" "uniclose_key list" "u32 list list"
  | SignOnchain transaction "u32 list list" "u64 list" "spend_type list" "uniclose_key list"
  | AddBlock block_header "txo_proof option"
  | RemoveBlock "txo_proof option"
  | BlockChunk bytes u32 bytes
  | PayCall duration pay_call

definition quiet :: "('s node, 'a) op \<Rightarrow> ('s node, (channel_id \<times> call_effect) option) op" where
  "quiet m = bindS m (\<lambda>_. returnS None)"

fun node_exec :: "'s services \<Rightarrow> pay_ctx \<Rightarrow> node_call \<Rightarrow> ('s node, (channel_id \<times> call_effect) option) op" where
  "node_exec S X (NewChannel opt_id) = quiet (new_channel S opt_id)"
| "node_exec S X (ReadyChannel id0 opt_id su path) = quiet (ready_channel S id0 opt_id su path)"
| "node_exec S X (ChannelCall cid call) = bindS (channel_call S cid call) (\<lambda>r. returnS (Some r))"
| "node_exec S X (GetHeartbeat timeless now now2) = quiet (get_heartbeat S timeless now now2)"
| "node_exec S X (AddAllowlist l) = quiet (add_allowlist S l)"
| "node_exec S X (SetAllowlist l) = quiet (set_allowlist S l)"
| "node_exec S X (RemoveAllowlist l) = quiet (remove_allowlist S l)"
| "node_exec S X (CheckOnchain now tx itxs vals types ucks opaths) = quiet (\<lambda>nd.
     let (r, nd') = check_onchain_tx S now tx itxs vals types ucks opaths nd in (into_status r, nd'))"
| "node_exec S X (SignOnchain tx ipaths vals types ucks) = quiet (unchecked_sign_onchain_tx S tx ipaths vals types ucks)"
| "node_exec S X (AddBlock header prf) = quiet (handle_add_block S header prf)"
| "node_exec S X (RemoveBlock prf) = quiet (handle_remove_block S prf)"
| "node_exec S X (BlockChunk hash offset content) = quiet (handle_block_chunk S hash offset content)"
| "node_exec S X (PayCall now call) = quiet (node_pay S X now call)"

end
