(* ===== verification/Call_Effects.thy ===== *)
theory Call_Effects
  imports Node_Runs
begin

text \<open>
  What one call does to its channel: it keeps the identity of the channel, an error leaves the
  number of our next commitment alone, and the histories of \<^verbatim>\<open>Channel_Safety\<close> and
  \<^verbatim>\<open>Channel_Counterparty\<close> go on with what the call answers.
\<close>

section \<open>What a call does to its channel\<close>

definition same_channel :: "channel \<Rightarrow> chan_world \<Rightarrow> bool" where
  "same_channel c w \<longleftrightarrow> (\<exists>st. w_chan w = c\<lparr>enforcement_state := st\<rparr>)"

lemma same_channel_set_estate [simp]: "same_channel c (set_estate st w) = same_channel c w"
  by (auto simp: same_channel_def set_estate_def) (metis channel.update_convs(2) channel.surjective)

lemma same_channel_state [simp]: "same_channel c (w\<lparr>w_state := st\<rparr>) = same_channel c w"
  by (simp add: same_channel_def)

lemma same_channel_self [simp]: "same_channel (w_chan w) w"
  by (auto simp: same_channel_def intro: exI [of _ "w_estate w"])

lemma same_channelD:
  assumes "same_channel c w"
  shows "chan_id0 (w_chan w) = chan_id0 c" "chan_setup (w_chan w) = chan_setup c" "chan_keys (w_chan w) = chan_keys c"
    "chan_id (w_chan w) = chan_id c"
  using assms by (auto simp: same_channel_def)

lemma keeps_case_prod [intro]: "(\<And>a b. keeps P (f a b)) \<Longrightarrow> keeps P (case x of (a, b) \<Rightarrow> f a b)"
  by (cases x) simp

lemma keeps_persist [intro, simp]: "keeps P (persist E)"
  by (simp add: persist_def)

lemma keeps_common [intro, simp]:
  "keeps (same_channel c) (validate_payments_op E i out d)" "keeps (same_channel c) (apply_payments_op E i out d)"
  "keeps (same_channel c) (set_next_counterparty_commit_num_op E n p info)" "keeps (same_channel c) close_channel"
  "keeps (same_channel c) (store_counterparty_secret E n s)"
  by (auto simp: validate_payments_op_def apply_payments_op_def set_next_counterparty_commit_num_op_def
      close_channel_def store_counterparty_secret_def outcome_simps split: option.splits outcome.splits intro!: keeps_update)

lemma keeps_advance_counterparty [intro, simp]:
  "keeps (same_channel c) (advance_counterparty_commitment E n p info i d)"
  unfolding advance_counterparty_commitment_def by (intro keeps_bind) auto

lemma keeps_accept_holder [intro, simp]: "keeps (same_channel c) (accept_holder_commitment E n info i d sg)"
  unfolding accept_holder_commitment_def advance_holder_commitment_state_def
  by (intro keeps_bind keeps_if keeps_update) (auto simp: outcome_simps)

lemma keeps_recomposed [intro, simp]:
  "keeps (same_channel c) (make_validated_recomposed_holder_commitment_tx E tx ws n p ks fr offs recs)"
  unfolding make_validated_recomposed_holder_commitment_tx_def Let_def by (intro keeps_bind) auto

lemma keeps_sign_holder_tx [intro, simp]: "keeps P (sign_holder_tx E tx)"
  by (simp add: sign_holder_tx_def)

lemma chan_exec_keeps: "keeps (same_channel c) (chan_exec E call)"
  by (cases call)
    (auto simp: validate_holder_commitment_tx_phase2_def channel_validate_holder_commitment_tx_def
      sign_holder_commitment_tx_phase2_def sign_holder_commitment_tx_phase2_redundant_def
      sign_holder_commitment_tx_for_recovery_def sign_mutual_close_tx_phase2_def sign_mutual_close_tx_def
      sign_counterparty_commitment_tx_phase2_def sign_counterparty_commitment_tx_def
      validate_counterparty_revocation_def sign_delayed_sweep_def sign_counterparty_htlc_sweep_def
      sign_justice_sweep_def Let_def outcome_simps intro!: keeps_bind keeps_update keeps_case_prod)

text \<open>A call that returns an error has not moved the number of our next commitment.\<close>

lemma no_Err_simps [outcome_simps]:
  "bindo m f = Err e \<longleftrightarrow> m = Err e \<or> (\<exists>a. m = Ok a \<and> f a = Err e)" "unwrap x \<noteq> Err e" "asserts b \<noteq> Err e"
  by (cases m; simp) (auto simp: unwrap_def asserts_def split: option.splits)

lemma foldo_no_Err:
  assumes "\<And>x s. f x s \<noteq> Err e"
  shows "foldo f xs s \<noteq> Err e"
  using assms by (induction xs arbitrary: s) (auto simp: outcome_simps)

lemma apply_payments_no_Err: "apply_payments cid i out d V st \<noteq> Err e"
  by (auto simp: apply_payments_def Let_def outcome_simps adjust_excess_def modify_payment_def foldo_no_Err
      split: prod.splits if_splits)

lemma accept_holder_Err:
  assumes "env_persist_ok E"
  shows "wp (accept_holder_commitment E n info i d sg) (\<lambda>r w'. (\<exists>e. r = Err e) \<longrightarrow> w_next w' = w_next w) w"
  using assms
  by (auto simp: accept_holder_commitment_def advance_holder_commitment_state_def validate_payments_op_def
      apply_payments_op_def persist_def wp_simps bindS_assoc outcome_simps apply_payments_no_Err)

lemma validate_holder_Err:
  assumes "env_persist_ok E"
  shows "wp (validate_holder_commitment_tx_phase2 E n fr a b offs recs sg hsg)
           (\<lambda>r w'. (\<exists>e. r = Err e) \<longrightarrow> w_next w' = w_next w) w"
    and "wp (channel_validate_holder_commitment_tx E tx ws n fr offs recs sg hsg)
           (\<lambda>r w'. (\<exists>e. r = Err e) \<longrightarrow> w_next w' = w_next w) w"
  unfolding validate_holder_commitment_tx_phase2_def channel_validate_holder_commitment_tx_def
    make_validated_recomposed_holder_commitment_tx_def Let_def
  by (auto simp: wp_simps bindS_assoc intro!: wp_mono [OF accept_holder_Err [OF assms]])

lemma sign_holder_next:
  "wp (sign_holder_commitment_tx_phase2 E n) (\<lambda>_ w'. w_next w' = w_next w) w"
  "wp (sign_holder_commitment_tx_phase2_redundant E n fr a b offs recs) (\<lambda>_ w'. w_next w' = w_next w) w"
  by (auto simp: sign_holder_commitment_tx_phase2_def sign_holder_commitment_tx_phase2_redundant_def Let_def wp_simps
      sign_holder_tx_def close_channel_def persist_def)

lemmas next_kept = sign_holder_next sign_holder_recovery_effect sign_mutual_close_phase2_effect sign_mutual_close_effect
  sign_counterparty_phase2_holder sign_counterparty_holder validate_revocation_holder sweep_same

lemma wp_bind_return_Err:
  assumes "wp m (\<lambda>r w'. (\<exists>e. r = Err e) \<longrightarrow> P w') w"
  shows "wp (bindS m (\<lambda>x. returnS (f x))) (\<lambda>r w'. (\<exists>e. r = Err e) \<longrightarrow> P w') w"
  using assms by (auto simp: wp_bind wp_return elim!: wp_mono split: outcome.splits)

lemma wp_any_Err: "wp m Q w \<Longrightarrow> (\<And>r w'. Q r w' \<Longrightarrow> P w') \<Longrightarrow> wp m (\<lambda>r w'. (\<exists>e. r = Err e) \<longrightarrow> P w') w"
  by (erule wp_mono) auto

lemma chan_exec_Err:
  assumes "chan_exec E call w = (Err e, w')" and "env_persist_ok E"
  shows "w_next w' = w_next w"
proof -
  have "wp (chan_exec E call) (\<lambda>r w'. (\<exists>e. r = Err e) \<longrightarrow> w_next w' = w_next w) w"
    using assms(2)
    by (cases call)
      (auto simp: wp_simps holder_same_def may_close_def
        intro!: wp_bind_return_Err validate_holder_Err next_kept [THEN wp_any_Err])
  with assms(1) show ?thesis by (auto dest: wpD)
qed

section \<open>Histories\<close>

definition add_effect :: "call_effect \<Rightarrow> call_effect \<Rightarrow> call_effect" where
  "add_effect a b = \<lparr>ef_released = ef_released a \<union> ef_released b, ef_signed = ef_signed a \<union> ef_signed b,
     ef_cp_signed = ef_cp_signed a \<union> ef_cp_signed b\<rparr>"

text \<open>An enforcement state that a channel can have after it answered with \<open>ef\<close>.\<close>

definition history :: "lib \<Rightarrow> validator \<Rightarrow> enforcement_state \<Rightarrow> call_effect \<Rightarrow> bool" where
  "history L V est ef \<longleftrightarrow>
     (\<exists>w. w_estate w = est \<and> chan_run L V w (ef_released ef) (ef_signed ef)) \<and>
     (\<exists>w K. w_estate w = est \<and> cp_run L V w (ef_cp_signed ef) K)"

text \<open>Commitment numbers are numbers of 48 bits.\<close>

fun valid_chan_call :: "chan_call \<Rightarrow> bool" where
  "valid_chan_call (GetSecret n) = valid_number n"
| "valid_chan_call (ValidateHolder2 n _ _ _ _ _ _ _) = valid_number n"
| "valid_chan_call (ValidateHolder1 _ _ n _ _ _ _ _) = valid_number n"
| "valid_chan_call (SignHolder2 n) = valid_number n"
| "valid_chan_call (SignHolderRedundant n _ _ _ _ _) = valid_number n"
| "valid_chan_call (SignCounterparty2 _ n _ _ _ _ _) = valid_number n"
| "valid_chan_call (SignCounterparty1 _ _ _ n _ _ _) = valid_number n"
| "valid_chan_call _ = True"

lemma no_effect_sel [simp]: "ef_released no_effect = {}" "ef_signed no_effect = {}" "ef_cp_signed no_effect = {}"
  by (simp_all add: no_effect_def)

lemma add_effect_sel [simp]:
  "ef_released (add_effect a b) = ef_released a \<union> ef_released b" "ef_signed (add_effect a b) = ef_signed a \<union> ef_signed b"
  "ef_cp_signed (add_effect a b) = ef_cp_signed a \<union> ef_cp_signed b"
  by (simp_all add: add_effect_def)

lemma add_no_effect [simp]: "add_effect ef no_effect = ef"
  by (simp add: add_effect_def)

lemma history_new: "history L V (enforcement_state_new v) no_effect"
proof -
  obtain w :: chan_world where "w_estate w = enforcement_state_new v"
    by (metis channel.select_convs(2) chan_world.select_convs(1))
  then show ?thesis unfolding history_def by (auto intro: chan_run.init cp_run.init)
qed

definition effect_of :: "(status, call_effect) outcome \<Rightarrow> call_effect" where
  "effect_of r = (case r of Ok ef \<Rightarrow> ef | _ \<Rightarrow> no_effect)"

lemma tail_result:
  assumes "bindS m (\<lambda>x. returnS (f x)) w = (r, w')"
  shows "\<exists>q. m w = (q, w') \<and> effect_of r = (case q of Ok x \<Rightarrow> f x | _ \<Rightarrow> no_effect)"
  using assms by (auto simp: effect_of_def bindS_def returnS_def split: prod.splits outcome.splits)

lemma tail_result_get:
  assumes "bindS (getS g) (\<lambda>y. bindS m (\<lambda>x. returnS (f y x))) w = (r, w')"
  shows "\<exists>q. m w = (q, w') \<and> effect_of r = (case q of Ok x \<Rightarrow> f (g w) x | _ \<Rightarrow> no_effect)"
  using tail_result [of m "f (g w)" w r w'] assms by (simp add: run_simps)

lemma case_released:
  "ef_released (case q of Ok x \<Rightarrow> released_by n x | _ \<Rightarrow> no_effect) = released n q"
  "ef_signed (case q of Ok x \<Rightarrow> released_by n x | _ \<Rightarrow> no_effect) = {}"
  "ef_cp_signed (case q of Ok x \<Rightarrow> released_by n x | _ \<Rightarrow> no_effect) = {}"
  by (auto simp: released_def released_by_def split: outcome.splits option.splits)

lemma case_signed:
  "ef_released (case q of Ok x \<Rightarrow> no_effect\<lparr>ef_signed := {n}\<rparr> | _ \<Rightarrow> no_effect) = {}"
  "ef_signed (case q of Ok x \<Rightarrow> no_effect\<lparr>ef_signed := {n}\<rparr> | _ \<Rightarrow> no_effect) = signed_if n q"
  "ef_cp_signed (case q of Ok x \<Rightarrow> no_effect\<lparr>ef_signed := {n}\<rparr> | _ \<Rightarrow> no_effect) = {}"
  by (auto simp: signed_if_def split: outcome.splits)

lemma case_cp_signed:
  "ef_released (case q of Ok x \<Rightarrow> cp_signed_by n i | _ \<Rightarrow> no_effect) = {}"
  "ef_signed (case q of Ok x \<Rightarrow> cp_signed_by n i | _ \<Rightarrow> no_effect) = {}"
  "ef_cp_signed (case q of Ok x \<Rightarrow> cp_signed_by n i | _ \<Rightarrow> no_effect) = cp_signed_if n i q"
  by (auto simp: cp_signed_by_def cp_signed_if_def split: outcome.splits)

lemma case_no_effect: "(case q of Ok x \<Rightarrow> no_effect | _ \<Rightarrow> no_effect) = no_effect"
  by (cases q) simp_all

lemmas case_effect = case_released case_signed case_cp_signed case_no_effect

lemma chan_exec_secret:
  assumes "chan_exec E (GetSecret n) w = (r, w')"
  shows "w' = w" and "r = Ok ef \<Longrightarrow>
    (\<exists>s. get_per_commitment_secret (env_lib E) (env_validator E) (w_chan w) n = Ok s) \<and> ef = no_effect\<lparr>ef_released := {n}\<rparr>"
  using assms by (auto simp: bindS_def readS_def returnS_def split: outcome.splits)

lemmas chan_run_steps = chan_run.validate2 chan_run.validate1 chan_run.sign_holder chan_run.sign_redundant
  chan_run.recovery chan_run.close2 chan_run.close1 chan_run.counterparty2 chan_run.counterparty1
  chan_run.revocation chan_run.delayed_sweep chan_run.htlc_sweep chan_run.justice_sweep

lemmas cp_run_steps = cp_run.validate2 cp_run.validate1 cp_run.sign_holder cp_run.sign_redundant
  cp_run.recovery cp_run.close2 cp_run.close1 cp_run.counterparty2 cp_run.counterparty1
  cp_run.revocation cp_run.delayed_sweep cp_run.htlc_sweep cp_run.justice_sweep

lemma chan_exec_run:
  assumes "chan_run (env_lib E) (env_validator E) w R Sg" and "valid_chan_call call" and "chan_exec E call w = (r, w')"
  shows "chan_run (env_lib E) (env_validator E) w' (R \<union> ef_released (effect_of r)) (Sg \<union> ef_signed (effect_of r))"
proof (cases call)
  case (GetSecret n)
  with assms(3) have x: "chan_exec E (GetSecret n) w = (r, w')" by simp
  show ?thesis
  proof (cases r)
    case (Ok ef)
    with chan_exec_secret [OF x] assms GetSecret show ?thesis by (auto simp: effect_of_def intro: chan_run.secret)
  qed (use chan_exec_secret(1) [OF x] assms(1) in \<open>simp_all add: effect_of_def\<close>)
qed (use assms in \<open>auto simp: case_effect dest!: tail_result tail_result_get intro: chan_run_steps [OF assms(1)]\<close>)

lemma chan_exec_cp_run:
  assumes "cp_run (env_lib E) (env_validator E) w C K" and "valid_chan_call call" and "chan_exec E call w = (r, w')"
  shows "\<exists>K'. cp_run (env_lib E) (env_validator E) w' (C \<union> ef_cp_signed (effect_of r)) K'"
proof (cases call)
  case (GetSecret n)
  with assms(3) have x: "chan_exec E (GetSecret n) w = (r, w')" by simp
  with chan_exec_secret [OF x] assms(1) show ?thesis by (cases r) (auto simp: effect_of_def)
qed (use assms in \<open>auto simp: case_effect dest!: tail_result tail_result_get intro!: exI cp_run_steps [OF assms(1)]\<close>)

lemma historyD:
  assumes "history L V (w_estate w) ef"
  shows "chan_run L V w (ef_released ef) (ef_signed ef)" and "\<exists>K. cp_run L V w (ef_cp_signed ef) K"
proof -
  from assms obtain w1 w2 K where w1: "w_estate w1 = w_estate w" "chan_run L V w1 (ef_released ef) (ef_signed ef)"
    and w2: "w_estate w2 = w_estate w" "cp_run L V w2 (ef_cp_signed ef) K"
    by (auto simp: history_def)
  show "chan_run L V w (ef_released ef) (ef_signed ef)" by (rule chan_run.other [OF w1(2)]) (simp add: w1(1))
  have "cp_run L V w (ef_cp_signed ef) K" by (rule cp_run.other [OF w2(2)]) (simp add: w2(1))
  then show "\<exists>K. cp_run L V w (ef_cp_signed ef) K" ..
qed

lemma historyI:
  "chan_run L V w (ef_released ef) (ef_signed ef) \<Longrightarrow> cp_run L V w (ef_cp_signed ef) K \<Longrightarrow> history L V (w_estate w) ef"
  by (auto simp: history_def)

lemma history_exec:
  assumes "history L V (w_estate w) ef" and E: "env_lib E = L" "env_validator E = V" and "valid_chan_call call"
    and "chan_exec E call w = (r, w')"
  shows "history L V (w_estate w') (add_effect ef (effect_of r))"
proof -
  obtain K where cp: "cp_run L V w (ef_cp_signed ef) K" using historyD(2) [OF assms(1)] by blast
  then obtain K' where "cp_run L V w' (ef_cp_signed ef \<union> ef_cp_signed (effect_of r)) K'"
    using chan_exec_cp_run [of E w "ef_cp_signed ef" K call r w'] assms(4,5) unfolding E by blast
  moreover have "chan_run L V w' (ef_released ef \<union> ef_released (effect_of r)) (ef_signed ef \<union> ef_signed (effect_of r))"
    using chan_exec_run [of E w "ef_released ef" "ef_signed ef" call r w'] historyD(1) [OF assms(1)] assms(4,5)
    unfolding E by blast
  ultimately show ?thesis by (intro historyI) simp_all
qed

lemma history_secret:
  assumes "history L V est ef" and "get_per_commitment_secret L V c n = Ok s" and "valid_number n"
    and "next_holder_commit_num est = next_holder_commit_num (enforcement_state c)"
  shows "history L V est (add_effect ef (no_effect\<lparr>ef_released := {n}\<rparr>))"
proof -
  obtain st :: node_state where True by simp
  define w where "w = \<lparr>w_chan = c\<lparr>enforcement_state := est\<rparr>, w_state = st\<rparr>"
  have w: "w_estate w = est" by (simp add: w_def)
  have h: "history L V (w_estate w) ef" using assms(1) w by simp
  obtain K where cp: "cp_run L V w (ef_cp_signed ef) K" using historyD(2) [OF h] by blast
  have "get_per_commitment_secret L V (w_chan w) n = Ok s"
    using assms(2,4) by (simp add: w_def get_per_commitment_secret_def)
  then have "chan_run L V w (insert n (ef_released ef)) (ef_signed ef)"
    by (rule chan_run.secret [OF historyD(1) [OF h] assms(3)])
  with cp have "history L V (w_estate w) (add_effect ef (no_effect\<lparr>ef_released := {n}\<rparr>))"
    by (intro historyI) simp_all
  then show ?thesis by (simp add: w)
qed

end
