(* ===== verification/Durability.thy ===== *)
theory Durability
  imports Call_Effects
begin

text \<open>
  Across restarts.  An invariant relates the channels in memory, their persisted entries and what
  the signer has answered so far; every call of a node keeps it, and building the node again from
  the store restores it.
\<close>

section \<open>The invariant\<close>

text \<open>
  \<open>lk\<close> is the persisted entry of a channel, \<open>G\<close> what the signer has answered for it.  The book of
  channels \<open>ch\<close> maps ids to addresses of slots \<open>sl\<close>, all below \<open>nx\<close>.
\<close>

definition store_inv ::
    "lib \<Rightarrow> validator \<Rightarrow> (channel_id \<Rightarrow> channel_entry option) \<Rightarrow> (channel_id \<Rightarrow> call_effect) \<Rightarrow> bool" where
  "store_inv L V lk G \<longleftrightarrow> (\<forall>i. case lk i of
       None \<Rightarrow> G i = no_effect
     | Some en \<Rightarrow>
         if ce_channel_setup en = None then ce_id en = None \<and> G i = no_effect
         else history L V (ce_enforcement_state en) (G i))"

definition slot_inv ::
    "lib \<Rightarrow> validator \<Rightarrow> (channel_id \<Rightarrow> channel_entry option) \<Rightarrow> (channel_id \<Rightarrow> call_effect) \<Rightarrow> channel_id \<Rightarrow> channel_slot \<Rightarrow> bool" where
  "slot_inv L V lk G cid slot \<longleftrightarrow> (\<exists>en. lk (slot_id slot) = Some en \<and>
     (case slot of
        Stub _ \<Rightarrow> slot_id slot = cid \<and> ce_channel_setup en = None
      | Ready c \<Rightarrow> ce_channel_setup en \<noteq> None \<and>
          next_holder_commit_num (ce_enforcement_state en) = next_holder_commit_num (enforcement_state c) \<and>
          history L V (enforcement_state c) (G (slot_id slot))))"

definition book_inv ::
    "lib \<Rightarrow> validator \<Rightarrow> (channel_id \<Rightarrow> channel_entry option) \<Rightarrow> (channel_id \<Rightarrow> call_effect) \<Rightarrow>
     (channel_id \<Rightarrow> nat option) \<Rightarrow> (nat \<Rightarrow> channel_slot option) \<Rightarrow> nat \<Rightarrow> bool" where
  "book_inv L V lk G ch sl nx \<longleftrightarrow>
     (\<forall>cid a. ch cid = Some a \<longrightarrow> a < nx \<and> (\<exists>s. sl a = Some s \<and> slot_inv L V lk G cid s)) \<and>
     (\<forall>cid a cid' a' s s'. ch cid = Some a \<longrightarrow> ch cid' = Some a' \<longrightarrow> sl a = Some s \<longrightarrow> sl a' = Some s' \<longrightarrow>
        slot_id s = slot_id s' \<longrightarrow> a = a') \<and>
     (\<forall>i. lk i \<noteq> None \<longrightarrow> ch i \<noteq> None) \<and> store_inv L V lk G"

lemma book_inv_slot:
  assumes "book_inv L V lk G ch sl nx" and "ch cid = Some a"
  obtains s where "sl a = Some s" and "slot_inv L V lk G cid s" and "a < nx"
  using assms unfolding book_inv_def by blast

lemma slot_inv_other:
  assumes "slot_inv L V lk G cid s" and "slot_id s \<noteq> i" and "\<And>j. j \<noteq> i \<Longrightarrow> lk' j = lk j \<and> G' j = G j"
  shows "slot_inv L V lk' G' cid s"
  using assms unfolding slot_inv_def by (auto split: channel_slot.splits)

lemma book_inv_insert:
  assumes inv: "book_inv L V lk G ch sl nx" and store: "store_inv L V (lk(i \<mapsto> en)) G'"
    and I: "i \<in> I" and new: "\<And>cid. cid \<in> I \<Longrightarrow> slot_inv L V (lk(i \<mapsto> en)) G' cid s" "slot_id s = i"
    and same: "\<And>j. j \<noteq> i \<Longrightarrow> G' j = G j"
    and others: "\<And>cid a s'. cid \<notin> I \<Longrightarrow> ch cid = Some a \<Longrightarrow> sl a = Some s' \<Longrightarrow> slot_id s' \<noteq> i"
  shows "book_inv L V (lk(i \<mapsto> en)) G' (\<lambda>c. if c \<in> I then Some nx else ch c) (sl(nx \<mapsto> s)) (Suc nx)"
  unfolding book_inv_def
proof (intro conjI allI impI)
  let ?ch = "\<lambda>c. if c \<in> I then Some nx else ch c" and ?sl = "sl(nx \<mapsto> s)"
  have old: "\<exists>t. sl a = Some t \<and> slot_inv L V lk G cid t \<and> a < nx" if "ch cid = Some a" for cid a
    using book_inv_slot [OF inv that] by blast
  show "a < Suc nx" if "?ch cid = Some a" for cid a
    using that old [of cid a] by (auto split: if_splits)
  show "\<exists>t. ?sl a = Some t \<and> slot_inv L V (lk(i \<mapsto> en)) G' cid t" if c: "?ch cid = Some a" for cid a
  proof (cases "cid \<in> I")
    case True
    with c new show ?thesis by auto
  next
    case False
    with c old obtain t where t: "sl a = Some t" "slot_inv L V lk G cid t" "a < nx" by force
    with others [OF False _ t(1)] c False have "slot_inv L V (lk(i \<mapsto> en)) G' cid t"
      by (intro slot_inv_other [OF t(2), of i]) (auto simp: same)
    with t show ?thesis by auto
  qed
  show "?ch j \<noteq> None" if "(lk(i \<mapsto> en)) j \<noteq> None" for j
    using that I inv unfolding book_inv_def by (auto split: if_splits)
  show "a = a'" if c: "?ch cid = Some a" "?ch cid' = Some a'" and t: "?sl a = Some t" "?sl a' = Some t'"
    and id: "slot_id t = slot_id t'" for cid a cid' a' t t'
  proof -
    have away: "b < nx \<and> slot_id u \<noteq> i" if "d \<notin> I" "?ch d = Some b" "?sl b = Some u" for d b u
      using that old [of d b] others [of d b u] by (auto split: if_splits)
    show ?thesis
    proof (cases "cid \<in> I \<or> cid' \<in> I")
      case True
      then show ?thesis using c t id new(2) away [of cid a t] away [of cid' a' t'] by (auto split: if_splits)
    next
      case False
      with c t away [of cid a t] away [of cid' a' t'] have "ch cid = Some a" "ch cid' = Some a'" "sl a = Some t" "sl a' = Some t'"
        by auto
      with inv id show ?thesis unfolding book_inv_def by blast
    qed
  qed
qed (rule store)

lemma store_inv_new_entry:
  assumes "store_inv L V lk G" and "G i = no_effect" and "ce_channel_setup en = None \<Longrightarrow> ce_id en = None"
    and "ce_channel_setup en \<noteq> None \<Longrightarrow> history L V (ce_enforcement_state en) no_effect"
  shows "store_inv L V (lk(i \<mapsto> en)) G"
  using assms unfolding store_inv_def by auto

lemma book_inv_store: "book_inv L V lk G ch sl nx \<Longrightarrow> store_inv L V lk G"
  by (simp add: book_inv_def)

lemma book_inv_dom:
  assumes "book_inv L V lk G ch sl nx" and "ch i = None"
  shows "lk i = None"
proof -
  have "\<forall>i. lk i \<noteq> None \<longrightarrow> ch i \<noteq> None" using assms(1) by (simp add: book_inv_def)
  with assms(2) show ?thesis by metis
qed

lemma store_inv_idle:
  assumes "store_inv L V lk G" and "lk i = None \<or> lk i = Some en \<and> ce_channel_setup en = None"
  shows "G i = no_effect"
  using assms(1) [unfolded store_inv_def, rule_format, of i] assms(2) by auto

lemma book_inv_slot_id:
  assumes "book_inv L V lk G ch sl nx" and "ch cid = Some a" and "sl a = Some s"
  shows "slot_inv L V lk G cid s"
  using book_inv_slot [OF assms(1,2)] assms(3) by (metis option.inject)

lemma book_inv_new_stub:
  assumes inv: "book_inv L V lk G ch sl nx" and "ch (stub_id0 stub) = None"
  shows "book_inv L V (lk(stub_id0 stub \<mapsto> stub_entry stub)) G (ch(stub_id0 stub \<mapsto> nx)) (sl(nx \<mapsto> Stub stub)) (Suc nx)"
proof -
  let ?i = "stub_id0 stub"
  have lk: "lk ?i = None" by (rule book_inv_dom [OF assms])
  have G: "G ?i = no_effect" by (rule store_inv_idle [OF book_inv_store [OF inv]]) (simp add: lk)
  have "book_inv L V (lk(?i \<mapsto> stub_entry stub)) G (\<lambda>c. if c \<in> {?i} then Some nx else ch c) (sl(nx \<mapsto> Stub stub)) (Suc nx)"
  proof (rule book_inv_insert [OF inv])
    show "store_inv L V (lk(?i \<mapsto> stub_entry stub)) G"
      by (rule store_inv_new_entry [OF book_inv_store [OF inv] G]) (simp_all add: stub_entry_def)
    show "slot_inv L V (lk(?i \<mapsto> stub_entry stub)) G cid (Stub stub)" if "cid \<in> {?i}" for cid
      using that by (simp add: slot_inv_def slot_id_def stub_entry_def)
    show "slot_id t \<noteq> ?i" if "ch cid = Some a" "sl a = Some t" for cid a t
      using book_inv_slot_id [OF inv that] lk by (auto simp: slot_inv_def)
  qed (simp_all add: slot_id_def)
  moreover have "(\<lambda>c. if c \<in> {?i} then Some nx else ch c) = ch(?i \<mapsto> nx)" by auto
  ultimately show ?thesis by simp
qed

lemma book_inv_ready:
  assumes inv: "book_inv L V lk G ch sl nx" and ch: "ch (chan_id0 c) = Some a" and sl: "sl a = Some (Stub stub)"
    and est: "enforcement_state c = enforcement_state_new v" and I: "chan_id0 c \<in> I"
  shows "book_inv L V (lk(chan_id0 c \<mapsto> channel_to_entry c)) G (\<lambda>d. if d \<in> I then Some nx else ch d) (sl(nx \<mapsto> Ready c)) (Suc nx)"
proof -
  let ?i = "chan_id0 c" and ?en = "channel_to_entry c"
  obtain en where en: "lk ?i = Some en" "ce_channel_setup en = None"
    using book_inv_slot_id [OF inv ch sl] by (auto simp: slot_inv_def slot_id_def)
  have G: "G ?i = no_effect" by (rule store_inv_idle [OF book_inv_store [OF inv], of _ en]) (simp add: en)
  show ?thesis
  proof (rule book_inv_insert [OF inv _ I])
    show "store_inv L V (lk(?i \<mapsto> ?en)) G"
      by (rule store_inv_new_entry [OF book_inv_store [OF inv] G]) (simp_all add: channel_to_entry_def est history_new)
    show "slot_inv L V (lk(?i \<mapsto> ?en)) G cid (Ready c)" for cid
      by (simp add: slot_inv_def slot_id_def channel_to_entry_def est G history_new)
    show "slot_id t \<noteq> ?i" if "cid \<notin> I" "ch cid = Some b" "sl b = Some t" for cid b t
      using book_inv_slot_id [OF inv that(2,3)] that(1) I en
      by (cases t) (auto simp: slot_inv_def slot_id_def)
  qed (simp_all add: slot_id_def)
qed

lemma book_inv_known: "book_inv L V lk G ch sl nx \<Longrightarrow> lk i \<noteq> None \<Longrightarrow> ch i \<noteq> None"
  using book_inv_dom by metis

lemma book_inv_unique:
  assumes "book_inv L V lk G ch sl nx" and "ch d = Some b" and "ch d' = Some b'" and "sl b = Some t" and "sl b' = Some t'"
    and "slot_id t = slot_id t'"
  shows "b = b'"
proof -
  have "\<forall>cid a cid' a' s s'. ch cid = Some a \<longrightarrow> ch cid' = Some a' \<longrightarrow> sl a = Some s \<longrightarrow> sl a' = Some s' \<longrightarrow>
        slot_id s = slot_id s' \<longrightarrow> a = a'"
    using assms(1) by (simp add: book_inv_def)
  from this [rule_format, OF assms(2-6)] show ?thesis .
qed

lemma book_inv_delete:
  assumes inv: "book_inv L V lk G ch sl nx" and ch: "ch cid = Some a" and sl: "sl a = Some (Stub stub)"
  shows "book_inv L V (lk(cid := None)) G (ch(cid := None)) sl nx"
proof -
  obtain en where en: "lk cid = Some en" "ce_channel_setup en = None"
    using book_inv_slot_id [OF inv ch sl] by (auto simp: slot_inv_def)
  have "G cid = no_effect" by (rule store_inv_idle [OF book_inv_store [OF inv], of _ en]) (simp add: en)
  then have store: "store_inv L V (lk(cid := None)) G"
    using book_inv_store [OF inv] unfolding store_inv_def by simp
  have keep: "slot_inv L V (lk(cid := None)) G d t" if d: "d \<noteq> cid" "slot_inv L V lk G d t" for d t
  proof (rule slot_inv_other [OF d(2)])
    show "slot_id t \<noteq> cid" using d en by (cases t) (auto simp: slot_inv_def)
  qed simp
  show ?thesis
    unfolding book_inv_def
  proof (intro conjI allI impI)
    have old: "ch d = Some b \<and> d \<noteq> cid" if "(ch(cid := None)) d = Some b" for d b
      using that by (simp split: if_splits)
    show "b < nx" if "(ch(cid := None)) d = Some b" for d b
      using book_inv_slot [OF inv] old [OF that] by blast
    show "\<exists>t. sl b = Some t \<and> slot_inv L V (lk(cid := None)) G d t" if d: "(ch(cid := None)) d = Some b" for d b
    proof -
      obtain t where "sl b = Some t" "slot_inv L V lk G d t" using book_inv_slot [OF inv] old [OF d] by blast
      with keep old [OF d] show ?thesis by blast
    qed
    show "b = b'" if "(ch(cid := None)) d = Some b" "(ch(cid := None)) d' = Some b'" "sl b = Some t" "sl b' = Some t'"
      "slot_id t = slot_id t'" for d b d' b' t t'
      using book_inv_unique [OF inv] old [OF that(1)] old [OF that(2)] that(3-5) by blast
    show "(ch(cid := None)) j \<noteq> None" if "(lk(cid := None)) j \<noteq> None" for j
      using that book_inv_known [OF inv, of j] by (simp split: if_splits)
  qed (rule store)
qed

text \<open>A call on a ready channel: its slot and, if the call persisted, its entry change.\<close>

lemma book_inv_update:
  assumes inv: "book_inv L V lk G ch sl nx" and ch: "ch cid = Some a" and sl: "sl a = Some (Ready c)"
    and ids: "chan_id0 c = i" "chan_id0 c' = i" and en: "lk' i = Some en" "ce_channel_setup en \<noteq> None"
    and nxt: "next_holder_commit_num (ce_enforcement_state en) = next_holder_commit_num (enforcement_state c')"
    and hist: "history L V (enforcement_state c') (G' i)" "history L V (ce_enforcement_state en) (G' i)"
    and same: "\<And>j. j \<noteq> i \<Longrightarrow> lk' j = lk j \<and> G' j = G j"
  shows "book_inv L V lk' G' ch (sl(a \<mapsto> Ready c')) nx"
  unfolding book_inv_def
proof (intro conjI allI impI)
  have slot: "slot_inv L V lk G d t" "b < nx" if "ch d = Some b" "sl b = Some t" for d b t
    using book_inv_slot [OF inv that(1)] that(2) by (metis option.inject)+
  have new: "slot_inv L V lk' G' d (Ready c')" for d
    using en nxt hist ids by (auto simp: slot_inv_def slot_id_def)
  have unique: "b = b'" if "ch d = Some b" "ch d' = Some b'" "sl b = Some t" "sl b' = Some t'" "slot_id t = slot_id t'" for d b d' b' t t'
    using book_inv_unique [OF inv] that by blast
  have away: "slot_id t \<noteq> i" if "ch d = Some b" "sl b = Some t" "b \<noteq> a" for d b t
    using unique [OF ch that(1) sl that(2)] that(3) ids(1) by (auto simp: slot_id_def)
  show "b < nx" if "ch d = Some b" for d b using book_inv_slot [OF inv that] by blast
  show "\<exists>t. (sl(a \<mapsto> Ready c')) b = Some t \<and> slot_inv L V lk' G' d t" if d: "ch d = Some b" for d b
  proof (cases "b = a")
    case False
    obtain t where t: "sl b = Some t" using book_inv_slot [OF inv d] by blast
    have "slot_inv L V lk' G' d t" by (rule slot_inv_other [OF slot(1) [OF d t] away [OF d t False] same])
    with t False show ?thesis by simp
  qed (simp add: new)
  show "ch j \<noteq> None" if "lk' j \<noteq> None" for j
  proof (cases "j = i")
    case True
    have "lk i \<noteq> None" using slot(1) [OF ch sl] ids by (auto simp: slot_inv_def slot_id_def)
    then show ?thesis using book_inv_known [OF inv, of i] True by simp
  next
    case False
    then show ?thesis using that same [of j] book_inv_known [OF inv, of j] by simp
  qed
  show "b = b'" if d: "ch d = Some b" "ch d' = Some b'" and t: "(sl(a \<mapsto> Ready c')) b = Some t" "(sl(a \<mapsto> Ready c')) b' = Some t'"
    and id: "slot_id t = slot_id t'" for d b d' b' t t'
    using unique [OF d] away [OF d(1)] away [OF d(2)] t id ids(2)
    by (auto simp: slot_id_def split: if_splits)
  show "store_inv L V lk' G'"
    unfolding store_inv_def
  proof
    fix j
    show "case lk' j of None \<Rightarrow> G' j = no_effect
        | Some en \<Rightarrow> if ce_channel_setup en = None then ce_id en = None \<and> G' j = no_effect
            else history L V (ce_enforcement_state en) (G' j)"
      using book_inv_store [OF inv, unfolded store_inv_def, rule_format, of j] same [of j] en hist
      by (cases "j = i") (auto split: option.splits)
  qed
qed

end
