(* ===== verification/Spec2Isabelle.thy ===== *)
theory Spec2Isabelle
  imports Storage Durability
begin

text \<open>
  Verification of the Validating Lightning Signer.
\<close>

end
